(* ===== verification/Prelude.thy ===== *)
theory Prelude
  imports Main "HOL-Library.Word"
begin

text \<open>
  The prelude of the Chainpoint Core development: the fact collections the component
  theories fill and use, the generic lemmas they share, the width of the integers, and the
  contract of an invariant of a state machine (locale \<open>invariant\<close>).

  \<^item> A Go \<open>string\<close> and a Go \<open>[]byte\<close> are both byte sequences, and the code converts
    freely between them; both are \<open>string\<close> here, a list of \<open>char\<close>, which is a byte.
  \<^item> An \<open>int64\<close> is an \<open>int\<close> kept in range by \<open>i64\<close>, the two's complement wrap-around
    that every addition, subtraction and increment of the code goes through.
  \<^item> A Go map is a partial function; where the code ranges over one, the iteration order
    of that run is an explicit list argument.
  \<^item> A Go \<open>(value, error)\<close> pair is \<open>err + 'a\<close>, with \<open>Inl\<close> the error.
\<close>

named_theorems codec_simps \<open>round trips of encoders and decoders\<close>
named_theorems store_simps \<open>what a lookup returns after an update of a store\<close>
named_theorems frame_simps \<open>fields an operation leaves alone\<close>

type_synonym bytes = string

text \<open>
  An error carries the message the code gives it; \<open>Panic\<close> is a run-time panic (an index or
  slice out of range, a division by zero, an explicit \<open>panic\<close>), which no caller of the
  modelled code turns into an ordinary error.
\<close>

datatype err = Err string | Panic string

subsection \<open>64-bit signed integers\<close>

definition i64 :: "int \<Rightarrow> int" where
  "i64 x = (x + 2 ^ 63) mod 2 ^ 64 - 2 ^ 63"

definition is_i64 :: "int \<Rightarrow> bool" where
  "is_i64 x \<longleftrightarrow> - (2 ^ 63) \<le> x \<and> x < 2 ^ 63"

lemma i64_id [simp]: "is_i64 x \<Longrightarrow> i64 x = x"
  by (simp add: i64_def is_i64_def)

lemma is_i64_i64 [simp]: "is_i64 (i64 x)"
proof -
  have "0 \<le> (x + 2 ^ 63) mod 2 ^ 64" "(x + 2 ^ 63) mod 2 ^ 64 < 2 ^ 64" by simp_all
  then show ?thesis unfolding i64_def is_i64_def by simp
qed

lemma i64_signed_take_bit: "i64 x = signed_take_bit 63 x"
proof -
  have "(2::int) ^ 64 = 2 * 2 ^ 63" by simp
  then show ?thesis
    unfolding i64_def signed_take_bit_eq_take_bit_shift take_bit_eq_mod by simp
qed

lemma is_i64_small: "\<bar>x\<bar> \<le> 4611686018427387904 \<Longrightarrow> is_i64 x"
  by (auto simp: is_i64_def)

lemma is_i64_numeral_bounds: "is_i64 x \<longleftrightarrow> -9223372036854775808 \<le> x \<and> x \<le> 9223372036854775807"
  by (auto simp: is_i64_def)

lemma i64_max_wraps: "i64 (9223372036854775807 + 1) = -9223372036854775808"
  by (simp add: i64_def)

subsection \<open>Results\<close>

definition bind_err :: "err + 'a \<Rightarrow> ('a \<Rightarrow> err + 'b) \<Rightarrow> err + 'b" where
  "bind_err m f = (case m of Inl e \<Rightarrow> Inl e | Inr x \<Rightarrow> f x)"

lemma bind_err_simps [simp]:
  "bind_err (Inl e) f = Inl e"
  "bind_err (Inr x) f = f x"
  by (simp_all add: bind_err_def)

lemma bind_err_Inr_iff: "bind_err m f = Inr y \<longleftrightarrow> (\<exists>x. m = Inr x \<and> f x = Inr y)"
  by (cases m) auto

definition is_ok :: "err + 'a \<Rightarrow> bool" where
  "is_ok r = (case r of Inl _ \<Rightarrow> False | Inr _ \<Rightarrow> True)"

lemma is_ok_simps [simp]: "\<not> is_ok (Inl e)" "is_ok (Inr x)"
  by (simp_all add: is_ok_def)

lemma is_ok_bind: "is_ok (bind_err m f) \<longleftrightarrow> is_ok m \<and> (\<forall>x. m = Inr x \<longrightarrow> is_ok (f x))"
  by (cases m) auto

fun map_err :: "('a \<Rightarrow> err + 'b) \<Rightarrow> 'a list \<Rightarrow> err + 'b list" where
  "map_err f [] = Inr []"
| "map_err f (x # xs) = bind_err (f x) (\<lambda>y. bind_err (map_err f xs) (\<lambda>ys. Inr (y # ys)))"

lemma map_err_Inr: "(\<And>x. x \<in> set xs \<Longrightarrow> f x = Inr (g x)) \<Longrightarrow> map_err f xs = Inr (map g xs)"
  by (induction xs) auto

text \<open>
  The order in which a run ranges over a Go map: any enumeration of its keys.
\<close>

definition map_order :: "(('k \<rightharpoonup> 'v) \<Rightarrow> 'k list) \<Rightarrow> bool" where
  "map_order iter \<longleftrightarrow> (\<forall>m. finite (dom m) \<longrightarrow> set (iter m) = dom m \<and> distinct (iter m))"

lemma map_order_sorted: "map_order (\<lambda>m. sorted_list_of_set (dom m :: 'k::linorder set))"
  by (simp add: map_order_def)

subsection \<open>Lists\<close>

lemma foldl_invariant:
  assumes "P s" and "\<And>s x. P s \<Longrightarrow> x \<in> set xs \<Longrightarrow> P (f s x)"
  shows "P (foldl f s xs)"
  using assms by (induction xs arbitrary: s) auto

lemma foldl_measure:
  assumes "\<And>s x. g (f s x) = h x (g s)"
  shows "g (foldl f s xs) = foldl (\<lambda>a x. h x a) (g s) xs"
  by (induction xs arbitrary: s) (auto simp: assms)

lemma takeWhile_append_stop:
  "(\<And>x. x \<in> set xs \<Longrightarrow> P x) \<Longrightarrow> ys = [] \<or> \<not> P (hd ys) \<Longrightarrow> takeWhile P (xs @ ys) = xs"
  by (induction xs) (auto intro: takeWhile_eq_Nil_iff [THEN iffD2])

lemma dropWhile_append_stop:
  "(\<And>x. x \<in> set xs \<Longrightarrow> P x) \<Longrightarrow> ys = [] \<or> \<not> P (hd ys) \<Longrightarrow> dropWhile P (xs @ ys) = ys"
  by (induction xs) (auto simp: dropWhile_eq_self_iff)

lemma remove1_notin [simp]: "x \<notin> set xs \<Longrightarrow> remove1 x xs = xs"
  by (induction xs) auto

lemma sorted_distinct_perm_unique:
  fixes xs ys :: "'a::linorder list"
  assumes "sorted xs" "sorted ys" "set xs = set ys" "distinct xs" "distinct ys"
  shows "xs = ys"
  using assms by (simp add: sorted_distinct_set_unique)

subsection \<open>State machines\<close>

text \<open>
  A concurrent part of the program is a step relation: a step is what one thread does between two
  points where another may run. The states that a machine can reach, and the contract of an
  invariant: the first states have it and every step keeps it.
\<close>

inductive reachable :: "('s \<Rightarrow> bool) \<Rightarrow> ('s \<Rightarrow> 's \<Rightarrow> bool) \<Rightarrow> 's \<Rightarrow> bool" for first step where
  reach_first: "first s \<Longrightarrow> reachable first step s"
| reach_step: "reachable first step s \<Longrightarrow> step s t \<Longrightarrow> reachable first step t"

locale invariant =
  fixes first :: "'s \<Rightarrow> bool" and step :: "'s \<Rightarrow> 's \<Rightarrow> bool" and inv_of :: "'s \<Rightarrow> bool"
  assumes inv_first: "first s \<Longrightarrow> inv_of s"
    and inv_step: "step s t \<Longrightarrow> inv_of s \<Longrightarrow> inv_of t"
begin

lemma reachable_inv: "reachable first step s \<Longrightarrow> inv_of s"
  by (induction rule: reachable.induct) (auto intro: inv_first inv_step)

lemma run_inv: "step\<^sup>*\<^sup>* s t \<Longrightarrow> inv_of s \<Longrightarrow> inv_of t"
  by (induction rule: rtranclp_induct) (auto intro: inv_step)

end

end
