(* ===== verification/Go_Strings.thy ===== *)
theory Go_Strings
  imports Prelude
begin

text \<open>
  The parts of Go's \<open>strings\<close> and \<open>strconv\<close> packages the code calls, on byte strings.
  Separators passed to \<open>strings.Split\<close> and \<open>strings.LastIndex\<close> are single characters
  everywhere in the code; \<open>strings.ToLower\<close> is only applied to ASCII text.
\<close>

subsection \<open>Searching and slicing\<close>

definition has_prefix :: "string \<Rightarrow> string \<Rightarrow> bool" where
  "has_prefix s p \<longleftrightarrow> take (length p) s = p"

definition trim_prefix :: "string \<Rightarrow> string \<Rightarrow> string" where
  "trim_prefix s p = (if has_prefix s p then drop (length p) s else s)"

fun str_index :: "string \<Rightarrow> string \<Rightarrow> nat option" where
  "str_index [] sub = (if sub = [] then Some 0 else None)"
| "str_index (c # s) sub =
     (if has_prefix (c # s) sub then Some 0 else map_option Suc (str_index s sub))"

text \<open>\<open>strings.Index\<close> returns -1 where there is no match.\<close>

definition go_index :: "string \<Rightarrow> string \<Rightarrow> int" where
  "go_index s sub = (case str_index s sub of None \<Rightarrow> -1 | Some i \<Rightarrow> int i)"

definition contains :: "string \<Rightarrow> string \<Rightarrow> bool" where
  "contains s sub \<longleftrightarrow> str_index s sub \<noteq> None"

definition last_index_char :: "string \<Rightarrow> char \<Rightarrow> int" where
  "last_index_char s c =
     (if c \<in> set s then int (length s) - 1 - int (length (takeWhile (\<lambda>x. x \<noteq> c) (rev s))) else -1)"

text \<open>Slice expressions \<open>s[:i]\<close>, \<open>s[i:]\<close> and \<open>s[i:j]\<close> panic out of range.\<close>

definition slice :: "'a list \<Rightarrow> int \<Rightarrow> int \<Rightarrow> err + 'a list" where
  "slice s i j =
     (if 0 \<le> i \<and> i \<le> j \<and> j \<le> int (length s) then Inr (take (nat (j - i)) (drop (nat i) s))
      else Inl (Panic ''slice bounds out of range''))"

definition slice_to :: "'a list \<Rightarrow> int \<Rightarrow> err + 'a list" where
  "slice_to s j = slice s 0 j"

definition slice_from :: "'a list \<Rightarrow> int \<Rightarrow> err + 'a list" where
  "slice_from s i = slice s i (int (length s))"

definition index_at :: "'a list \<Rightarrow> int \<Rightarrow> err + 'a" where
  "index_at xs i =
     (if 0 \<le> i \<and> i < int (length xs) then Inr (xs ! nat i)
      else Inl (Panic ''index out of range''))"

lemma has_prefix_append [simp]: "has_prefix (p @ s) p"
  by (simp add: has_prefix_def)

lemma has_prefix_Nil [simp]: "has_prefix s []"
  by (simp add: has_prefix_def)

lemma has_prefix_Cons [simp]:
  "has_prefix (a # s) (b # p) \<longleftrightarrow> a = b \<and> has_prefix s p"
  "\<not> has_prefix [] (b # p)"
  by (auto simp: has_prefix_def)

lemma has_prefix_iff: "has_prefix s p \<longleftrightarrow> (\<exists>t. s = p @ t)"
  unfolding has_prefix_def by (metis append_eq_conv_conj append_take_drop_id)

lemma trim_prefix_append [simp]: "trim_prefix (p @ s) p = s"
  by (simp add: trim_prefix_def)

lemma str_index_Some:
  "str_index s sub = Some i \<Longrightarrow> \<exists>post. s = take i s @ sub @ post \<and> i + length sub \<le> length s"
proof (induction s arbitrary: i)
  case Nil
  then show ?case by (simp split: if_splits)
next
  case (Cons c s)
  show ?case
  proof (cases "has_prefix (c # s) sub")
    case True
    with Cons.prems have "i = 0" by simp
    moreover from True obtain t where "c # s = sub @ t" by (auto simp: has_prefix_iff)
    moreover then have "length sub \<le> length (c # s)" by simp
    ultimately show ?thesis by auto
  next
    case False
    with Cons.prems obtain j where j: "str_index s sub = Some j" "i = Suc j" by auto
    from Cons.IH [OF j(1)] show ?thesis using j(2) by auto
  qed
qed

lemma str_index_append: "\<exists>i. str_index (pre @ sub @ post) sub = Some i \<and> i \<le> length pre"
proof (induction pre)
  case Nil
  show ?case
  proof (cases "sub @ post")
    case Nil
    then show ?thesis by simp
  next
    case (Cons c s)
    have "has_prefix (c # s) sub" by (metis Cons has_prefix_append)
    with Cons show ?thesis by simp
  qed
next
  case (Cons c pre)
  then show ?case by auto
qed

lemma contains_iff: "contains s sub \<longleftrightarrow> (\<exists>pre post. s = pre @ sub @ post)"
proof
  assume "contains s sub"
  then show "\<exists>pre post. s = pre @ sub @ post"
    unfolding contains_def using str_index_Some by blast
next
  assume "\<exists>pre post. s = pre @ sub @ post"
  then show "contains s sub"
    unfolding contains_def using str_index_append by fastforce
qed

lemma slice_to_append [simp]: "slice_to (a @ b) (int (length a)) = Inr a"
  by (simp add: slice_to_def slice_def)

lemma slice_from_append [simp]: "slice_from (a @ b) (int (length a)) = Inr b"
  by (simp add: slice_from_def slice_def)

lemma slice_to_neg [simp]: "slice_to s (-1) = Inl (Panic ''slice bounds out of range'')"
  by (simp add: slice_to_def slice_def)

subsection \<open>Splitting and joining\<close>

fun split_on :: "char \<Rightarrow> string \<Rightarrow> string list" where
  "split_on c [] = [[]]"
| "split_on c (x # xs) =
     (if x = c then [] # split_on c xs
      else (case split_on c xs of [] \<Rightarrow> [[x]] | y # ys \<Rightarrow> (x # y) # ys))"

fun join :: "string \<Rightarrow> string list \<Rightarrow> string" where
  "join sep [] = []"
| "join sep [x] = x"
| "join sep (x # y # ys) = x @ sep @ join sep (y # ys)"

lemma split_on_not_Nil [simp]: "split_on c s \<noteq> []"
  by (induction s) (auto split: list.splits)

lemma join_Cons: "ys \<noteq> [] \<Longrightarrow> join sep (x # ys) = x @ sep @ join sep ys"
  by (cases ys) auto

lemma join_split_on: "join [c] (split_on c s) = s"
proof (induction s)
  case Nil
  then show ?case by simp
next
  case (Cons x s)
  show ?case
  proof (cases "x = c")
    case True
    with Cons show ?thesis by (simp add: join_Cons)
  next
    case False
    obtain y ys where y: "split_on c s = y # ys" by (cases "split_on c s") auto
    with Cons have "join [c] (y # ys) = s" by simp
    then have "join [c] ((x # y) # ys) = x # s" by (cases ys) auto
    with False y show ?thesis by simp
  qed
qed

lemma split_on_no_sep: "c \<notin> set s \<Longrightarrow> split_on c s = [s]"
  by (induction s) auto

lemma split_on_append: "c \<notin> set a \<Longrightarrow> split_on c (a @ c # b) = a # split_on c b"
  by (induction a) auto

lemma split_on_parts: "p \<in> set (split_on c s) \<Longrightarrow> c \<notin> set p"
proof (induction s arbitrary: p)
  case Nil
  then show ?case by simp
next
  case (Cons x s)
  obtain y ys where y: "split_on c s = y # ys" by (cases "split_on c s") auto
  with Cons show ?case by (auto split: if_splits)
qed

subsection \<open>Replacement and case\<close>

fun replace_from :: "nat \<Rightarrow> string \<Rightarrow> string \<Rightarrow> string \<Rightarrow> string" where
  "replace_from k old new [] = []"
| "replace_from (Suc k) old new (c # s) = replace_from k old new s"
| "replace_from 0 old new (c # s) =
     (if has_prefix (c # s) old then new @ replace_from (length old - 1) old new s
      else c # replace_from 0 old new s)"

text \<open>\<open>strings.ReplaceAll\<close> with a non-empty \<open>old\<close>: leftmost, not overlapping.\<close>

definition replace_all :: "string \<Rightarrow> string \<Rightarrow> string \<Rightarrow> string" where
  "replace_all s old new = replace_from 0 old new s"

definition lower_char :: "char \<Rightarrow> char" where
  "lower_char c = (let n = (of_char c :: nat) in if 65 \<le> n \<and> n \<le> 90 then char_of (n + 32) else c)"

definition to_lower :: "string \<Rightarrow> string" where
  "to_lower s = map lower_char s"

lemma replace_from_skip: "replace_from (length p) old new (p @ s) = replace_from 0 old new s"
proof (induction p)
  case Nil
  show ?case by simp
next
  case (Cons c p)
  then show ?case by simp
qed

lemma replace_all_head:
  assumes "old \<noteq> []"
  shows "replace_all (old @ s) old new = new @ replace_all s old new"
proof -
  obtain c p where p: "old = c # p" using assms by (cases old) auto
  have "has_prefix (c # p @ s) old" using p has_prefix_append [of old s] by simp
  then show ?thesis
    using p by (simp add: replace_all_def replace_from_skip)
qed

lemma replace_all_absent: "\<not> contains s old \<Longrightarrow> replace_all s old new = s"
proof (induction s)
  case Nil
  then show ?case by (simp add: replace_all_def)
next
  case (Cons c s)
  then have "\<not> has_prefix (c # s) old" "\<not> contains s old"
    by (auto simp: contains_def split: if_splits)
  with Cons.IH show ?case by (simp add: replace_all_def)
qed

subsection \<open>strconv\<close>

definition digit_char :: "nat \<Rightarrow> char" where
  "digit_char d = char_of (48 + d)"

definition digit_val :: "char \<Rightarrow> nat option" where
  "digit_val c = (let n = of_char c in if 48 \<le> n \<and> n \<le> 57 then Some (n - 48) else None)"

fun nat_digits :: "nat \<Rightarrow> string" where
  "nat_digits n = (if n < 10 then [digit_char n] else nat_digits (n div 10) @ [digit_char (n mod 10)])"

declare nat_digits.simps [simp del]

text \<open>\<open>strconv.FormatInt(n, 10)\<close>, \<open>strconv.Itoa\<close> and the \<open>%d\<close> verb.\<close>

definition format_int :: "int \<Rightarrow> string" where
  "format_int n = (if n < 0 then CHR ''-'' # nat_digits (nat (- n)) else nat_digits (nat n))"

datatype num_err = ErrSyntax | ErrRange

text \<open>
  \<open>strconv.ParseUint(s, 10, 64)\<close> reads from the left and reports whichever it meets first,
  a character that is not a digit or a value past 64 bits.
\<close>

fun parse_uint :: "nat \<Rightarrow> string \<Rightarrow> num_err + nat" where
  "parse_uint acc [] = Inr acc"
| "parse_uint acc (c # s) =
     (case digit_val c of
        None \<Rightarrow> Inl ErrSyntax
      | Some d \<Rightarrow> if 2 ^ 64 \<le> acc * 10 + d then Inl ErrRange else parse_uint (acc * 10 + d) s)"

text \<open>
  \<open>strconv.ParseInt(s, 10, 64)\<close>: the value and the error, if any. A syntax error gives 0, a
  range error the nearest \<open>int64\<close>; callers that drop the error use that value.
\<close>

definition parse_magnitude :: "bool \<Rightarrow> string \<Rightarrow> int \<times> num_err option" where
  "parse_magnitude neg s =
     (if s = [] then (0, Some ErrSyntax)
      else case parse_uint 0 s of
          Inl ErrSyntax \<Rightarrow> (0, Some ErrSyntax)
        | Inl ErrRange \<Rightarrow> ((if neg then - (2 ^ 63) else 2 ^ 63 - 1), Some ErrRange)
        | Inr u \<Rightarrow>
            if \<not> neg \<and> 2 ^ 63 \<le> u then (2 ^ 63 - 1, Some ErrRange)
            else if neg \<and> 2 ^ 63 < u then (- (2 ^ 63), Some ErrRange)
            else ((if neg then - int u else int u), None))"

definition parse_int :: "string \<Rightarrow> int \<times> num_err option" where
  "parse_int s =
     (case s of
        [] \<Rightarrow> (0, Some ErrSyntax)
      | c # r \<Rightarrow> if c = CHR ''+'' then parse_magnitude False r
                 else if c = CHR ''-'' then parse_magnitude True r
                 else parse_magnitude False s)"

text \<open>\<open>ParseInt\<close> where the caller tests the error.\<close>

definition parse_int_ok :: "string \<Rightarrow> int option" where
  "parse_int_ok s = (case parse_int s of (n, None) \<Rightarrow> Some n | (_, Some _) \<Rightarrow> None)"

lemma of_char_digit_char [simp]: "d < 10 \<Longrightarrow> (of_char (digit_char d) :: nat) = 48 + d"
  by (simp add: digit_char_def)

lemma digit_val_digit_char [simp]: "d < 10 \<Longrightarrow> digit_val (digit_char d) = Some d"
  by (simp add: digit_val_def)

lemma digit_char_neq_sign: "d < 10 \<Longrightarrow> digit_char d \<noteq> CHR ''-'' \<and> digit_char d \<noteq> CHR ''+''"
proof -
  assume d: "d < 10"
  have "(of_char (digit_char d) :: nat) \<noteq> of_char (CHR ''-'')"
    "(of_char (digit_char d) :: nat) \<noteq> of_char (CHR ''+'')" using d by simp_all
  then show ?thesis by metis
qed

lemma nat_digits_not_Nil [simp]: "nat_digits n \<noteq> []"
  by (subst nat_digits.simps) simp

lemma nat_digits_set: "c \<in> set (nat_digits n) \<Longrightarrow> \<exists>d<10. c = digit_char d"
proof (induction n rule: nat_digits.induct)
  case (1 n)
  show ?case
  proof (cases "n < 10")
    case True
    with 1 show ?thesis by (auto simp: nat_digits.simps [of n])
  next
    case False
    with "1.prems" have "c \<in> set (nat_digits (n div 10)) \<or> c = digit_char (n mod 10)"
      by (auto simp: nat_digits.simps [of n])
    moreover have "n mod 10 < 10" by simp
    ultimately show ?thesis using "1.IH" [OF False] by blast
  qed
qed

lemma parse_uint_append:
  "parse_uint a (s @ t) = (case parse_uint a s of Inl e \<Rightarrow> Inl e | Inr b \<Rightarrow> parse_uint b t)"
  by (induction s arbitrary: a) (auto split: option.splits)

lemma parse_uint_nat_digits: "n < 2 ^ 64 \<Longrightarrow> parse_uint 0 (nat_digits n) = Inr n"
proof (induction n rule: nat_digits.induct)
  case (1 n)
  show ?case
  proof (cases "n < 10")
    case True
    then show ?thesis by (simp add: nat_digits.simps [of n])
  next
    case False
    have "n div 10 < 2 ^ 64" using "1.prems" by simp
    with False 1 have IH: "parse_uint 0 (nat_digits (n div 10)) = Inr (n div 10)" by blast
    have "n div 10 * 10 + n mod 10 = n" by presburger
    with False IH "1.prems" show ?thesis
      by (simp add: nat_digits.simps [of n] parse_uint_append)
  qed
qed

lemma parse_int_format_int [codec_simps]:
  assumes "is_i64 n"
  shows "parse_int (format_int n) = (n, None)"
proof (cases "n < 0")
  case True
  from assms have b: "nat (- n) \<le> 2 ^ 63" by (simp add: is_i64_def nat_le_iff)
  then have "nat (- n) < 2 ^ 64" by simp
  then have "parse_uint 0 (nat_digits (nat (- n))) = Inr (nat (- n))"
    by (rule parse_uint_nat_digits)
  with True b show ?thesis
    by (simp add: parse_int_def format_int_def parse_magnitude_def)
next
  case False
  from assms False have b: "nat n < 2 ^ 63" by (auto simp: is_i64_def nat_less_iff)
  then have "nat n < 2 ^ 64" by simp
  then have p: "parse_uint 0 (nat_digits (nat n)) = Inr (nat n)"
    by (rule parse_uint_nat_digits)
  obtain c r where c: "nat_digits (nat n) = c # r" by (cases "nat_digits (nat n)") auto
  then have "c \<in> set (nat_digits (nat n))" by simp
  then obtain d where "d < 10" "c = digit_char d" using nat_digits_set by blast
  then have "c \<noteq> CHR ''-'' \<and> c \<noteq> CHR ''+''" using digit_char_neq_sign by simp
  with False b p c show ?thesis
    by (simp add: parse_int_def format_int_def parse_magnitude_def)
qed

lemma parse_int_ok_format_int [codec_simps]: "is_i64 n \<Longrightarrow> parse_int_ok (format_int n) = Some n"
  by (simp add: parse_int_ok_def codec_simps)

lemma parse_int_is_i64: "is_i64 (fst (parse_int s))"
  by (auto simp: parse_int_def parse_magnitude_def is_i64_def
      split: list.splits sum.splits num_err.splits)

lemma format_int_not_Nil [simp]: "format_int n \<noteq> []"
  by (simp add: format_int_def)

end
