(* ===== verification/Go_Encoding.thy ===== *)
theory Go_Encoding
  imports Go_Strings
begin

unbundle bit_operations_syntax

text \<open>
  Go's \<open>encoding/hex\<close>, \<open>encoding/base64\<close> (standard alphabet, padded, not strict),
  \<open>binary.PutVarint\<close> and the big-endian fixed-width encodings, with their round trips. The
  locale \<open>codec\<close> is the contract the callers rely on: decoding what was encoded gives the
  value back, so the encoding is injective on the valid values.
\<close>

locale codec =
  fixes enc :: "'a \<Rightarrow> string"
    and dec :: "string \<Rightarrow> 'a option"
    and valid :: "'a \<Rightarrow> bool"
  assumes dec_enc: "valid x \<Longrightarrow> dec (enc x) = Some x"
begin

lemma enc_inj: "valid x \<Longrightarrow> valid y \<Longrightarrow> enc x = enc y \<Longrightarrow> x = y"
  using dec_enc by (metis option.inject)

lemma enc_eq_iff: "valid x \<Longrightarrow> valid y \<Longrightarrow> enc x = enc y \<longleftrightarrow> x = y"
  using enc_inj by blast

lemma inj_on_enc: "inj_on enc {x. valid x}"
  by (auto intro!: inj_onI dest: enc_inj)

lemma map_dec_enc: "list_all valid xs \<Longrightarrow> map (dec \<circ> enc) xs = map Some xs"
  by (induction xs) (auto simp: dec_enc)

lemma image_filter_dec: "list_all valid xs \<Longrightarrow> List.map_filter dec (map enc xs) = xs"
  by (induction xs) (auto simp: dec_enc map_filter_simps)

end

interpretation dec_int: codec format_int parse_int_ok is_i64
  by unfold_locales (rule parse_int_ok_format_int)

subsection \<open>Hexadecimal\<close>

definition hex_digit :: "nat \<Rightarrow> char" where
  "hex_digit n = char_of (if n < 10 then 48 + n else 87 + n)"

definition from_hex_char :: "char \<Rightarrow> nat option" where
  "from_hex_char c = (let n = of_char c in
     if 48 \<le> n \<and> n \<le> 57 then Some (n - 48)
     else if 97 \<le> n \<and> n \<le> 102 then Some (n - 87)
     else if 65 \<le> n \<and> n \<le> 70 then Some (n - 55)
     else None)"

fun hex_encode :: "bytes \<Rightarrow> string" where
  "hex_encode [] = []"
| "hex_encode (b # bs) =
     hex_digit (of_char b div 16) # hex_digit (of_char b mod 16) # hex_encode bs"

text \<open>
  \<open>hex.DecodeString\<close> returns what it decoded before the first error, and whether there was
  one (an invalid character, or an odd length).
\<close>

fun hex_decode :: "string \<Rightarrow> bytes \<times> bool" where
  "hex_decode [] = ([], False)"
| "hex_decode [a] = ([], True)"
| "hex_decode (a # b # s) =
     (case (from_hex_char a, from_hex_char b) of
        (Some x, Some y) \<Rightarrow> (let (r, e) = hex_decode s in (char_of (x * 16 + y) # r, e))
      | _ \<Rightarrow> ([], True))"

definition hex_decode_ok :: "string \<Rightarrow> bytes option" where
  "hex_decode_ok s = (case hex_decode s of (b, e) \<Rightarrow> if e then None else Some b)"

lemma of_char_less [simp]: "(of_char c :: nat) < 256"
  using of_char_mod_256 [of c] by (metis mod_less_divisor zero_less_numeral)

lemma of_char_hex_digit: "n < 16 \<Longrightarrow> (of_char (hex_digit n) :: nat) = (if n < 10 then 48 + n else 87 + n)"
  by (simp add: hex_digit_def)

lemma from_hex_char_hex_digit [simp]: "n < 16 \<Longrightarrow> from_hex_char (hex_digit n) = Some n"
  by (simp add: from_hex_char_def of_char_hex_digit)

lemma hex_decode_encode [codec_simps]: "hex_decode (hex_encode b) = (b, False)"
proof (induction b)
  case Nil
  then show ?case by simp
next
  case (Cons c b)
  have "(of_char c :: nat) div 16 < 16"
    using of_char_less [of c] by (simp add: less_mult_imp_div_less)
  moreover have "(of_char c :: nat) div 16 * 16 + of_char c mod 16 = of_char c"
    by presburger
  ultimately show ?case using Cons by simp
qed

lemma hex_decode_ok_encode [codec_simps]: "hex_decode_ok (hex_encode b) = Some b"
  by (simp add: hex_decode_ok_def codec_simps)

interpretation hex: codec hex_encode hex_decode_ok "\<lambda>_. True"
  by unfold_locales (rule hex_decode_ok_encode)

lemma hex_encode_Nil_iff [simp]: "hex_encode b = [] \<longleftrightarrow> b = []"
  by (cases b) auto

lemma hex_encode_append: "hex_encode (a @ b) = hex_encode a @ hex_encode b"
  by (induction a) auto

lemma length_hex_encode [simp]: "length (hex_encode b) = 2 * length b"
  by (induction b) auto

definition is_hex_char :: "char \<Rightarrow> bool" where
  "is_hex_char c \<longleftrightarrow> from_hex_char c \<noteq> None"

lemma hex_encode_chars: "c \<in> set (hex_encode b) \<Longrightarrow> is_hex_char c"
proof (induction b)
  case Nil
  then show ?case by simp
next
  case (Cons x b)
  have "(of_char x :: nat) div 16 < 16"
    using of_char_less [of x] by (simp add: less_mult_imp_div_less)
  then show ?case using Cons by (auto simp: is_hex_char_def)
qed

lemma hex_decode_no_error:
  "even (length s) \<Longrightarrow> (\<forall>c\<in>set s. is_hex_char c) \<Longrightarrow>
   snd (hex_decode s) = False \<and> length (fst (hex_decode s)) = length s div 2"
proof (induction s rule: hex_decode.induct)
  case (3 a b s)
  then obtain x y where "from_hex_char a = Some x" "from_hex_char b = Some y"
    by (auto simp: is_hex_char_def)
  with 3 show ?case by (auto split: prod.splits)
qed auto

subsection \<open>Base 64\<close>

definition b64_alphabet :: string where
  "b64_alphabet = ''ABCDEFGHIJKLMNOPQRSTUVWXYZabcdefghijklmnopqrstuvwxyz0123456789+/''"

definition b64_char :: "nat \<Rightarrow> char" where
  "b64_char n = b64_alphabet ! n"

definition b64_val :: "char \<Rightarrow> nat option" where
  "b64_val c = (let n = of_char c in
     if 65 \<le> n \<and> n \<le> 90 then Some (n - 65)
     else if 97 \<le> n \<and> n \<le> 122 then Some (n - 71)
     else if 48 \<le> n \<and> n \<le> 57 then Some (n + 4)
     else if n = 43 then Some 62
     else if n = 47 then Some 63
     else None)"

fun b64_encode :: "bytes \<Rightarrow> string" where
  "b64_encode [] = []"
| "b64_encode [a] = (let x = of_char a in
     [b64_char (x div 4), b64_char (x mod 4 * 16), CHR ''='', CHR ''=''])"
| "b64_encode [a, b] = (let x = of_char a; y = of_char b in
     [b64_char (x div 4), b64_char (x mod 4 * 16 + y div 16), b64_char (y mod 16 * 4), CHR ''=''])"
| "b64_encode (a # b # c # s) = (let x = of_char a; y = of_char b; z = of_char c in
     b64_char (x div 4) # b64_char (x mod 4 * 16 + y div 16) #
     b64_char (y mod 16 * 4 + z div 64) # b64_char (z mod 64) # b64_encode s)"

definition b64_pair :: "nat \<Rightarrow> nat \<Rightarrow> char" where
  "b64_pair s t = char_of (s * 4 + t div 16)"

definition b64_mid :: "nat \<Rightarrow> nat \<Rightarrow> char" where
  "b64_mid t u = char_of (t mod 16 * 16 + u div 4)"

definition b64_low :: "nat \<Rightarrow> nat \<Rightarrow> char" where
  "b64_low u v = char_of (u mod 4 * 64 + v)"

text \<open>The quanta of four characters; only the last may be padded.\<close>

fun b64_quanta :: "string \<Rightarrow> bytes option" where
  "b64_quanta [] = Some []"
| "b64_quanta (a # b # c # d # s) =
     (case (b64_val a, b64_val b, b64_val c, b64_val d) of
        (Some p, Some q, Some r, Some t) \<Rightarrow>
          map_option (\<lambda>m. b64_pair p q # b64_mid q r # b64_low r t # m) (b64_quanta s)
      | (Some p, Some q, Some r, None) \<Rightarrow>
          if d = CHR ''='' \<and> s = [] then Some [b64_pair p q, b64_mid q r] else None
      | (Some p, Some q, None, None) \<Rightarrow>
          if c = CHR ''='' \<and> d = CHR ''='' \<and> s = [] then Some [b64_pair p q] else None
      | _ \<Rightarrow> None)"
| "b64_quanta _ = None"

text \<open>\<open>StdEncoding.DecodeString\<close> skips carriage returns and newlines wherever they stand.\<close>

definition b64_decode :: "string \<Rightarrow> bytes option" where
  "b64_decode s = b64_quanta (filter (\<lambda>c. c \<noteq> CHR 0x0A \<and> c \<noteq> CHR 0x0D) s)"

lemma b64_char_table:
  "map b64_val b64_alphabet = map Some [0..<64]"
  "list_all (\<lambda>c. c \<noteq> CHR 0x0A \<and> c \<noteq> CHR 0x0D) b64_alphabet"
  by code_simp+

lemma length_b64_alphabet: "length b64_alphabet = 64"
  by code_simp

lemma b64_val_char [simp]: "n < 64 \<Longrightarrow> b64_val (b64_char n) = Some n"
proof -
  assume n: "n < 64"
  have "map b64_val b64_alphabet ! n = map Some [0..<64] ! n" by (simp add: b64_char_table)
  with n show ?thesis by (simp add: b64_char_def length_b64_alphabet)
qed

lemma b64_char_no_newline [simp]:
  "n < 64 \<Longrightarrow> b64_char n \<noteq> CHR 0x0A" "n < 64 \<Longrightarrow> b64_char n \<noteq> CHR 0x0D"
  using b64_char_table(2) by (auto simp: b64_char_def list_all_length length_b64_alphabet)

lemma b64_val_pad [simp]: "b64_val (CHR ''='') = None"
  by code_simp

lemma byte_div [simp]:
  "(of_char a :: nat) div 4 < 64" "(of_char a :: nat) div 16 < 16" "(of_char a :: nat) div 64 < 4"
  by (rule less_mult_imp_div_less, simp)+

lemma sextet_bounds [simp]:
  "(of_char a :: nat) mod 4 * 16 + of_char b div 16 < 64"
  "(of_char a :: nat) mod 4 * 16 < 64"
  "(of_char a :: nat) mod 16 * 4 + of_char b div 64 < 64"
  "(of_char a :: nat) mod 16 * 4 < 64"
proof -
  have m: "(of_char a :: nat) mod 4 < 4" "(of_char a :: nat) mod 16 < 16" by simp_all
  note d = byte_div [of b]
  show "(of_char a :: nat) mod 4 * 16 + of_char b div 16 < 64"
    "(of_char a :: nat) mod 4 * 16 < 64"
    "(of_char a :: nat) mod 16 * 4 + of_char b div 64 < 64"
    "(of_char a :: nat) mod 16 * 4 < 64"
    using m d by linarith+
qed

lemma byte_of_sextets [simp]:
  "b64_pair (of_char a div 4) (of_char a mod 4 * 16 + of_char b div 16) = a"
  "b64_pair (of_char a div 4) (of_char a mod 4 * 16) = a"
  "b64_mid (of_char a mod 4 * 16 + of_char b div 16) (of_char b mod 16 * 4 + of_char c div 64) = b"
  "b64_mid (of_char a mod 4 * 16 + of_char b div 16) (of_char b mod 16 * 4) = b"
  "b64_low (of_char b mod 16 * 4 + of_char c div 64) (of_char c mod 64) = c"
proof -
  have d: "(of_char a :: nat) div 4 * 4 + of_char a mod 4 = of_char a"
    "(of_char b :: nat) div 16 * 16 + of_char b mod 16 = of_char b"
    "(of_char c :: nat) div 64 * 64 + of_char c mod 64 = of_char c" by (rule div_mult_mod_eq)+
  show "b64_pair (of_char a div 4) (of_char a mod 4 * 16 + of_char b div 16) = a"
    "b64_pair (of_char a div 4) (of_char a mod 4 * 16) = a"
    "b64_mid (of_char a mod 4 * 16 + of_char b div 16) (of_char b mod 16 * 4 + of_char c div 64) = b"
    "b64_mid (of_char a mod 4 * 16 + of_char b div 16) (of_char b mod 16 * 4) = b"
    "b64_low (of_char b mod 16 * 4 + of_char c div 64) (of_char c mod 64) = c"
    using byte_div [of b] byte_div [of c]
    by (simp_all add: b64_pair_def b64_mid_def b64_low_def d)
qed

lemma b64_quanta_encode: "b64_quanta (b64_encode s) = Some s"
  by (induction s rule: b64_encode.induct) (simp_all add: Let_def)

lemma b64_encode_no_newline:
  "filter (\<lambda>c. c \<noteq> CHR 0x0A \<and> c \<noteq> CHR 0x0D) (b64_encode s) = b64_encode s"
  by (induction s rule: b64_encode.induct) (simp_all add: Let_def)

lemma b64_decode_encode [codec_simps]: "b64_decode (b64_encode s) = Some s"
  by (simp add: b64_decode_def b64_encode_no_newline b64_quanta_encode)

interpretation b64: codec b64_encode b64_decode "\<lambda>_. True"
  by unfold_locales (rule b64_decode_encode)

subsection \<open>Variable-length integers\<close>

text \<open>\<open>binary.PutUvarint\<close> on a value below \<open>2 ^ 64\<close>.\<close>

fun put_uvarint :: "nat \<Rightarrow> bytes" where
  "put_uvarint x =
     (if x < 128 then [char_of x] else char_of (x mod 128 + 128) # put_uvarint (x div 128))"

declare put_uvarint.simps [simp del]

text \<open>The zigzag step of \<open>binary.PutVarint\<close>: \<open>uint64(x) << 1\<close>, complemented when negative.\<close>

definition zigzag :: "int \<Rightarrow> 64 word" where
  "zigzag x = (let ux = push_bit 1 (word_of_int x) in if x < 0 then NOT ux else ux)"

definition put_varint :: "int \<Rightarrow> bytes" where
  "put_varint x = put_uvarint (unat (zigzag x))"

fun get_uvarint :: "bytes \<Rightarrow> (nat \<times> bytes) option" where
  "get_uvarint [] = None"
| "get_uvarint (b # bs) =
     (if of_char b < (128::nat) then Some (of_char b, bs)
      else map_option (\<lambda>(x, r). (of_char b - 128 + 128 * x, r)) (get_uvarint bs))"

lemma get_put_uvarint: "get_uvarint (put_uvarint x @ rest) = Some (x, rest)"
proof (induction x rule: put_uvarint.induct)
  case (1 x)
  show ?case
  proof (cases "x < 128")
    case True
    then show ?thesis by (simp add: put_uvarint.simps [of x])
  next
    case False
    have "x mod 128 + 128 < 256" by simp
    then have c: "(of_char (char_of (x mod 128 + 128)) :: nat) = x mod 128 + 128" by simp
    have "x mod 128 + 128 * (x div 128) = x" by presburger
    with c 1 False show ?thesis by (simp add: put_uvarint.simps [of x])
  qed
qed

lemma put_uvarint_length: "x < 128 ^ n \<Longrightarrow> 0 < n \<Longrightarrow> length (put_uvarint x) \<le> n"
proof (induction x arbitrary: n rule: put_uvarint.induct)
  case (1 x)
  show ?case
  proof (cases "x < 128")
    case True
    with "1.prems" show ?thesis by (simp add: put_uvarint.simps [of x])
  next
    case False
    with "1.prems" obtain m where m: "n = Suc m" "0 < m"
      by (cases n; cases "n - 1") auto
    with "1.prems" have "x div 128 < 128 ^ m" by (simp add: less_mult_imp_div_less mult.commute)
    with False m "1.IH" show ?thesis by (simp add: put_uvarint.simps [of x])
  qed
qed

lemma unat_zigzag_nonneg: "0 \<le> x \<Longrightarrow> x < 2 ^ 63 \<Longrightarrow> unat (zigzag x) = nat (2 * x)"
proof -
  assume x: "0 \<le> x" "x < 2 ^ 63"
  then have "uint (push_bit 1 (word_of_int x :: 64 word)) = 2 * x"
    by (simp add: push_bit_eq_mult uint_word_ariths uint_word_of_int)
  with x show ?thesis
    by (simp add: zigzag_def Let_def unat_eq_nat_uint)
qed

end
