(* ===== verification/Go_Json.thy ===== *)
theory Go_Json
  imports Go_Encoding
begin

text \<open>
  Go's \<open>encoding/json\<close>, as far as the code uses it: \<open>json.Marshal\<close> of structs of strings,
  integers, booleans, slices and structs, and \<open>json.Unmarshal\<close> into such a struct.

  \<^item> \<open>json_print\<close> is the compact output of \<open>Marshal\<close>, with its escapes: the quote and the
    backslash, newline, carriage return and tab, \<open>\u00XX\<close> for the other control characters and
    for the HTML characters, U+2028 and U+2029, and the replacement character for bytes that are
    not UTF-8.
  \<^item> \<open>json_parse\<close> is the syntax check and decoding of a whole input. Its recursion carries a
    fuel of twice the length of the input plus two: a level of nesting uses two units and reads
    a bracket.
  \<^item> Decoding into a struct keeps going after a type mismatch and reports that there was one;
    \<open>null\<close> changes nothing; a key that names no field is skipped; an exact field name wins over
    one equal up to ASCII case. (Go also folds the Kelvin sign and the long s; not modelled.)

  Main result: what is printed parses, \<open>json_parse (json_print j) = Some (fix_json j)\<close>, whatever
  its texts, where \<open>fix_json\<close> puts the replacement character for the bytes that are not UTF-8; so
  a value whose texts are ASCII is read back as it was. The locale \<open>json_codec\<close> is the contract of
  a struct with its encoder and decoder.
\<close>

subsection \<open>Values and UTF-8\<close>

datatype json =
    JNull
  | JBool bool
  | JNum string
  | JStr string
  | JArr "json list"
  | JObj "(string \<times> json) list"

abbreviation code_of :: "char \<Rightarrow> nat" where
  "code_of c \<equiv> of_char c"

definition byte_in :: "nat \<Rightarrow> nat \<Rightarrow> char \<Rightarrow> bool" where
  "byte_in lo hi c \<longleftrightarrow> lo \<le> code_of c \<and> code_of c \<le> hi"

text \<open>The length of the well-formed UTF-8 sequence at the head, 0 if there is none.\<close>

fun rune_len :: "string \<Rightarrow> nat" where
  "rune_len [] = 0"
| "rune_len (a # s) =
     (let n = code_of a; cont = byte_in 128 191 in
      if n < 128 then 1
      else if 194 \<le> n \<and> n \<le> 223 then
        (case s of b # _ \<Rightarrow> if cont b then 2 else 0 | _ \<Rightarrow> 0)
      else if 224 \<le> n \<and> n \<le> 239 then
        (case s of b # c # _ \<Rightarrow>
           if byte_in (if n = 224 then 160 else 128) (if n = 237 then 159 else 191) b \<and> cont c
           then 3 else 0
         | _ \<Rightarrow> 0)
      else if 240 \<le> n \<and> n \<le> 244 then
        (case s of b # c # d # _ \<Rightarrow>
           if byte_in (if n = 240 then 144 else 128) (if n = 244 then 143 else 191) b \<and> cont c \<and> cont d
           then 4 else 0
         | _ \<Rightarrow> 0)
      else 0)"

definition utf8_encode :: "nat \<Rightarrow> string" where
  "utf8_encode r =
     (if r < 128 then [char_of r]
      else if r < 2048 then [char_of (192 + r div 64), char_of (128 + r mod 64)]
      else if r < 65536 then
        [char_of (224 + r div 4096), char_of (128 + r div 64 mod 64), char_of (128 + r mod 64)]
      else [char_of (240 + r div 262144), char_of (128 + r div 4096 mod 64),
            char_of (128 + r div 64 mod 64), char_of (128 + r mod 64)])"

definition replacement :: string where
  "replacement = utf8_encode 65533"

definition ascii :: "string \<Rightarrow> bool" where
  "ascii s \<longleftrightarrow> list_all (\<lambda>c. code_of c < 128) s"

lemma ascii_simps [simp]:
  "ascii []" "ascii (c # s) \<longleftrightarrow> code_of c < 128 \<and> ascii s" "ascii (s @ t) \<longleftrightarrow> ascii s \<and> ascii t"
  by (simp_all add: ascii_def)

subsection \<open>Printing\<close>

abbreviation bslash :: char where "bslash \<equiv> CHR 0x5C"
abbreviation dquote :: char where "dquote \<equiv> CHR 0x22"

definition escape_ascii :: "char \<Rightarrow> string" where
  "escape_ascii c =
     (if c = dquote \<or> c = bslash then [bslash, c]
      else if c = CHR 0x0A then [bslash, CHR ''n'']
      else if c = CHR 0x0D then [bslash, CHR ''r'']
      else if c = CHR 0x09 then [bslash, CHR ''t'']
      else if code_of c < 32 \<or> c = CHR ''<'' \<or> c = CHR ''>'' \<or> c = CHR ''&'' then
        [bslash, CHR ''u'', CHR ''0'', CHR ''0'', hex_digit (code_of c div 16), hex_digit (code_of c mod 16)]
      else [c])"

function json_escape :: "string \<Rightarrow> string" where
  "json_escape [] = []"
| "json_escape (c # s) =
     (if code_of c < 128 then escape_ascii c @ json_escape s
      else let n = rune_len (c # s) in
        if n = 0 then bslash # ''ufffd'' @ json_escape s
        else if take 3 (c # s) = utf8_encode 8232 then bslash # ''u2028'' @ json_escape (drop 2 s)
        else if take 3 (c # s) = utf8_encode 8233 then bslash # ''u2029'' @ json_escape (drop 2 s)
        else c # take (n - 1) s @ json_escape (drop (n - 1) s))"
  by pat_completeness auto
termination by (relation "measure length") auto

text \<open>The text that is read back: bytes that are not UTF-8 become the replacement character.\<close>

function utf8_fix :: "string \<Rightarrow> string" where
  "utf8_fix [] = []"
| "utf8_fix (c # s) =
     (let n = rune_len (c # s) in
      if n = 0 then replacement @ utf8_fix s else c # take (n - 1) s @ utf8_fix (drop (n - 1) s))"
  by pat_completeness auto
termination by (relation "measure length") auto

definition json_quote :: "string \<Rightarrow> string" where
  "json_quote s = dquote # json_escape s @ [dquote]"

fun json_print :: "json \<Rightarrow> string"
and json_print_list :: "json list \<Rightarrow> string"
and json_print_members :: "(string \<times> json) list \<Rightarrow> string" where
  "json_print JNull = ''null''"
| "json_print (JBool b) = (if b then ''true'' else ''false'')"
| "json_print (JNum l) = l"
| "json_print (JStr s) = json_quote s"
| "json_print (JArr xs) = CHR ''['' # json_print_list xs @ '']''"
| "json_print (JObj ms) = CHR ''{'' # json_print_members ms @ ''}''"
| "json_print_list [] = []"
| "json_print_list (x # xs) =
     json_print x @ (if xs = [] then [] else CHR '','' # json_print_list xs)"
| "json_print_members [] = []"
| "json_print_members ((k, v) # ms) =
     json_quote k @ CHR '':'' # json_print v @
     (if ms = [] then [] else CHR '','' # json_print_members ms)"

subsection \<open>Parsing\<close>

definition is_ws :: "char \<Rightarrow> bool" where
  "is_ws c \<longleftrightarrow> c = CHR '' '' \<or> c = CHR 0x09 \<or> c = CHR 0x0A \<or> c = CHR 0x0D"

definition skip_ws :: "string \<Rightarrow> string" where
  "skip_ws s = dropWhile is_ws s"

text \<open>The four hexadecimal digits of a \<open>\u\<close> escape.\<close>

fun parse_u4 :: "string \<Rightarrow> (nat \<times> string) option" where
  "parse_u4 (a # b # c # d # s) =
     (case (from_hex_char a, from_hex_char b, from_hex_char c, from_hex_char d) of
        (Some p, Some q, Some r, Some t) \<Rightarrow> Some (((p * 16 + q) * 16 + r) * 16 + t, s)
      | _ \<Rightarrow> None)"
| "parse_u4 _ = None"

text \<open>The rune of an escape whose first unit is \<open>r\<close>, and the input after it.\<close>

definition escape_rune :: "nat \<Rightarrow> string \<Rightarrow> nat \<times> string" where
  "escape_rune r s =
     (if 55296 \<le> r \<and> r < 57344 then
        (case s of
           a # b # t \<Rightarrow>
             (if a = bslash \<and> b = CHR ''u'' then
                (case parse_u4 t of
                   Some (r2, u) \<Rightarrow>
                     if r < 56320 \<and> 56320 \<le> r2 \<and> r2 < 57344
                     then ((r - 55296) * 1024 + (r2 - 56320) + 65536, u) else (65533, s)
                 | None \<Rightarrow> (65533, s))
              else (65533, s))
         | _ \<Rightarrow> (65533, s))
      else (r, s))"

definition simple_escape :: "char \<Rightarrow> char option" where
  "simple_escape e =
     (if e = dquote \<or> e = bslash \<or> e = CHR ''/'' then Some e
      else if e = CHR ''b'' then Some (CHR 0x08)
      else if e = CHR ''f'' then Some (CHR 0x0C)
      else if e = CHR ''n'' then Some (CHR 0x0A)
      else if e = CHR ''r'' then Some (CHR 0x0D)
      else if e = CHR ''t'' then Some (CHR 0x09)
      else None)"

lemma parse_u4_length: "parse_u4 s = Some (r, t) \<Longrightarrow> length t < length s"
  by (induction s rule: parse_u4.induct) (auto split: option.splits)

lemma escape_rune_length: "length (snd (escape_rune r s)) \<le> length s"
  by (auto simp: escape_rune_def split: list.splits option.splits dest: parse_u4_length)

text \<open>A string after its opening quote: its value and the input after the closing quote.\<close>

function parse_str :: "string \<Rightarrow> (string \<times> string) option" where
  "parse_str [] = None"
| "parse_str (c # s) =
     (if c = dquote then Some ([], s)
      else if c = bslash then
        (case s of
           [] \<Rightarrow> None
         | e # t \<Rightarrow>
             (if e = CHR ''u'' then
                (case parse_u4 t of
                   None \<Rightarrow> None
                 | Some (r, u) \<Rightarrow>
                     map_option (\<lambda>(v, w). (utf8_encode (fst (escape_rune r u)) @ v, w))
                       (parse_str (snd (escape_rune r u))))
              else (case simple_escape e of
                  None \<Rightarrow> None
                | Some x \<Rightarrow> map_option (\<lambda>(v, w). (x # v, w)) (parse_str t))))
      else if code_of c < 32 then None
      else if code_of c < 128 then map_option (\<lambda>(v, w). (c # v, w)) (parse_str s)
      else let n = rune_len (c # s) in
        if n = 0 then map_option (\<lambda>(v, w). (replacement @ v, w)) (parse_str s)
        else map_option (\<lambda>(v, w). (c # take (n - 1) s @ v, w)) (parse_str (drop (n - 1) s)))"
  by pat_completeness auto
termination
  by (relation "measure length")
     (auto dest!: parse_u4_length intro: le_less_trans [OF escape_rune_length])

definition is_digit :: "char \<Rightarrow> bool" where
  "is_digit c \<longleftrightarrow> digit_val c \<noteq> None"

definition parse_frac :: "string \<Rightarrow> (string \<times> string) option" where
  "parse_frac s =
     (case s of
        c # t \<Rightarrow>
          (if c = CHR ''.'' then
             (if takeWhile is_digit t = [] then None
              else Some (c # takeWhile is_digit t, dropWhile is_digit t))
           else Some ([], s))
      | [] \<Rightarrow> Some ([], []))"

definition parse_exp :: "string \<Rightarrow> (string \<times> string) option" where
  "parse_exp s =
     (case s of
        c # t \<Rightarrow>
          (if c = CHR ''e'' \<or> c = CHR ''E'' then
             (let (sg, u) = (case t of
                  d # v \<Rightarrow> if d = CHR ''+'' \<or> d = CHR ''-'' then ([d], v) else ([], t)
                | [] \<Rightarrow> ([], []))
              in if takeWhile is_digit u = [] then None
                 else Some (c # sg @ takeWhile is_digit u, dropWhile is_digit u))
           else Some ([], s))
      | [] \<Rightarrow> Some ([], []))"

definition parse_digits :: "string \<Rightarrow> (string \<times> string) option" where
  "parse_digits s =
     (case s of
        [] \<Rightarrow> None
      | c # t \<Rightarrow>
          if c = CHR ''0'' then Some (''0'', t)
          else if is_digit c then Some (takeWhile is_digit s, dropWhile is_digit s)
          else None)"

definition parse_number :: "string \<Rightarrow> (string \<times> string) option" where
  "parse_number s =
     (let (sg, s1) = (case s of c # t \<Rightarrow> if c = CHR ''-'' then ([c], t) else ([], s) | [] \<Rightarrow> ([], []))
      in case parse_digits s1 of
           None \<Rightarrow> None
         | Some (ds, s2) \<Rightarrow>
             (case parse_frac s2 of
                None \<Rightarrow> None
              | Some (fr, s3) \<Rightarrow>
                  (case parse_exp s3 of
                     None \<Rightarrow> None
                   | Some (ex, s4) \<Rightarrow> Some (sg @ ds @ fr @ ex, s4))))"

fun parse_value :: "nat \<Rightarrow> string \<Rightarrow> (json \<times> string) option"
and parse_elems :: "nat \<Rightarrow> string \<Rightarrow> (json list \<times> string) option"
and parse_members :: "nat \<Rightarrow> string \<Rightarrow> ((string \<times> json) list \<times> string) option" where
  "parse_value 0 s = None"
| "parse_value (Suc n) s =
     (case skip_ws s of
        [] \<Rightarrow> None
      | c # r \<Rightarrow>
          if c = CHR ''{'' then
            (if take 1 (skip_ws r) = ''}'' then Some (JObj [], drop 1 (skip_ws r))
             else map_option (\<lambda>(ms, t). (JObj ms, t)) (parse_members n r))
          else if c = CHR ''['' then
            (if take 1 (skip_ws r) = '']'' then Some (JArr [], drop 1 (skip_ws r))
             else map_option (\<lambda>(xs, t). (JArr xs, t)) (parse_elems n r))
          else if c = dquote then map_option (\<lambda>(v, t). (JStr v, t)) (parse_str r)
          else if has_prefix (c # r) ''true'' then Some (JBool True, drop 3 r)
          else if has_prefix (c # r) ''false'' then Some (JBool False, drop 4 r)
          else if has_prefix (c # r) ''null'' then Some (JNull, drop 3 r)
          else map_option (\<lambda>(l, t). (JNum l, t)) (parse_number (c # r)))"
| "parse_elems 0 s = None"
| "parse_elems (Suc n) s =
     (case parse_value n s of
        None \<Rightarrow> None
      | Some (v, r) \<Rightarrow>
          (case skip_ws r of
             [] \<Rightarrow> None
           | c # t \<Rightarrow>
               if c = CHR '','' then map_option (\<lambda>(vs, u). (v # vs, u)) (parse_elems n t)
               else if c = CHR '']'' then Some ([v], t)
               else None))"
| "parse_members 0 s = None"
| "parse_members (Suc n) s =
     (case skip_ws s of
        [] \<Rightarrow> None
      | q # s1 \<Rightarrow>
          if q \<noteq> dquote then None
          else (case parse_str s1 of
              None \<Rightarrow> None
            | Some (k, s2) \<Rightarrow>
                (case skip_ws s2 of
                   [] \<Rightarrow> None
                 | c # s3 \<Rightarrow>
                     if c \<noteq> CHR '':'' then None
                     else (case parse_value n s3 of
                         None \<Rightarrow> None
                       | Some (v, s4) \<Rightarrow>
                           (case skip_ws s4 of
                              [] \<Rightarrow> None
                            | d # s5 \<Rightarrow>
                                if d = CHR '','' then
                                  map_option (\<lambda>(ms, u). ((k, v) # ms, u)) (parse_members n s5)
                                else if d = CHR ''}'' then Some ([(k, v)], s5)
                                else None)))))"

definition json_parse :: "string \<Rightarrow> json option" where
  "json_parse s =
     (case parse_value (2 * length s + 2) s of
        None \<Rightarrow> None
      | Some (j, r) \<Rightarrow> if skip_ws r = [] then Some j else None)"

subsection \<open>Printed values parse back\<close>

text \<open>A JSON number: the text that the parser takes for one.\<close>

definition json_num :: "string \<Rightarrow> bool" where
  "json_num l \<longleftrightarrow> parse_number l = Some (l, [])"

text \<open>Values whose numbers are numbers; \<open>json_wf\<close> asks besides that the texts are ASCII.\<close>

fun json_nums :: "json \<Rightarrow> bool" where
  "json_nums (JNum l) \<longleftrightarrow> json_num l"
| "json_nums (JArr xs) \<longleftrightarrow> list_all json_nums xs"
| "json_nums (JObj ms) \<longleftrightarrow> list_all (\<lambda>(k, v). json_nums v) ms"
| "json_nums _ \<longleftrightarrow> True"

fun fix_json :: "json \<Rightarrow> json" where
  "fix_json (JStr s) = JStr (utf8_fix s)"
| "fix_json (JArr xs) = JArr (map fix_json xs)"
| "fix_json (JObj ms) = JObj (map (\<lambda>(k, v). (utf8_fix k, fix_json v)) ms)"
| "fix_json j = j"

fun json_wf :: "json \<Rightarrow> bool" where
  "json_wf (JNum l) \<longleftrightarrow> json_num l"
| "json_wf (JStr s) \<longleftrightarrow> ascii s"
| "json_wf (JArr xs) \<longleftrightarrow> list_all json_wf xs"
| "json_wf (JObj ms) \<longleftrightarrow> list_all (\<lambda>(k, v). ascii k \<and> json_wf v) ms"
| "json_wf _ \<longleftrightarrow> True"

fun json_size :: "json \<Rightarrow> nat"
and json_size_list :: "json list \<Rightarrow> nat"
and json_size_members :: "(string \<times> json) list \<Rightarrow> nat" where
  "json_size (JArr xs) = Suc (json_size_list xs)"
| "json_size (JObj ms) = Suc (json_size_members ms)"
| "json_size _ = 1"
| "json_size_list [] = 0"
| "json_size_list (x # xs) = Suc (json_size x + json_size_list xs)"
| "json_size_members [] = 0"
| "json_size_members ((k, v) # ms) = Suc (json_size v + json_size_members ms)"

declare parse_u4.simps [simp del]

lemma char_of_48 [simp]: "char_of (48 :: nat) = CHR ''0''"
  by code_simp

lemma code_div_mod: "code_of c div 16 * 16 + code_of c mod 16 = code_of c"
  by (rule div_mult_mod_eq)

lemma parse_str_escape_ascii:
  assumes "code_of c < 128"
  shows "parse_str (escape_ascii c @ r) = map_option (\<lambda>(v, w). (c # v, w)) (parse_str r)"
proof -
  have h: "code_of c mod 16 < 16" "code_of c div 16 < 16" by simp_all
  have e: "escape_rune (code_of c) r = (code_of c, r)"
    using assms by (simp add: escape_rune_def)
  have u: "utf8_encode (code_of c) = [c]" using assms by (simp add: utf8_encode_def)
  have u4: "parse_u4 (CHR ''0'' # CHR ''0'' # hex_digit (code_of c div 16) #
      hex_digit (code_of c mod 16) # r) = Some (code_of c, r)"
    using h by (simp add: parse_u4.simps code_div_mod from_hex_char_def [of "CHR ''0''"])
  show ?thesis
  proof (cases "c = dquote \<or> c = bslash \<or> c = CHR 0x0A \<or> c = CHR 0x0D \<or> c = CHR 0x09")
    case True
    then show ?thesis by (auto simp: escape_ascii_def simple_escape_def)
  next
    case False
    show ?thesis
    proof (cases "code_of c < 32 \<or> c = CHR ''<'' \<or> c = CHR ''>'' \<or> c = CHR ''&''")
      case True
      with False have "escape_ascii c @ r = bslash # CHR ''u'' # CHR ''0'' # CHR ''0'' #
          hex_digit (code_of c div 16) # hex_digit (code_of c mod 16) # r"
        by (simp add: escape_ascii_def)
      then have "parse_str (escape_ascii c @ r) = parse_str (bslash # CHR ''u'' # CHR ''0'' #
          CHR ''0'' # hex_digit (code_of c div 16) # hex_digit (code_of c mod 16) # r)"
        by (simp only:)
      then show ?thesis by (simp add: u4 e u)
    next
      case C: False
      with False assms show ?thesis by (simp add: escape_ascii_def)
    qed
  qed
qed

lemma json_escape_ascii: "code_of c < 128 \<Longrightarrow> json_escape (c # s) = escape_ascii c @ json_escape s"
  by simp

lemma rune_len_prefix: "rune_len s = n \<Longrightarrow> n \<noteq> 0 \<Longrightarrow> rune_len (take n s @ t) = n"
  by (cases s) (auto simp: Let_def split: if_splits list.splits)

lemma rune_len_le: "rune_len s \<le> length s"
  by (cases s) (auto simp: Let_def split: list.splits)

lemma parse_u4_replacement: "parse_u4 (''fffd'' @ r) = Some (65533, r)"
  by (simp add: parse_u4.simps from_hex_char_def)

lemma parse_u4_separators: "parse_u4 (''2028'' @ r) = Some (8232, r)" "parse_u4 (''2029'' @ r) = Some (8233, r)"
  by (simp_all add: parse_u4.simps from_hex_char_def)

lemma parse_str_u4:
  "parse_u4 t = Some (r, u) \<Longrightarrow> r < 55296 \<or> 57344 \<le> r \<Longrightarrow>
    parse_str (bslash # CHR ''u'' # t) = map_option (\<lambda>(v, w). (utf8_encode r @ v, w)) (parse_str u)"
  by (auto simp: escape_rune_def)

lemma separator_rune:
  assumes "take 3 (c # s) = utf8_encode r" "r = 8232 \<or> r = 8233"
  shows "rune_len (c # s) = 3 \<and> c # take 2 s = utf8_encode r"
proof -
  have "utf8_encode r = [char_of (226 :: nat), char_of (128 :: nat), char_of (r mod 64 + 128)]"
    using assms(2) by (auto simp: utf8_encode_def)
  with assms obtain u where s: "s = char_of (128 :: nat) # char_of (r mod 64 + 128) # u" "c = char_of (226 :: nat)"
    by (cases s; cases "tl s") auto
  have "r mod 64 + 128 \<le> 191" using assms(2) by auto
  with assms(1) s show ?thesis by (auto simp: byte_in_def)
qed

declare json_escape.simps(2) [simp del] utf8_fix.simps(2) [simp del] rune_len.simps(2) [simp del] parse_str.simps(2) [simp del]

lemma parse_str_escape:
  "parse_str (json_escape s @ dquote # rest) = Some (utf8_fix s, rest)"
proof (induction s rule: measure_induct_rule [where f = length])
  case (less s0)
  let ?r = "dquote # rest"
  show ?case
  proof (cases s0)
    case Nil
    then show ?thesis by (simp add: parse_str.simps)
  next
    case (Cons c s)
    have IH: "parse_str (json_escape t @ ?r) = Some (utf8_fix t, rest)" if "length t \<le> length s" for t
      using less.IH [of t] that Cons by simp
    show ?thesis
    proof (cases "code_of c < 128")
      case True
      have "utf8_fix (c # s) = c # utf8_fix s" using True by (simp add: utf8_fix.simps rune_len.simps)
      then show ?thesis
        using parse_str_escape_ascii [OF True, of "json_escape s @ ?r"] Cons True IH [of s] by (simp add: json_escape_ascii)
    next
      case F: False
      define n where "n = rune_len (c # s)"
      have fix_eq: "utf8_fix (c # s) =
          (if n = 0 then replacement @ utf8_fix s else c # take (n - 1) s @ utf8_fix (drop (n - 1) s))"
        by (simp add: utf8_fix.simps Let_def n_def)
      have esc: "json_escape (c # s) = (if n = 0 then bslash # ''ufffd'' @ json_escape s
          else if take 3 (c # s) = utf8_encode 8232 then bslash # ''u2028'' @ json_escape (drop 2 s)
          else if take 3 (c # s) = utf8_encode 8233 then bslash # ''u2029'' @ json_escape (drop 2 s)
          else c # take (n - 1) s @ json_escape (drop (n - 1) s))"
        by (simp only: json_escape.simps Let_def n_def F if_False)
      consider "n = 0" | r where "n \<noteq> 0" "r = 8232 \<or> r = 8233 \<and> take 3 (c # s) \<noteq> utf8_encode 8232" "take 3 (c # s) = utf8_encode r"
        | "n \<noteq> 0" "take 3 (c # s) \<noteq> utf8_encode 8232" "take 3 (c # s) \<noteq> utf8_encode 8233" by blast
      then show ?thesis
      proof cases
        case 1
        with parse_str_u4 [OF parse_u4_replacement, of "json_escape s @ ?r"] IH [of s] show ?thesis
          by (simp add: Cons esc fix_eq replacement_def)
      next
        case (2 r)
        have n: "n = 3" "c # take 2 s = utf8_encode r" using separator_rune [OF 2(3)] 2(2) by (auto simp: n_def)
        have "json_escape (c # s) = bslash # CHR ''u'' # (if r = 8232 then ''2028'' else ''2029'') @ json_escape (drop 2 s)"
          using 2(2)
        proof
          assume "r = 8232"
          with 2 show ?thesis by (simp add: esc)
        next
          assume "r = 8233 \<and> take 3 (c # s) \<noteq> utf8_encode 8232"
          with 2(1,3) show ?thesis by (simp only: esc if_False if_True simp_thms) simp
        qed
        moreover have "parse_u4 ((if r = 8232 then ''2028'' else ''2029'') @ t) = Some (r, t)" for t
          using 2(2) parse_u4_separators by auto
        ultimately show ?thesis
          using parse_str_u4 [of _ r] IH [of "drop 2 s"] 2(2) n by (auto simp: Cons fix_eq)
      next
        case 3
        have le: "n - 1 \<le> length s" using rune_len_le [of "c # s"] by (simp add: n_def)
        have "take n (c # s) = c # take (n - 1) s" using 3 by (cases n) simp_all
        then have "rune_len (c # take (n - 1) s @ t) = n" for t
          using rune_len_prefix [of "c # s" n t] 3 by (simp add: n_def)
        moreover have "c \<noteq> dquote" "c \<noteq> bslash" "\<not> code_of c < 32" using F by auto
        ultimately have "parse_str (c # take (n - 1) s @ t) = map_option (\<lambda>(v, w). (c # take (n - 1) s @ v, w)) (parse_str t)" for t
          using 3 F le by (simp add: parse_str.simps Let_def)
        with 3 IH [of "drop (n - 1) s"] show ?thesis by (simp add: Cons esc fix_eq)
      qed
    qed
  qed
qed

lemma utf8_fix_ascii [simp]: "ascii s \<Longrightarrow> utf8_fix s = s"
  by (induction s) (simp_all add: utf8_fix.simps rune_len.simps)

declare json_escape.simps [simp del] parse_str.simps [simp del]

text \<open>What may follow a value inside a printed document.\<close>

definition json_stop :: "string \<Rightarrow> bool" where
  "json_stop r \<longleftrightarrow> r = [] \<or> hd r = CHR '','' \<or> hd r = CHR '']'' \<or> hd r = CHR ''}''"

lemma is_digit_digit_char [simp]: "d < 10 \<Longrightarrow> is_digit (digit_char d)"
  by (simp add: is_digit_def)

lemma json_stop_not_digit: "json_stop r \<Longrightarrow> r = [] \<or> \<not> is_digit (hd r)"
  by (auto simp: json_stop_def is_digit_def digit_val_def)

lemma hd_nat_digits: "0 < n \<Longrightarrow> hd (nat_digits n) \<noteq> CHR ''0''"
proof (induction n rule: nat_digits.induct)
  case (1 n)
  show ?case
  proof (cases "n < 10")
    case True
    then have "code_of (digit_char n) = 48 + n" by simp
    then have "digit_char n \<noteq> CHR ''0''" using "1.prems" by auto
    with True show ?thesis by (simp add: nat_digits.simps [of n])
  next
    case False
    with 1 have "hd (nat_digits (n div 10)) \<noteq> CHR ''0''" by simp
    with False show ?thesis by (simp add: nat_digits.simps [of n])
  qed
qed

lemma nat_digits_is_digit: "c \<in> set (nat_digits n) \<Longrightarrow> is_digit c"
  using nat_digits_set by fastforce

lemma parse_digits_nat:
  assumes "json_stop r"
  shows "parse_digits (nat_digits n @ r) = Some (nat_digits n, r)"
proof (cases "n = 0")
  case True
  then show ?thesis
    by (simp add: nat_digits.simps [of 0] digit_char_def parse_digits_def)
next
  case False
  obtain c t where c: "nat_digits n = c # t" by (cases "nat_digits n") auto
  with False hd_nat_digits [of n] have "c \<noteq> CHR ''0''" by simp
  moreover have "is_digit c" using c nat_digits_is_digit [of c n] by simp
  moreover have "takeWhile is_digit (nat_digits n @ r) = nat_digits n"
    by (rule takeWhile_append_stop [of "nat_digits n" is_digit r, OF nat_digits_is_digit json_stop_not_digit [OF assms]])
  moreover have "dropWhile is_digit (nat_digits n @ r) = r"
    by (rule dropWhile_append_stop [of "nat_digits n" is_digit r, OF nat_digits_is_digit json_stop_not_digit [OF assms]])
  ultimately show ?thesis using c by (simp add: parse_digits_def)
qed

lemma parse_frac_exp_stop [simp]:
  "json_stop r \<Longrightarrow> parse_frac r = Some ([], r)" "json_stop r \<Longrightarrow> parse_exp r = Some ([], r)"
  by (auto simp: json_stop_def parse_frac_def parse_exp_def split: list.splits)

lemma takeWhile_stop: "json_stop r \<Longrightarrow> takeWhile is_digit (s @ r) = takeWhile is_digit s"
  using json_stop_not_digit [of r] by (cases r) (auto simp: takeWhile_append intro!: sym [OF takeWhile_eq_all_conv [THEN iffD2]])

lemma dropWhile_stop: "json_stop r \<Longrightarrow> dropWhile is_digit (s @ r) = dropWhile is_digit s @ r"
  using json_stop_not_digit [of r] by (cases r) (auto simp: dropWhile_append)

text \<open>What is a number at the end of the input is one in front of what may follow it.\<close>

lemma parse_number_stop:
  assumes "json_num l" "json_stop r"
  shows "parse_number (l @ r) = Some (l, r)"
proof -
  have d: "parse_digits s = Some (v, t) \<Longrightarrow> parse_digits (s @ r) = Some (v, t @ r)" for s v t
    by (cases s) (auto simp: parse_digits_def takeWhile_stop [OF assms(2)] dropWhile_stop [OF assms(2)] split: if_splits)
  have f: "parse_frac s = Some (v, t) \<Longrightarrow> parse_frac (s @ r) = Some (v, t @ r)" for s v t
  proof (cases s)
    case (Cons c u)
    then show "parse_frac s = Some (v, t) \<Longrightarrow> ?thesis"
      by (auto simp: parse_frac_def takeWhile_stop [OF assms(2)] dropWhile_stop [OF assms(2)] split: if_splits)
  qed (use assms(2) in \<open>auto simp: parse_frac_def [of "[]"]\<close>)
  have e: "parse_exp s = Some (v, t) \<Longrightarrow> parse_exp (s @ r) = Some (v, t @ r)" for s v t
  proof (cases s)
    case (Cons c u)
    then show "parse_exp s = Some (v, t) \<Longrightarrow> ?thesis"
      by (cases u) (auto simp: parse_exp_def takeWhile_stop [OF assms(2)] dropWhile_stop [OF assms(2)] split: if_splits)
  qed (use assms(2) in \<open>auto simp: parse_exp_def [of "[]"]\<close>)
  obtain sg s1 where s: "(case l of c # t \<Rightarrow> if c = CHR ''-'' then ([c], t) else ([], l) | [] \<Rightarrow> ([], [])) = (sg, s1)" by force
  obtain ds s2 where ds: "parse_digits s1 = Some (ds, s2)"
    using assms(1) s by (auto simp: json_num_def parse_number_def split: option.splits)
  obtain fr s3 where fr: "parse_frac s2 = Some (fr, s3)"
    using assms(1) s ds by (auto simp: json_num_def parse_number_def split: option.splits)
  obtain ex s4 where ex: "parse_exp s3 = Some (ex, s4)"
    using assms(1) s ds fr by (auto simp: json_num_def parse_number_def split: option.splits)
  have l: "sg @ ds @ fr @ ex = l" "s4 = []"
    using assms(1) s ds fr ex by (auto simp: json_num_def parse_number_def)
  have "l \<noteq> []" using s ds by (auto simp: parse_digits_def)
  then have "(case l @ r of c # t \<Rightarrow> if c = CHR ''-'' then ([c], t) else ([], l @ r) | [] \<Rightarrow> ([], [])) = (sg, s1 @ r)"
    using s by (cases l) (auto split: if_splits)
  then show ?thesis using d [OF ds] f [OF fr] e [OF ex] l by (simp add: parse_number_def)
qed

lemma is_digit_code: "is_digit c \<Longrightarrow> code_of c < 128"
  by (auto simp: is_digit_def digit_val_def Let_def split: if_splits)

lemma ascii_digits: "ascii (takeWhile is_digit s)"
  by (induction s) (auto simp: is_digit_code)

lemma json_num_chars:
  assumes "json_num l"
  shows "ascii l \<and> l \<noteq> [] \<and> (hd l = CHR ''-'' \<or> is_digit (hd l))"
proof -
  have d: "parse_digits s = Some (v, t) \<Longrightarrow> ascii v \<and> (\<exists>c u. v = c # u \<and> is_digit c)" for s v t
  proof (cases s)
    case (Cons c u)
    assume "parse_digits s = Some (v, t)"
    then have "v = [c] \<or> v = c # takeWhile is_digit u" "is_digit c"
      using Cons is_digit_digit_char [of 0] by (auto simp: parse_digits_def digit_char_def split: if_splits)
    then show ?thesis using is_digit_code [of c] ascii_digits [of u] by auto
  qed (simp add: parse_digits_def)
  have f: "parse_frac s = Some (v, t) \<Longrightarrow> ascii v" for s v t
    by (cases s) (auto simp: parse_frac_def ascii_digits split: if_splits)
  have e: "parse_exp s = Some (v, t) \<Longrightarrow> ascii v" for s v t
  proof (cases s)
    case (Cons c u)
    then show "parse_exp s = Some (v, t) \<Longrightarrow> ?thesis"
      by (cases u) (auto simp: parse_exp_def ascii_digits is_digit_code split: if_splits)
  qed (simp add: parse_exp_def)
  obtain sg s1 where s: "(case l of c # t \<Rightarrow> if c = CHR ''-'' then ([c], t) else ([], l) | [] \<Rightarrow> ([], [])) = (sg, s1)" by force
  then have "sg = [] \<or> sg = ''-''" by (auto split: list.splits if_splits)
  with assms s show ?thesis
    by (auto simp: json_num_def parse_number_def split: option.splits dest!: d e f)
qed

lemma parse_number_format_int:
  assumes "json_stop r"
  shows "parse_number (format_int n @ r) = Some (format_int n, r)"
proof (cases "n < 0")
  case True
  with assms show ?thesis
    by (simp add: parse_number_def format_int_def parse_digits_nat)
next
  case False
  obtain c t where c: "nat_digits (nat n) = c # t" by (cases "nat_digits (nat n)") auto
  then have "c \<in> set (nat_digits (nat n))" by simp
  then obtain d where "d < 10" "c = digit_char d" using nat_digits_set by blast
  then have "c \<noteq> CHR ''-''" using digit_char_neq_sign by simp
  with False c assms parse_digits_nat [OF assms, of "nat n"] show ?thesis
    by (simp add: parse_number_def format_int_def)
qed

lemma format_int_head:
  "\<exists>c t. format_int n = c # t \<and> (c = CHR ''-'' \<or> is_digit c)"
proof -
  obtain c t where c: "format_int n = c # t" by (cases "format_int n") auto
  then have "c = CHR ''-'' \<or> c \<in> set (nat_digits (nat n))"
    by (auto simp: format_int_def split: if_splits)
  with c nat_digits_is_digit show ?thesis by blast
qed

lemma is_digit_neq:
  "is_digit c \<Longrightarrow> c \<noteq> dquote \<and> c \<noteq> CHR ''{'' \<and> c \<noteq> CHR ''['' \<and> c \<noteq> CHR '']'' \<and> c \<noteq> CHR ''}'' \<and>
     c \<noteq> CHR ''t'' \<and> c \<noteq> CHR ''f'' \<and> c \<noteq> CHR ''n'' \<and> \<not> is_ws c"
  by (auto simp: is_digit_def digit_val_def is_ws_def)

lemma json_num_format_int [simp]: "json_num (format_int n)"
  using parse_number_format_int [of "[]" n] by (simp add: json_num_def json_stop_def)

lemma json_print_head:
  "json_nums j \<Longrightarrow> \<exists>c t. json_print j = c # t \<and> \<not> is_ws c \<and> c \<noteq> CHR '']'' \<and> c \<noteq> CHR ''}''"
proof (cases j)
  case (JNum l)
  assume "json_nums j"
  with JNum obtain c t where c: "l = c # t" and d: "c = CHR ''-'' \<or> is_digit c"
    using json_num_chars [of l] by (cases l) auto
  from d have "\<not> is_ws c \<and> c \<noteq> CHR '']'' \<and> c \<noteq> CHR ''}''"
  proof
    assume "c = CHR ''-''"
    then show ?thesis by (simp add: is_ws_def)
  next
    assume "is_digit c"
    then show ?thesis using is_digit_neq by blast
  qed
  with JNum c show ?thesis by simp
qed (simp_all add: is_ws_def json_quote_def)

lemma skip_ws_Cons [simp]: "\<not> is_ws c \<Longrightarrow> skip_ws (c # s) = c # s"
  by (simp add: skip_ws_def)

lemma skip_ws_Nil [simp]: "skip_ws [] = []"
  by (simp add: skip_ws_def)

lemma not_ws [simp]:
  "\<not> is_ws (CHR '','')" "\<not> is_ws (CHR '']'')" "\<not> is_ws (CHR ''}'')" "\<not> is_ws (CHR ''{'')"
  "\<not> is_ws (CHR ''['')" "\<not> is_ws dquote" "\<not> is_ws (CHR '':'')" "\<not> is_ws (CHR ''t'')"
  "\<not> is_ws (CHR ''f'')" "\<not> is_ws (CHR ''n'')" "\<not> is_ws (CHR ''-'')"
  by (simp_all add: is_ws_def)

lemma json_stop_simps [simp]:
  "json_stop []" "json_stop (CHR '','' # r)" "json_stop (CHR '']'' # r)" "json_stop (CHR ''}'' # r)"
  by (simp_all add: json_stop_def)

lemma parse_value_number:
  assumes "json_num l" "json_stop r"
  shows "parse_value (Suc n) (l @ r) = Some (JNum l, r)"
proof -
  obtain c t where c: "l = c # t" "c = CHR ''-'' \<or> is_digit c"
    using json_num_chars [OF assms(1)] by (cases l) auto
  from c(2) have "\<not> is_ws c" "c \<noteq> CHR ''{''" "c \<noteq> CHR ''[''" "c \<noteq> dquote" "c \<noteq> CHR ''t''"
    "c \<noteq> CHR ''f''" "c \<noteq> CHR ''n''"
    using is_digit_neq [of c] by auto
  with c(1) parse_number_stop [OF assms] show ?thesis by simp
qed

lemma parse_value_str:
  "parse_value (Suc n) (json_quote s @ r) = Some (JStr (utf8_fix s), r)"
  by (simp add: json_quote_def parse_str_escape)

lemma print_list_head:
  assumes "json_nums x"
  shows "\<exists>c t. json_print_list (x # xs) = c # t \<and> \<not> is_ws c \<and> c \<noteq> CHR '']''"
  using json_print_head [OF assms] by auto

lemma print_members_head: "\<exists>t. json_print_members ((k, v) # ms) = dquote # t"
  by (simp add: json_quote_def)

declare json_print_list.simps(2) [simp del] json_print_members.simps(2) [simp del]

lemma parse_print:
  "json_nums j \<Longrightarrow> json_size j \<le> n \<Longrightarrow> json_stop r \<Longrightarrow>
     parse_value n (json_print j @ r) = Some (fix_json j, r)"
  "list_all json_nums xs \<Longrightarrow> xs \<noteq> [] \<Longrightarrow> json_size_list xs \<le> n \<Longrightarrow>
     parse_elems n (json_print_list xs @ CHR '']'' # r) = Some (map fix_json xs, r)"
  "list_all (\<lambda>(k, v). json_nums v) ms \<Longrightarrow> ms \<noteq> [] \<Longrightarrow> json_size_members ms \<le> n \<Longrightarrow>
     parse_members n (json_print_members ms @ CHR ''}'' # r) = Some (map (\<lambda>(k, v). (utf8_fix k, fix_json v)) ms, r)"
proof (induction j and xs and ms arbitrary: n r and n r and n r
    rule: json_print_json_print_list_json_print_members.induct)
  case 1
  then show ?case by (cases n) (simp_all add: has_prefix_def)
next
  case (2 b)
  then show ?case by (cases n; cases b) (simp_all add: has_prefix_def)
next
  case (3 l)
  then show ?case by (cases n) (auto simp del: parse_value.simps simp: parse_value_number)
next
  case (4 s)
  then show ?case by (cases n) (simp_all del: parse_value.simps add: parse_value_str)
next
  case (5 xs)
  then obtain m where m: "n = Suc m" by (cases n) auto
  show ?case
  proof (cases xs)
    case Nil
    with m show ?thesis by simp
  next
    case (Cons y ys)
    with 5 have "json_nums y" by simp
    then obtain c t where c: "json_print_list xs = c # t" "\<not> is_ws c" "c \<noteq> CHR '']''"
      using print_list_head Cons by blast
    have "parse_elems m (json_print_list xs @ CHR '']'' # r) = Some (map fix_json xs, r)"
      using 5 m Cons by simp
    with m c show ?thesis by simp
  qed
next
  case (6 ms)
  then obtain m where m: "n = Suc m" by (cases n) auto
  show ?case
  proof (cases ms)
    case Nil
    with m show ?thesis by simp
  next
    case (Cons y ys)
    then obtain t where c: "json_print_members ms = dquote # t"
      using print_members_head [of "fst y" "snd y" ys] by auto
    have "parse_members m (json_print_members ms @ CHR ''}'' # r) = Some (map (\<lambda>(k, v). (utf8_fix k, fix_json v)) ms, r)"
      using 6 m Cons by simp
    with m c show ?thesis by simp
  qed
next
  case 7
  then show ?case by simp
next
  case (8 x xs)
  then obtain m where m: "n = Suc m" by (cases n) auto
  have x: "parse_value m (json_print x @ r') = Some (fix_json x, r')" if "json_stop r'" for r'
    using 8 m that by simp
  show ?case
  proof (cases "xs = []")
    case True
    with m x [of "CHR '']'' # r"] show ?thesis by (simp add: json_print_list.simps)
  next
    case False
    have "parse_elems m (json_print_list xs @ CHR '']'' # r) = Some (map fix_json xs, r)"
      using 8 m False by simp
    with m False x [of "CHR '','' # json_print_list xs @ CHR '']'' # r"] show ?thesis
      by (simp add: json_print_list.simps)
  qed
next
  case 9
  then show ?case by simp
next
  case (10 k v ms)
  then obtain m where m: "n = Suc m" by (cases n) auto
  have k: "parse_str (json_escape k @ dquote # r') = Some (utf8_fix k, r')" for r'
    by (rule parse_str_escape)
  have v: "parse_value m (json_print v @ r') = Some (fix_json v, r')" if "json_stop r'" for r'
    using 10 m that by simp
  show ?case
  proof (cases "ms = []")
    case True
    with m k v [of "CHR ''}'' # r"] show ?thesis
      by (simp add: json_print_members.simps json_quote_def)
  next
    case False
    have "parse_members m (json_print_members ms @ CHR ''}'' # r) = Some (map (\<lambda>(k, v). (utf8_fix k, fix_json v)) ms, r)"
      using 10 m False by simp
    with m False k v [of "CHR '','' # json_print_members ms @ CHR ''}'' # r"] show ?thesis
      by (simp add: json_print_members.simps json_quote_def)
  qed
qed

lemma json_size_bound:
  "json_nums j \<Longrightarrow> json_size j \<le> 2 * length (json_print j)"
  "list_all json_nums xs \<Longrightarrow> json_size_list xs \<le> 2 * length (json_print_list xs) + 1"
  "list_all (\<lambda>(k, v). json_nums v) ms \<Longrightarrow>
     json_size_members ms \<le> 2 * length (json_print_members ms) + 1"
proof (induction j and xs and ms rule: json_print_json_print_list_json_print_members.induct)
  case (3 l)
  then show ?case using json_num_chars [of l] by (cases l) simp_all
next
  case (8 x xs)
  then show ?case by (cases "xs = []") (simp_all add: json_print_list.simps)
next
  case (10 k v ms)
  then show ?case by (cases "ms = []") (simp_all add: json_print_members.simps json_quote_def)
qed (simp_all add: json_quote_def)

lemma json_parse_print_fix:
  assumes "json_nums j"
  shows "json_parse (json_print j) = Some (fix_json j)"
proof -
  have "json_size j \<le> 2 * length (json_print j) + 2"
    using json_size_bound(1) [OF assms] by simp
  from parse_print(1) [OF assms this, of "[]"] show ?thesis
    by (simp add: json_parse_def)
qed

lemma json_wf_nums: "json_wf j \<Longrightarrow> json_nums j"
  by (induction j) (auto simp: list_all_iff)

lemma json_wf_fix [simp]: "json_wf j \<Longrightarrow> fix_json j = j"
  by (induction j) (auto simp: list_all_iff intro!: map_idI)

lemma json_parse_print [codec_simps]:
  assumes "json_wf j"
  shows "json_parse (json_print j) = Some j"
  using assms by (simp add: json_parse_print_fix json_wf_nums)

subsection \<open>Decoding into values\<close>

text \<open>
  A decoder takes a JSON value and the value already there, and gives the new value and whether
  there was a type mismatch.
\<close>

type_synonym 'a jdec = "json \<Rightarrow> 'a \<Rightarrow> 'a \<times> bool"

definition jd_string :: "string jdec" where
  "jd_string j old = (case j of JStr s \<Rightarrow> (s, False) | JNull \<Rightarrow> (old, False) | _ \<Rightarrow> (old, True))"

definition jd_int :: "int jdec" where
  "jd_int j old =
     (case j of
        JNum l \<Rightarrow> (case parse_int_ok l of Some n \<Rightarrow> (n, False) | None \<Rightarrow> (old, True))
      | JNull \<Rightarrow> (old, False)
      | _ \<Rightarrow> (old, True))"

definition jd_bool :: "bool jdec" where
  "jd_bool j old = (case j of JBool b \<Rightarrow> (b, False) | JNull \<Rightarrow> (old, False) | _ \<Rightarrow> (old, True))"

text \<open>A slice: every element is decoded from the zero value; \<open>null\<close> gives the nil slice.\<close>

definition jd_list :: "'a jdec \<Rightarrow> 'a \<Rightarrow> 'a list jdec" where
  "jd_list d zero j old =
     (case j of
        JArr xs \<Rightarrow> (map (\<lambda>x. fst (d x zero)) xs, list_ex (\<lambda>x. snd (d x zero)) xs)
      | JNull \<Rightarrow> ([], False)
      | _ \<Rightarrow> (old, True))"

type_synonym 'r jfields = "(string \<times> 'r jdec) list"

definition jfield :: "'a jdec \<Rightarrow> ('r \<Rightarrow> 'a) \<Rightarrow> (('a \<Rightarrow> 'a) \<Rightarrow> 'r \<Rightarrow> 'r) \<Rightarrow> 'r jdec" where
  "jfield d get upd j r = (upd (\<lambda>_. fst (d j (get r))) r, snd (d j (get r)))"

definition find_field :: "'r jfields \<Rightarrow> string \<Rightarrow> 'r jdec option" where
  "find_field fs k =
     (case map_of fs k of
        Some f \<Rightarrow> Some f
      | None \<Rightarrow> map_of (map (\<lambda>(n, f). (to_lower n, f)) fs) (to_lower k))"

fun jd_members :: "'r jfields \<Rightarrow> (string \<times> json) list \<Rightarrow> 'r \<Rightarrow> 'r \<times> bool" where
  "jd_members fs [] r = (r, False)"
| "jd_members fs ((k, v) # ms) r =
     (case find_field fs k of
        None \<Rightarrow> jd_members fs ms r
      | Some f \<Rightarrow> (let (r1, e1) = f v r; (r2, e2) = jd_members fs ms r1 in (r2, e1 \<or> e2)))"

definition jd_struct :: "'r jfields \<Rightarrow> 'r jdec" where
  "jd_struct fs j r =
     (case j of JObj ms \<Rightarrow> jd_members fs ms r | JNull \<Rightarrow> (r, False) | _ \<Rightarrow> (r, True))"

text \<open>\<open>json.Unmarshal\<close>: a syntax error leaves the target alone.\<close>

definition unmarshal :: "'a jdec \<Rightarrow> 'a \<Rightarrow> string \<Rightarrow> 'a \<times> bool" where
  "unmarshal d zero s = (case json_parse s of None \<Rightarrow> (zero, True) | Some j \<Rightarrow> d j zero)"

definition unmarshal_ok :: "'a jdec \<Rightarrow> 'a \<Rightarrow> string \<Rightarrow> 'a option" where
  "unmarshal_ok d zero s = (case unmarshal d zero s of (v, e) \<Rightarrow> if e then None else Some v)"

abbreviation jint :: "int \<Rightarrow> json" where
  "jint n \<equiv> JNum (format_int n)"

lemma jd_simps [simp]:
  "jd_string (JStr s) old = (s, False)"
  "is_i64 n \<Longrightarrow> jd_int (jint n) oldn = (n, False)"
  "jd_bool (JBool b) oldb = (b, False)"
  by (simp_all add: jd_string_def jd_int_def jd_bool_def codec_simps)

lemma find_field_exact: "map_of fs k = Some f \<Longrightarrow> find_field fs k = Some f"
  by (simp add: find_field_def)

lemma jd_list_map:
  "(\<And>x. x \<in> set xs \<Longrightarrow> d (f x) zero = (x, False)) \<Longrightarrow> jd_list d zero (JArr (map f xs)) old = (xs, False)"
  unfolding jd_list_def by (induction xs) auto

lemma unmarshal_print:
  "json_wf j \<Longrightarrow> unmarshal d zero (json_print j) = d j zero"
  by (simp add: unmarshal_def codec_simps)

lemma unmarshal_ok_print:
  "json_wf j \<Longrightarrow> d j zero = (v, False) \<Longrightarrow> unmarshal_ok d zero (json_print j) = Some v"
  by (simp add: unmarshal_ok_def unmarshal_print)

lemma unmarshal_ok_iff: "unmarshal_ok d zero s = Some v \<longleftrightarrow> unmarshal d zero s = (v, False)"
  by (auto simp: unmarshal_ok_def split: prod.splits)

subsection \<open>Texts of ASCII characters, and structs that are read back\<close>

lemma ascii_json_escape: "ascii s \<Longrightarrow> ascii (json_escape s)"
proof (induction s)
  case (Cons c s)
  have "code_of (hex_digit n) < 128" if "n < 16" for n
    using that by (simp add: of_char_hex_digit)
  moreover have "code_of c div 16 < 16" by (rule less_mult_imp_div_less) simp
  ultimately have "ascii (escape_ascii c)" using Cons.prems by (auto simp: escape_ascii_def ascii_def)
  with Cons show ?case by (simp add: json_escape_ascii ascii_def)
qed (simp add: json_escape.simps)

lemma ascii_format_int: "ascii (format_int n)"
proof -
  have "code_of c < 128" if "c \<in> set (nat_digits m)" for c m
    using nat_digits_set [OF that] by auto
  then show ?thesis by (auto simp: format_int_def ascii_def list_all_iff)
qed

lemma ascii_append [simp]: "ascii (a @ b) \<longleftrightarrow> ascii a \<and> ascii b"
  by (simp add: ascii_def)

lemma ascii_json_quote: "ascii s \<Longrightarrow> ascii (json_quote s)"
  using ascii_json_escape [of s] by (simp add: json_quote_def)

lemma ascii_json_print:
  "json_wf j \<Longrightarrow> ascii (json_print j)"
  "list_all json_wf js \<Longrightarrow> ascii (json_print_list js)"
  "list_all (\<lambda>(k, v). ascii k \<and> json_wf v) ms \<Longrightarrow> ascii (json_print_members ms)"
  by (induction j and js and ms rule: json_print_json_print_list_json_print_members.induct)
    (auto simp: ascii_json_quote json_num_chars json_print_list.simps json_print_members.simps)

text \<open>
  The contract of a struct that is marshalled and read back: the decoder gives an encoded valid value
  back, and the encoding is a well-formed JSON value. The contract of a text codec follows from it.
\<close>

locale json_codec =
  fixes to_json :: "'a \<Rightarrow> json"
    and marshal :: "'a \<Rightarrow> string"
    and jd :: "'a jdec"
    and zero_value :: 'a
    and valid :: "'a \<Rightarrow> bool"
  assumes jd_to_json: "valid x \<Longrightarrow> jd (to_json x) zero_value = (x, False)"
    and wf: "valid x \<Longrightarrow> json_wf (to_json x)"
    and marshal_eq: "marshal x = json_print (to_json x)"
begin

lemma unmarshal_marshal [codec_simps]: "valid x \<Longrightarrow> unmarshal jd zero_value (marshal x) = (x, False)"
  by (simp add: marshal_eq unmarshal_print jd_to_json wf)

lemma unmarshal_ok_marshal [codec_simps]: "valid x \<Longrightarrow> unmarshal_ok jd zero_value (marshal x) = Some x"
  by (simp add: unmarshal_ok_def unmarshal_marshal)

lemma jd_list_to_json: "list_all valid xs \<Longrightarrow> jd_list jd zero_value (JArr (map to_json xs)) old = (xs, False)"
  by (rule jd_list_map) (auto simp: list_all_iff jd_to_json)

lemma list_wf: "list_all valid xs \<Longrightarrow> json_wf (JArr (map to_json xs))"
  by (auto simp: list_all_iff wf)

lemma marshal_ascii: "valid x \<Longrightarrow> ascii (marshal x)"
  by (simp add: marshal_eq ascii_json_print(1) wf)

end

sublocale json_codec \<subseteq> codec marshal "unmarshal_ok jd zero_value" valid
  by unfold_locales (rule unmarshal_ok_marshal)

end
