(* ===== verification/Go_Float.thy ===== *)
theory Go_Float
  imports Prelude "HOL-Library.Log_Nat" Complex_Main
begin

text \<open>
  Go's \<open>float32\<close>, as the token buckets of the rate limiter use it: IEEE 754 binary32 with
  round to nearest, ties to even. A finite value is the rational it denotes; the sign of zero
  is not kept, because the code divides only by converted integers, whose zero is positive, and
  compares. Every operation rounds once; the fused multiply-add a compiler may use on some
  processors is not modelled.
\<close>

datatype f32 = NaN32 | PInf | NInf | Fin rat

definition pow2 :: "int \<Rightarrow> rat" where
  "pow2 e = (if 0 \<le> e then 2 ^ nat e else 1 / 2 ^ nat (- e))"

text \<open>The exponent of a positive rational: \<open>pow2 (ilog2 x) \<le> x < 2 * pow2 (ilog2 x)\<close>.\<close>

definition ilog2 :: "rat \<Rightarrow> int" where
  "ilog2 x = (let (p, q) = quotient_of x; k = bitlen p - bitlen q
              in if pow2 k \<le> x then k else k - 1)"

definition round_even :: "rat \<Rightarrow> int" where
  "round_even q = (let f = \<lfloor>q\<rfloor>; d = q - of_int f in
     if d < 1 / 2 then f else if d > 1 / 2 then f + 1 else if even f then f else f + 1)"

text \<open>The unit in the last place: 24 bits of significand, subnormals below \<open>pow2 (-126)\<close>.\<close>

definition ulp :: "rat \<Rightarrow> rat" where
  "ulp x = pow2 (max (ilog2 \<bar>x\<bar>) (-126) - 23)"

definition rnd :: "rat \<Rightarrow> rat" where
  "rnd x = (if x = 0 then 0 else of_int (round_even (x / ulp x)) * ulp x)"

definition mk32 :: "rat \<Rightarrow> f32" where
  "mk32 x = (if 2 ^ 128 \<le> rnd x then PInf else if rnd x \<le> - (2 ^ 128) then NInf else Fin (rnd x))"

definition f_of_int :: "int \<Rightarrow> f32" where
  "f_of_int n = mk32 (of_int n)"

fun f_add :: "f32 \<Rightarrow> f32 \<Rightarrow> f32" where
  "f_add (Fin a) (Fin b) = mk32 (a + b)"
| "f_add NaN32 _ = NaN32"
| "f_add _ NaN32 = NaN32"
| "f_add PInf NInf = NaN32"
| "f_add NInf PInf = NaN32"
| "f_add PInf _ = PInf"
| "f_add _ PInf = PInf"
| "f_add NInf _ = NInf"
| "f_add _ NInf = NInf"

definition f_inf :: "bool \<Rightarrow> f32" where
  "f_inf positive = (if positive then PInf else NInf)"

fun f_mul :: "f32 \<Rightarrow> f32 \<Rightarrow> f32" where
  "f_mul (Fin a) (Fin b) = mk32 (a * b)"
| "f_mul NaN32 _ = NaN32"
| "f_mul _ NaN32 = NaN32"
| "f_mul (Fin a) PInf = (if a = 0 then NaN32 else f_inf (0 < a))"
| "f_mul (Fin a) NInf = (if a = 0 then NaN32 else f_inf (a < 0))"
| "f_mul PInf (Fin b) = (if b = 0 then NaN32 else f_inf (0 < b))"
| "f_mul NInf (Fin b) = (if b = 0 then NaN32 else f_inf (b < 0))"
| "f_mul PInf PInf = PInf"
| "f_mul NInf NInf = PInf"
| "f_mul _ _ = NInf"

text \<open>Division of finite values; the divisor's zero is positive.\<close>

definition f_div_fin :: "rat \<Rightarrow> rat \<Rightarrow> f32" where
  "f_div_fin a b =
     (if b = 0 then (if a = 0 then NaN32 else f_inf (0 < a)) else mk32 (a / b))"

fun f_div :: "f32 \<Rightarrow> f32 \<Rightarrow> f32" where
  "f_div (Fin a) (Fin b) = f_div_fin a b"
| "f_div NaN32 _ = NaN32"
| "f_div _ NaN32 = NaN32"
| "f_div (Fin a) _ = Fin 0"
| "f_div PInf (Fin b) = f_inf (0 \<le> b)"
| "f_div NInf (Fin b) = f_inf (b < 0)"
| "f_div _ _ = NaN32"

text \<open>A comparison with NaN is false.\<close>

fun f_lt :: "f32 \<Rightarrow> f32 \<Rightarrow> bool" where
  "f_lt (Fin a) (Fin b) \<longleftrightarrow> a < b"
| "f_lt NaN32 _ \<longleftrightarrow> False"
| "f_lt _ NaN32 \<longleftrightarrow> False"
| "f_lt NInf y \<longleftrightarrow> y \<noteq> NInf"
| "f_lt PInf _ \<longleftrightarrow> False"
| "f_lt (Fin a) y \<longleftrightarrow> y = PInf"

subsection \<open>Rounding is monotone and keeps small integers\<close>

lemma round_even_floor: "\<lfloor>q\<rfloor> \<le> round_even q" "round_even q \<le> \<lfloor>q\<rfloor> + 1"
  by (auto simp: round_even_def Let_def)

lemma round_even_mono: "x \<le> y \<Longrightarrow> round_even x \<le> round_even y"
proof -
  assume xy: "x \<le> y"
  then have f: "\<lfloor>x\<rfloor> \<le> \<lfloor>y\<rfloor>" by (rule floor_mono)
  show ?thesis
  proof (cases "\<lfloor>x\<rfloor> = \<lfloor>y\<rfloor>")
    case True
    with xy show ?thesis by (auto simp: round_even_def Let_def)
  next
    case False
    with f have "\<lfloor>x\<rfloor> + 1 \<le> \<lfloor>y\<rfloor>" by simp
    then show ?thesis using round_even_floor(2) [of x] round_even_floor(1) [of y] by simp
  qed
qed

lemma round_even_int [simp]: "round_even (of_int n) = n"
  by (simp add: round_even_def)

lemma pow2_pos [simp]: "0 < pow2 e"
  by (simp add: pow2_def)

lemma pow2_Suc: "pow2 (e + 1) = 2 * pow2 e"
proof (cases "0 \<le> e")
  case True
  then have "nat (e + 1) = Suc (nat e)" by simp
  with True show ?thesis by (simp add: pow2_def)
next
  case False
  then have "nat (- e) = Suc (nat (- e - 1))" by simp
  with False show ?thesis by (cases "e = -1") (simp_all add: pow2_def algebra_simps)
qed

lemma pow2_add_nat: "pow2 (e + int n) = 2 ^ n * pow2 e"
proof (induction n)
  case 0
  show ?case by simp
next
  case (Suc n)
  have "pow2 (e + int (Suc n)) = pow2 ((e + int n) + 1)" by (simp add: algebra_simps)
  with Suc show ?case by (simp only: pow2_Suc) simp
qed

lemma pow2_mono: "a \<le> b \<Longrightarrow> pow2 a \<le> pow2 b"
proof -
  assume "a \<le> b"
  then obtain n where "b = a + int n" using zle_iff_zadd by auto
  moreover have "(1::rat) \<le> 2 ^ n" by simp
  ultimately show ?thesis using pow2_pos [of a] by (simp add: pow2_add_nat)
qed

lemma pow2_less_iff: "pow2 a < pow2 b \<longleftrightarrow> a < b"
proof
  assume "pow2 a < pow2 b"
  then show "a < b" using pow2_mono [of b a] by force
next
  assume "a < b"
  then have "pow2 (a + 1) \<le> pow2 b" by (intro pow2_mono) simp
  then have "2 * pow2 a \<le> pow2 b" by (simp only: pow2_Suc)
  with pow2_pos [of a] show "pow2 a < pow2 b" by linarith
qed

lemma pow2_diff: "pow2 (int a - int b) = 2 ^ a / 2 ^ b"
proof (cases "b \<le> a")
  case True
  then have "nat (int a - int b) = a - b" by simp
  with True show ?thesis by (simp add: pow2_def power_diff)
next
  case False
  then have "nat (- (int a - int b)) = b - a" by simp
  with False show ?thesis by (simp add: pow2_def power_diff)
qed

lemma ilog2_bounds:
  assumes "0 < x"
  shows "pow2 (ilog2 x) \<le> x" "x < pow2 (ilog2 x + 1)"
proof -
  obtain p q where pq: "quotient_of x = (p, q)" by (cases "quotient_of x") auto
  then have q: "0 < q" using quotient_of_denom_pos by blast
  have x: "x = of_int p / of_int q" using pq quotient_of_div by blast
  with assms q have p: "0 < p" by (simp add: zero_less_divide_iff)
  define a b where "a = nat (bitlen p - 1)" and "b = nat (bitlen q - 1)"
  have "1 \<le> bitlen p" "1 \<le> bitlen q" using p q by (auto simp: bitlen_alt_def)
  then have ab: "bitlen p = int (Suc a)" "bitlen q = int (Suc b)" by (simp_all add: a_def b_def)
  have pa: "2 ^ a \<le> p" "p < 2 ^ Suc a" using bitlen_bounds [OF p] by (simp_all add: ab nat_add_distrib)
  have qb: "2 ^ b \<le> q" "q < 2 ^ Suc b" using bitlen_bounds [OF q] by (simp_all add: ab nat_add_distrib)
  have P: "(2::rat) ^ a \<le> of_int p" "of_int p < (2::rat) ^ Suc a"
    using pa of_int_le_iff [of "2 ^ a" p, where 'a = rat] of_int_less_iff [of p "2 ^ Suc a", where 'a = rat]
    by simp_all
  have Q: "(2::rat) ^ b \<le> of_int q" "of_int q < (2::rat) ^ Suc b"
    using qb of_int_le_iff [of "2 ^ b" q, where 'a = rat] of_int_less_iff [of q "2 ^ Suc b", where 'a = rat]
    by simp_all
  let ?k = "bitlen p - bitlen q"
  have k: "?k = int a - int b" using ab by simp
  have "x < 2 ^ Suc a / 2 ^ b"
    unfolding x using P Q q p by (intro frac_less) simp_all
  then have up: "x < pow2 (?k + 1)" by (simp add: k pow2_Suc pow2_diff)
  have "0 \<le> (2::rat) ^ a" "0 < (of_int q :: rat)" using q by simp_all
  then have "2 ^ a / 2 ^ Suc b \<le> x"
    unfolding x using P(1) Q(2) p by (intro frac_le) (simp_all del: power_Suc)
  moreover have "pow2 (?k - 1) = 2 ^ a / 2 ^ Suc b"
    using pow2_diff [of a "Suc b"] by (simp add: k diff_diff_eq add.commute)
  ultimately have low: "pow2 (?k - 1) \<le> x" by simp
  have i: "ilog2 x = (if pow2 ?k \<le> x then ?k else ?k - 1)" by (simp add: ilog2_def pq Let_def)
  show "pow2 (ilog2 x) \<le> x" using low by (simp add: i)
  show "x < pow2 (ilog2 x + 1)" using up by (simp add: i)
qed

lemma ilog2_mono: "0 < x \<Longrightarrow> x \<le> y \<Longrightarrow> ilog2 x \<le> ilog2 y"
proof -
  assume xy: "0 < x" "x \<le> y"
  then have "pow2 (ilog2 x) < pow2 (ilog2 y + 1)"
    using ilog2_bounds(1) [of x] ilog2_bounds(2) [of y] by linarith
  then show ?thesis by (simp add: pow2_less_iff)
qed

lemma ulp_pos [simp]: "0 < ulp x"
  by (simp add: ulp_def)

text \<open>Within one exponent, rounding stays between the binade's ends.\<close>

lemma rnd_le_binade:
  assumes "0 < x" and "e = max (ilog2 x) (-126)"
  shows "rnd x \<le> pow2 (e + 1)"
proof -
  have u: "ulp x = pow2 (e - 23)" using assms by (simp add: ulp_def)
  have "x < pow2 (ilog2 x + 1)" by (rule ilog2_bounds(2) [OF assms(1)])
  also have "\<dots> \<le> pow2 (e + 1)" using assms(2) by (intro pow2_mono) simp
  also have "\<dots> = 2 ^ 24 * ulp x" using pow2_add_nat [of "e - 23" 24] by (simp add: u add.commute)
  finally have "x / ulp x \<le> of_int (2 ^ 24)" by (simp add: divide_le_eq)
  then have "round_even (x / ulp x) \<le> 2 ^ 24" using round_even_mono round_even_int by metis
  then have "of_int (round_even (x / ulp x)) * ulp x \<le> of_int (2 ^ 24) * ulp x"
    by (intro mult_right_mono) (simp_all del: of_int_power add: less_imp_le)
  with assms(1) \<open>pow2 (e + 1) = 2 ^ 24 * ulp x\<close> show ?thesis by (simp add: rnd_def)
qed

lemma rnd_ge_binade:
  assumes "0 < x" and "-126 \<le> ilog2 x"
  shows "pow2 (ilog2 x) \<le> rnd x"
proof -
  have u: "ulp x = pow2 (ilog2 x - 23)" using assms by (simp add: ulp_def max_def)
  have e: "pow2 (ilog2 x) = 2 ^ 23 * ulp x" using pow2_add_nat [of "ilog2 x - 23" 23] by (simp add: u)
  then have "2 ^ 23 * ulp x \<le> x" using ilog2_bounds(1) [OF assms(1)] by simp
  then have "of_int (2 ^ 23) \<le> x / ulp x" by (simp add: le_divide_eq)
  then have "2 ^ 23 \<le> round_even (x / ulp x)" using round_even_mono round_even_int by metis
  then have "of_int (2 ^ 23) * ulp x \<le> of_int (round_even (x / ulp x)) * ulp x"
    by (intro mult_right_mono) (simp_all del: of_int_power add: less_imp_le)
  with assms(1) e show ?thesis by (simp add: rnd_def)
qed

lemma rnd_nonneg: "0 \<le> x \<Longrightarrow> 0 \<le> rnd x"
proof -
  assume "0 \<le> x"
  then have "0 \<le> x / ulp x" by (simp add: less_imp_le)
  then have "round_even (of_int 0) \<le> round_even (x / ulp x)" by (intro round_even_mono) simp
  then have "0 \<le> round_even (x / ulp x)" by (simp only: round_even_int)
  then show ?thesis by (simp add: rnd_def less_imp_le)
qed

lemma rnd_mono_pos:
  assumes "0 < x" "x \<le> y"
  shows "rnd x \<le> rnd y"
proof -
  let ?ex = "max (ilog2 x) (-126)" and ?ey = "max (ilog2 y) (-126)"
  have le: "?ex \<le> ?ey" using ilog2_mono [OF assms] by auto
  show ?thesis
  proof (cases "?ex = ?ey")
    case True
    then have "ulp x = ulp y" using assms by (simp add: ulp_def)
    moreover have "x / ulp y \<le> y / ulp y" using assms by (simp add: divide_right_mono less_imp_le)
    ultimately show ?thesis
      using assms round_even_mono [of "x / ulp y" "y / ulp y"]
      by (simp add: rnd_def mult_right_mono less_imp_le)
  next
    case False
    with le have "?ex + 1 \<le> ilog2 y" "-126 \<le> ilog2 y" by auto
    then have "pow2 (?ex + 1) \<le> pow2 (ilog2 y)" "pow2 (ilog2 y) \<le> rnd y"
      using assms by (auto intro!: pow2_mono rnd_ge_binade)
    with rnd_le_binade [OF assms(1) refl] show ?thesis by linarith
  qed
qed

lemma round_even_minus: "round_even (- x) = - round_even x"
proof (cases "x = of_int \<lfloor>x\<rfloor>")
  case True
  then show ?thesis by (metis of_int_minus round_even_int)
next
  case False
  have fl: "of_int \<lfloor>x\<rfloor> \<le> x" "x < of_int \<lfloor>x\<rfloor> + 1" by linarith+
  with False have "of_int \<lfloor>x\<rfloor> < x" by linarith
  with fl have m: "\<lfloor>- x\<rfloor> = - \<lfloor>x\<rfloor> - 1" by (intro floor_unique) simp_all
  show ?thesis unfolding round_even_def Let_def m by (auto simp: field_simps)
qed

lemma rnd_minus: "rnd (- x) = - rnd x"
proof -
  have "ulp (- x) = ulp x" by (simp add: ulp_def)
  then show ?thesis using round_even_minus [of "x / ulp x"] by (simp add: rnd_def)
qed

lemma rnd_zero [simp]: "rnd 0 = 0"
  by (simp add: rnd_def)

lemma rnd_mono: "x \<le> y \<Longrightarrow> rnd x \<le> rnd y"
proof -
  assume xy: "x \<le> y"
  consider "0 < x" | "x \<le> 0" "0 \<le> y" | "y < 0" by linarith
  then show ?thesis
  proof cases
    case 1
    with xy show ?thesis by (simp add: rnd_mono_pos)
  next
    case 2
    then have "0 \<le> rnd y" "0 \<le> rnd (- x)" by (simp_all add: rnd_nonneg)
    then show ?thesis by (simp add: rnd_minus)
  next
    case 3
    with xy have "rnd (- y) \<le> rnd (- x)" by (intro rnd_mono_pos) simp_all
    then show ?thesis by (simp add: rnd_minus)
  qed
qed

lemma rnd_int_pos:
  assumes "0 < n" "n < 16777216"
  shows "rnd (of_int n) = of_int n"
proof -
  let ?x = "of_int n :: rat" and ?e = "ilog2 (of_int n)"
  have x: "0 < ?x" using assms by simp
  have "pow2 0 \<le> ?x" using assms by (simp add: pow2_def)
  with ilog2_bounds(2) [OF x] have "pow2 0 < pow2 (?e + 1)" by linarith
  then have e0: "0 \<le> ?e" by (simp add: pow2_less_iff)
  have "?x < of_int 16777216" using assms(2) by (simp only: of_int_less_iff)
  then have "?x < pow2 24" by (simp add: pow2_def)
  with ilog2_bounds(1) [OF x] have "pow2 ?e < pow2 24" by linarith
  then have e1: "?e \<le> 23" by (simp add: pow2_less_iff)
  define k where "k = nat (23 - ?e)"
  have "?e - 23 = - int k" using e1 by (simp add: k_def)
  then have u: "ulp ?x = 1 / 2 ^ k" using e0 x by (simp add: ulp_def pow2_def max_def)
  have "?x / ulp ?x = of_int (n * 2 ^ k)" by (simp add: u)
  then have "round_even (?x / ulp ?x) = n * 2 ^ k" by (simp only: round_even_int)
  then show ?thesis using assms by (simp add: rnd_def u)
qed

lemma rnd_int [simp]:
  assumes "\<bar>n\<bar> < 16777216"
  shows "rnd (of_int n) = of_int n"
proof -
  consider "0 < n" | "n = 0" | "n < 0" by linarith
  then show ?thesis
  proof cases
    case 1
    with assms show ?thesis by (simp add: rnd_int_pos)
  next
    case 2
    then show ?thesis by simp
  next
    case 3
    with assms have "rnd (of_int (- n)) = of_int (- n)" by (intro rnd_int_pos) simp_all
    then show ?thesis using rnd_minus [of "of_int n"] by simp
  qed
qed

end
