(* ===== verification/Chp_Types.thy ===== *)
theory Chp_Types
  imports Go_Json Go_Float
begin

text \<open>
  The data of the program: the structs of \<open>src/types/types.go\<close> as records, with the source's
  field names (a field name that several structs share carries the struct's initials), and the
  JSON codec of every struct the code marshals: \<open>X_json\<close> is \<open>json.Marshal\<close> before printing,
  \<open>jd_X\<close> the decoder \<open>json.Unmarshal\<close> runs, from the struct tags.

  Each struct interprets the locale \<open>json_codec\<close>: for the values of \<open>X_ok\<close>, whose texts are ASCII
  and whose integers are 64-bit, decoding an encoded struct gives the struct back; the collection
  \<open>codec_simps\<close> has these facts.
\<close>

subsection \<open>Transactions\<close>

record Tx =
  TxType :: string
  Data :: string
  Version :: int
  Time :: int
  CoreID :: string
  Meta :: string
  Sig :: string

definition Tx_zero :: Tx where
  "Tx_zero = \<lparr>TxType = [], Data = [], Version = 0, Time = 0, CoreID = [], Meta = [], Sig = []\<rparr>"

text \<open>A string member with \<open>omitempty\<close>.\<close>

definition jomit :: "string \<Rightarrow> string \<Rightarrow> (string \<times> json) list" where
  "jomit k s = (if s = [] then [] else [(k, JStr s)])"

definition Tx_json :: "Tx \<Rightarrow> json" where
  "Tx_json t = JObj ([(''type'', JStr (TxType t)), (''data'', JStr (Data t)),
     (''version'', jint (Version t)), (''time'', jint (Time t)), (''core_id'', JStr (CoreID t))] @
     jomit ''meta'' (Meta t) @ jomit ''sig'' (Sig t))"

definition jd_Tx :: "Tx jdec" where
  "jd_Tx = jd_struct
     [(''type'', jfield jd_string TxType TxType_update),
      (''data'', jfield jd_string Data Data_update),
      (''version'', jfield jd_int Version Version_update),
      (''time'', jfield jd_int Time Time_update),
      (''core_id'', jfield jd_string CoreID CoreID_update),
      (''meta'', jfield jd_string Meta Meta_update),
      (''sig'', jfield jd_string Sig Sig_update)]"

text \<open>The values whose fields survive a JSON round trip: ASCII strings, 64-bit integers.\<close>

definition Tx_ok :: "Tx \<Rightarrow> bool" where
  "Tx_ok t \<longleftrightarrow> ascii (TxType t) \<and> ascii (Data t) \<and> is_i64 (Version t) \<and> is_i64 (Time t) \<and>
     ascii (CoreID t) \<and> ascii (Meta t) \<and> ascii (Sig t)"

lemmas jd_simps_struct = jd_struct_def find_field_exact jfield_def jomit_def

lemma jd_Tx_json [codec_simps]: "Tx_ok t \<Longrightarrow> jd_Tx (Tx_json t) Tx_zero = (t, False)"
  by (cases t) (simp add: jd_Tx_def Tx_json_def Tx_ok_def Tx_zero_def jd_simps_struct)

lemma Tx_json_wf [codec_simps]: "Tx_ok t \<Longrightarrow> json_wf (Tx_json t)"
  by (auto simp: Tx_json_def Tx_ok_def jomit_def)

definition Tx_marshal :: "Tx \<Rightarrow> string" where
  "Tx_marshal t = json_print (Tx_json t)"

interpretation Tx_codec: json_codec Tx_json Tx_marshal jd_Tx Tx_zero Tx_ok
  by unfold_locales (simp_all add: Tx_marshal_def codec_simps)

subsection \<open>Proof segments, anchors and messages\<close>

lemma jd_list_string [simp]: "jd_list jd_string zero (JArr (map JStr xs)) old = (xs, False)"
  by (rule jd_list_map) simp

text \<open>One step of a Chainpoint proof: a left or a right operand, or an operation.\<close>

record ProofLineItem =
  Left :: string
  Right :: string
  Op :: string

definition ProofLineItem_zero :: ProofLineItem where
  "ProofLineItem_zero = \<lparr>Left = [], Right = [], Op = []\<rparr>"

definition ProofLineItem_json :: "ProofLineItem \<Rightarrow> json" where
  "ProofLineItem_json x = JObj (jomit ''l'' (Left x) @ jomit ''r'' (Right x) @ jomit ''op'' (Op x))"

definition jd_ProofLineItem :: "ProofLineItem jdec" where
  "jd_ProofLineItem = jd_struct
     [(''l'', jfield jd_string Left Left_update),
      (''r'', jfield jd_string Right Right_update),
      (''op'', jfield jd_string Op Op_update)]"

definition ProofLineItem_ok :: "ProofLineItem \<Rightarrow> bool" where
  "ProofLineItem_ok x \<longleftrightarrow> ascii (Left x) \<and> ascii (Right x) \<and> ascii (Op x)"

lemma jd_ProofLineItem_json [codec_simps]: "ProofLineItem_ok x \<Longrightarrow> jd_ProofLineItem (ProofLineItem_json x) ProofLineItem_zero = (x, False)"
  by (cases x) (simp add: jd_ProofLineItem_def ProofLineItem_json_def ProofLineItem_ok_def ProofLineItem_zero_def jd_simps_struct)

lemma ProofLineItem_json_wf [codec_simps]: "ProofLineItem_ok x \<Longrightarrow> json_wf (ProofLineItem_json x)"
  by (auto simp: ProofLineItem_json_def ProofLineItem_ok_def jomit_def)

definition ProofLineItem_marshal :: "ProofLineItem \<Rightarrow> string" where
  "ProofLineItem_marshal x = json_print (ProofLineItem_json x)"

interpretation ProofLineItem_codec: json_codec ProofLineItem_json ProofLineItem_marshal jd_ProofLineItem ProofLineItem_zero ProofLineItem_ok
  by unfold_locales (simp_all add: ProofLineItem_marshal_def codec_simps)

text \<open>A step of a proof of the JavaScript Merkle tools.\<close>

record JSProof =
  JLeft :: string
  JRight :: string

definition JSProof_zero :: JSProof where
  "JSProof_zero = \<lparr>JLeft = [], JRight = []\<rparr>"

definition JSProof_json :: "JSProof \<Rightarrow> json" where
  "JSProof_json x = JObj (jomit ''left'' (JLeft x) @ jomit ''right'' (JRight x))"

definition jd_JSProof :: "JSProof jdec" where
  "jd_JSProof = jd_struct
     [(''left'', jfield jd_string JLeft JLeft_update),
      (''right'', jfield jd_string JRight JRight_update)]"

definition JSProof_ok :: "JSProof \<Rightarrow> bool" where
  "JSProof_ok x \<longleftrightarrow> ascii (JLeft x) \<and> ascii (JRight x)"

lemma jd_JSProof_json [codec_simps]: "JSProof_ok x \<Longrightarrow> jd_JSProof (JSProof_json x) JSProof_zero = (x, False)"
  by (cases x) (simp add: jd_JSProof_def JSProof_json_def JSProof_ok_def JSProof_zero_def jd_simps_struct)

lemma JSProof_json_wf [codec_simps]: "JSProof_ok x \<Longrightarrow> json_wf (JSProof_json x)"
  by (auto simp: JSProof_json_def JSProof_ok_def jomit_def)

definition JSProof_marshal :: "JSProof \<Rightarrow> string" where
  "JSProof_marshal x = json_print (JSProof_json x)"

interpretation JSProof_codec: json_codec JSProof_json JSProof_marshal jd_JSProof JSProof_zero JSProof_ok
  by unfold_locales (simp_all add: JSProof_marshal_def codec_simps)

text \<open>The anchor that ends a branch of a proof.\<close>

record AnchorObj =
  AnchorID :: string
  Uris :: "string list"

definition AnchorObj_zero :: AnchorObj where
  "AnchorObj_zero = \<lparr>AnchorID = [], Uris = []\<rparr>"

definition AnchorObj_json :: "AnchorObj \<Rightarrow> json" where
  "AnchorObj_json x = JObj [(''anchor_id'', JStr (AnchorID x)),
     (''uris'', JArr (map JStr (Uris x)))]"

definition jd_AnchorObj :: "AnchorObj jdec" where
  "jd_AnchorObj = jd_struct
     [(''anchor_id'', jfield jd_string AnchorID AnchorID_update),
      (''uris'', jfield (jd_list jd_string []) Uris Uris_update)]"

definition AnchorObj_ok :: "AnchorObj \<Rightarrow> bool" where
  "AnchorObj_ok x \<longleftrightarrow> ascii (AnchorID x) \<and> list_all ascii (Uris x)"

lemma jd_AnchorObj_json [codec_simps]: "AnchorObj_ok x \<Longrightarrow> jd_AnchorObj (AnchorObj_json x) AnchorObj_zero = (x, False)"
  by (cases x) (simp add: jd_AnchorObj_def AnchorObj_json_def AnchorObj_ok_def AnchorObj_zero_def jd_simps_struct list_all_iff codec_simps)

lemma AnchorObj_json_wf [codec_simps]: "AnchorObj_ok x \<Longrightarrow> json_wf (AnchorObj_json x)"
  by (auto simp: AnchorObj_json_def AnchorObj_ok_def jomit_def list_all_iff codec_simps)

definition AnchorObj_marshal :: "AnchorObj \<Rightarrow> string" where
  "AnchorObj_marshal x = json_print (AnchorObj_json x)"

interpretation AnchorObj_codec: json_codec AnchorObj_json AnchorObj_marshal jd_AnchorObj AnchorObj_zero AnchorObj_ok
  by unfold_locales (simp_all add: AnchorObj_marshal_def codec_simps)

text \<open>The steps of a proof segment, as stored.\<close>

record OpsState =
  os_Ops :: "ProofLineItem list"

definition OpsState_zero :: OpsState where
  "OpsState_zero = \<lparr>os_Ops = []\<rparr>"

definition OpsState_json :: "OpsState \<Rightarrow> json" where
  "OpsState_json x = JObj [(''ops'', JArr (map ProofLineItem_json (os_Ops x)))]"

definition jd_OpsState :: "OpsState jdec" where
  "jd_OpsState = jd_struct
     [(''ops'', jfield (jd_list jd_ProofLineItem ProofLineItem_zero) os_Ops os_Ops_update)]"

definition OpsState_ok :: "OpsState \<Rightarrow> bool" where
  "OpsState_ok x \<longleftrightarrow> list_all ProofLineItem_ok (os_Ops x)"

lemma jd_OpsState_json [codec_simps]: "OpsState_ok x \<Longrightarrow> jd_OpsState (OpsState_json x) OpsState_zero = (x, False)"
  by (cases x) (simp add: jd_OpsState_def OpsState_json_def OpsState_ok_def OpsState_zero_def jd_simps_struct ProofLineItem_codec.jd_list_to_json)

lemma OpsState_json_wf [codec_simps]: "OpsState_ok x \<Longrightarrow> json_wf (OpsState_json x)"
  by (auto simp: OpsState_json_def OpsState_ok_def jomit_def list_all_iff codec_simps)

definition OpsState_marshal :: "OpsState \<Rightarrow> string" where
  "OpsState_marshal x = json_print (OpsState_json x)"

interpretation OpsState_codec: json_codec OpsState_json OpsState_marshal jd_OpsState OpsState_zero OpsState_ok
  by unfold_locales (simp_all add: OpsState_marshal_def codec_simps)

text \<open>The steps of a proof segment that ends in an anchor.\<close>

record AnchorOpsState =
  aos_Ops :: "ProofLineItem list"
  Anchor :: AnchorObj

definition AnchorOpsState_zero :: AnchorOpsState where
  "AnchorOpsState_zero = \<lparr>aos_Ops = [], Anchor = AnchorObj_zero\<rparr>"

definition AnchorOpsState_json :: "AnchorOpsState \<Rightarrow> json" where
  "AnchorOpsState_json x = JObj [(''ops'', JArr (map ProofLineItem_json (aos_Ops x))),
     (''anchor'', AnchorObj_json (Anchor x))]"

definition jd_AnchorOpsState :: "AnchorOpsState jdec" where
  "jd_AnchorOpsState = jd_struct
     [(''ops'', jfield (jd_list jd_ProofLineItem ProofLineItem_zero) aos_Ops aos_Ops_update),
      (''anchor'', jfield jd_AnchorObj Anchor Anchor_update)]"

definition AnchorOpsState_ok :: "AnchorOpsState \<Rightarrow> bool" where
  "AnchorOpsState_ok x \<longleftrightarrow> list_all ProofLineItem_ok (aos_Ops x) \<and> AnchorObj_ok (Anchor x)"

lemma jd_AnchorOpsState_json [codec_simps]: "AnchorOpsState_ok x \<Longrightarrow> jd_AnchorOpsState (AnchorOpsState_json x) AnchorOpsState_zero = (x, False)"
  by (cases x) (simp add: jd_AnchorOpsState_def AnchorOpsState_json_def AnchorOpsState_ok_def AnchorOpsState_zero_def jd_simps_struct ProofLineItem_codec.jd_list_to_json codec_simps)

lemma AnchorOpsState_json_wf [codec_simps]: "AnchorOpsState_ok x \<Longrightarrow> json_wf (AnchorOpsState_json x)"
  by (auto simp: AnchorOpsState_json_def AnchorOpsState_ok_def jomit_def list_all_iff codec_simps)

definition AnchorOpsState_marshal :: "AnchorOpsState \<Rightarrow> string" where
  "AnchorOpsState_marshal x = json_print (AnchorOpsState_json x)"

interpretation AnchorOpsState_codec: json_codec AnchorOpsState_json AnchorOpsState_marshal jd_AnchorOpsState AnchorOpsState_zero AnchorOpsState_ok
  by unfold_locales (simp_all add: AnchorOpsState_marshal_def codec_simps)

text \<open>The data of a BTC-A transaction.\<close>

record BtcA =
  ba_AnchorBtcAggRoot :: string
  ba_BtcTxID :: string

definition BtcA_zero :: BtcA where
  "BtcA_zero = \<lparr>ba_AnchorBtcAggRoot = [], ba_BtcTxID = []\<rparr>"

definition BtcA_json :: "BtcA \<Rightarrow> json" where
  "BtcA_json x = JObj [(''anchor_btc_agg_root'', JStr (ba_AnchorBtcAggRoot x)),
     (''btctx_id'', JStr (ba_BtcTxID x))]"

definition jd_BtcA :: "BtcA jdec" where
  "jd_BtcA = jd_struct
     [(''anchor_btc_agg_root'', jfield jd_string ba_AnchorBtcAggRoot ba_AnchorBtcAggRoot_update),
      (''btctx_id'', jfield jd_string ba_BtcTxID ba_BtcTxID_update)]"

definition BtcA_ok :: "BtcA \<Rightarrow> bool" where
  "BtcA_ok x \<longleftrightarrow> ascii (ba_AnchorBtcAggRoot x) \<and> ascii (ba_BtcTxID x)"

lemma jd_BtcA_json [codec_simps]: "BtcA_ok x \<Longrightarrow> jd_BtcA (BtcA_json x) BtcA_zero = (x, False)"
  by (cases x) (simp add: jd_BtcA_def BtcA_json_def BtcA_ok_def BtcA_zero_def jd_simps_struct)

lemma BtcA_json_wf [codec_simps]: "BtcA_ok x \<Longrightarrow> json_wf (BtcA_json x)"
  by (auto simp: BtcA_json_def BtcA_ok_def jomit_def)

definition BtcA_marshal :: "BtcA \<Rightarrow> string" where
  "BtcA_marshal x = json_print (BtcA_json x)"

interpretation BtcA_codec: json_codec BtcA_json BtcA_marshal jd_BtcA BtcA_zero BtcA_ok
  by unfold_locales (simp_all add: BtcA_marshal_def codec_simps)

text \<open>A submitted hash.\<close>

record HashItem =
  hi_ProofID :: string
  hi_Hash :: string

definition HashItem_zero :: HashItem where
  "HashItem_zero = \<lparr>hi_ProofID = [], hi_Hash = []\<rparr>"

definition HashItem_json :: "HashItem \<Rightarrow> json" where
  "HashItem_json x = JObj [(''proof_id'', JStr (hi_ProofID x)),
     (''hash'', JStr (hi_Hash x))]"

definition jd_HashItem :: "HashItem jdec" where
  "jd_HashItem = jd_struct
     [(''proof_id'', jfield jd_string hi_ProofID hi_ProofID_update),
      (''hash'', jfield jd_string hi_Hash hi_Hash_update)]"

definition HashItem_ok :: "HashItem \<Rightarrow> bool" where
  "HashItem_ok x \<longleftrightarrow> ascii (hi_ProofID x) \<and> ascii (hi_Hash x)"

lemma jd_HashItem_json [codec_simps]: "HashItem_ok x \<Longrightarrow> jd_HashItem (HashItem_json x) HashItem_zero = (x, False)"
  by (cases x) (simp add: jd_HashItem_def HashItem_json_def HashItem_ok_def HashItem_zero_def jd_simps_struct)

lemma HashItem_json_wf [codec_simps]: "HashItem_ok x \<Longrightarrow> json_wf (HashItem_json x)"
  by (auto simp: HashItem_json_def HashItem_ok_def jomit_def)

definition HashItem_marshal :: "HashItem \<Rightarrow> string" where
  "HashItem_marshal x = json_print (HashItem_json x)"

interpretation HashItem_codec: json_codec HashItem_json HashItem_marshal jd_HashItem HashItem_zero HashItem_ok
  by unfold_locales (simp_all add: HashItem_marshal_def codec_simps)

text \<open>The proof segment from a hash to its aggregation root.\<close>

record AggState =
  as_ProofID :: string
  as_Hash :: string
  as_AggID :: string
  as_AggState :: string
  as_AggRoot :: string

definition AggState_zero :: AggState where
  "AggState_zero = \<lparr>as_ProofID = [], as_Hash = [], as_AggID = [], as_AggState = [], as_AggRoot = []\<rparr>"

definition AggState_json :: "AggState \<Rightarrow> json" where
  "AggState_json x = JObj [(''proof_id'', JStr (as_ProofID x)),
     (''hash'', JStr (as_Hash x)),
     (''agg_id'', JStr (as_AggID x)),
     (''agg_state'', JStr (as_AggState x)),
     (''agg_root'', JStr (as_AggRoot x))]"

definition jd_AggState :: "AggState jdec" where
  "jd_AggState = jd_struct
     [(''proof_id'', jfield jd_string as_ProofID as_ProofID_update),
      (''hash'', jfield jd_string as_Hash as_Hash_update),
      (''agg_id'', jfield jd_string as_AggID as_AggID_update),
      (''agg_state'', jfield jd_string as_AggState as_AggState_update),
      (''agg_root'', jfield jd_string as_AggRoot as_AggRoot_update)]"

definition AggState_ok :: "AggState \<Rightarrow> bool" where
  "AggState_ok x \<longleftrightarrow> ascii (as_ProofID x) \<and> ascii (as_Hash x) \<and> ascii (as_AggID x) \<and> ascii (as_AggState x) \<and> ascii (as_AggRoot x)"

lemma jd_AggState_json [codec_simps]: "AggState_ok x \<Longrightarrow> jd_AggState (AggState_json x) AggState_zero = (x, False)"
  by (cases x) (simp add: jd_AggState_def AggState_json_def AggState_ok_def AggState_zero_def jd_simps_struct)

lemma AggState_json_wf [codec_simps]: "AggState_ok x \<Longrightarrow> json_wf (AggState_json x)"
  by (auto simp: AggState_json_def AggState_ok_def jomit_def)

definition AggState_marshal :: "AggState \<Rightarrow> string" where
  "AggState_marshal x = json_print (AggState_json x)"

interpretation AggState_codec: json_codec AggState_json AggState_marshal jd_AggState AggState_zero AggState_ok
  by unfold_locales (simp_all add: AggState_marshal_def codec_simps)

text \<open>The proof segment from an aggregation root to a calendar root.\<close>

record CalStateObject =
  cso_AggID :: string
  cso_CalId :: string
  cso_CalState :: string

definition CalStateObject_zero :: CalStateObject where
  "CalStateObject_zero = \<lparr>cso_AggID = [], cso_CalId = [], cso_CalState = []\<rparr>"

definition CalStateObject_json :: "CalStateObject \<Rightarrow> json" where
  "CalStateObject_json x = JObj [(''agg_id'', JStr (cso_AggID x)),
     (''cal_id'', JStr (cso_CalId x)),
     (''cal_state'', JStr (cso_CalState x))]"

definition jd_CalStateObject :: "CalStateObject jdec" where
  "jd_CalStateObject = jd_struct
     [(''agg_id'', jfield jd_string cso_AggID cso_AggID_update),
      (''cal_id'', jfield jd_string cso_CalId cso_CalId_update),
      (''cal_state'', jfield jd_string cso_CalState cso_CalState_update)]"

definition CalStateObject_ok :: "CalStateObject \<Rightarrow> bool" where
  "CalStateObject_ok x \<longleftrightarrow> ascii (cso_AggID x) \<and> ascii (cso_CalId x) \<and> ascii (cso_CalState x)"

lemma jd_CalStateObject_json [codec_simps]: "CalStateObject_ok x \<Longrightarrow> jd_CalStateObject (CalStateObject_json x) CalStateObject_zero = (x, False)"
  by (cases x) (simp add: jd_CalStateObject_def CalStateObject_json_def CalStateObject_ok_def CalStateObject_zero_def jd_simps_struct)

lemma CalStateObject_json_wf [codec_simps]: "CalStateObject_ok x \<Longrightarrow> json_wf (CalStateObject_json x)"
  by (auto simp: CalStateObject_json_def CalStateObject_ok_def jomit_def)

definition CalStateObject_marshal :: "CalStateObject \<Rightarrow> string" where
  "CalStateObject_marshal x = json_print (CalStateObject_json x)"

interpretation CalStateObject_codec: json_codec CalStateObject_json CalStateObject_marshal jd_CalStateObject CalStateObject_zero CalStateObject_ok
  by unfold_locales (simp_all add: CalStateObject_marshal_def codec_simps)

text \<open>The proof segment from a calendar root to the root of a Bitcoin anchor.\<close>

record AnchorBtcAggState =
  aba_CalId :: string
  aba_AnchorBtcAggId :: string
  aba_AnchorBtcAggState :: string

definition AnchorBtcAggState_zero :: AnchorBtcAggState where
  "AnchorBtcAggState_zero = \<lparr>aba_CalId = [], aba_AnchorBtcAggId = [], aba_AnchorBtcAggState = []\<rparr>"

definition AnchorBtcAggState_json :: "AnchorBtcAggState \<Rightarrow> json" where
  "AnchorBtcAggState_json x = JObj [(''cal_id'', JStr (aba_CalId x)),
     (''anchor_btc_agg_id'', JStr (aba_AnchorBtcAggId x)),
     (''anchor_btc_agg_state'', JStr (aba_AnchorBtcAggState x))]"

definition jd_AnchorBtcAggState :: "AnchorBtcAggState jdec" where
  "jd_AnchorBtcAggState = jd_struct
     [(''cal_id'', jfield jd_string aba_CalId aba_CalId_update),
      (''anchor_btc_agg_id'', jfield jd_string aba_AnchorBtcAggId aba_AnchorBtcAggId_update),
      (''anchor_btc_agg_state'', jfield jd_string aba_AnchorBtcAggState aba_AnchorBtcAggState_update)]"

definition AnchorBtcAggState_ok :: "AnchorBtcAggState \<Rightarrow> bool" where
  "AnchorBtcAggState_ok x \<longleftrightarrow> ascii (aba_CalId x) \<and> ascii (aba_AnchorBtcAggId x) \<and> ascii (aba_AnchorBtcAggState x)"

lemma jd_AnchorBtcAggState_json [codec_simps]: "AnchorBtcAggState_ok x \<Longrightarrow> jd_AnchorBtcAggState (AnchorBtcAggState_json x) AnchorBtcAggState_zero = (x, False)"
  by (cases x) (simp add: jd_AnchorBtcAggState_def AnchorBtcAggState_json_def AnchorBtcAggState_ok_def AnchorBtcAggState_zero_def jd_simps_struct)

lemma AnchorBtcAggState_json_wf [codec_simps]: "AnchorBtcAggState_ok x \<Longrightarrow> json_wf (AnchorBtcAggState_json x)"
  by (auto simp: AnchorBtcAggState_json_def AnchorBtcAggState_ok_def jomit_def)

definition AnchorBtcAggState_marshal :: "AnchorBtcAggState \<Rightarrow> string" where
  "AnchorBtcAggState_marshal x = json_print (AnchorBtcAggState_json x)"

interpretation AnchorBtcAggState_codec: json_codec AnchorBtcAggState_json AnchorBtcAggState_marshal jd_AnchorBtcAggState AnchorBtcAggState_zero AnchorBtcAggState_ok
  by unfold_locales (simp_all add: AnchorBtcAggState_marshal_def codec_simps)

text \<open>The proof segment from an anchor root to its Bitcoin transaction id.\<close>

record AnchorBtcTxState =
  abt_AnchorBtcAggId :: string
  abt_BtcTxId :: string
  abt_BtcTxState :: string

definition AnchorBtcTxState_zero :: AnchorBtcTxState where
  "AnchorBtcTxState_zero = \<lparr>abt_AnchorBtcAggId = [], abt_BtcTxId = [], abt_BtcTxState = []\<rparr>"

definition AnchorBtcTxState_json :: "AnchorBtcTxState \<Rightarrow> json" where
  "AnchorBtcTxState_json x = JObj [(''anchor_btc_agg_id'', JStr (abt_AnchorBtcAggId x)),
     (''btctx_id'', JStr (abt_BtcTxId x)),
     (''btctx_state'', JStr (abt_BtcTxState x))]"

definition jd_AnchorBtcTxState :: "AnchorBtcTxState jdec" where
  "jd_AnchorBtcTxState = jd_struct
     [(''anchor_btc_agg_id'', jfield jd_string abt_AnchorBtcAggId abt_AnchorBtcAggId_update),
      (''btctx_id'', jfield jd_string abt_BtcTxId abt_BtcTxId_update),
      (''btctx_state'', jfield jd_string abt_BtcTxState abt_BtcTxState_update)]"

definition AnchorBtcTxState_ok :: "AnchorBtcTxState \<Rightarrow> bool" where
  "AnchorBtcTxState_ok x \<longleftrightarrow> ascii (abt_AnchorBtcAggId x) \<and> ascii (abt_BtcTxId x) \<and> ascii (abt_BtcTxState x)"

lemma jd_AnchorBtcTxState_json [codec_simps]: "AnchorBtcTxState_ok x \<Longrightarrow> jd_AnchorBtcTxState (AnchorBtcTxState_json x) AnchorBtcTxState_zero = (x, False)"
  by (cases x) (simp add: jd_AnchorBtcTxState_def AnchorBtcTxState_json_def AnchorBtcTxState_ok_def AnchorBtcTxState_zero_def jd_simps_struct)

lemma AnchorBtcTxState_json_wf [codec_simps]: "AnchorBtcTxState_ok x \<Longrightarrow> json_wf (AnchorBtcTxState_json x)"
  by (auto simp: AnchorBtcTxState_json_def AnchorBtcTxState_ok_def jomit_def)

definition AnchorBtcTxState_marshal :: "AnchorBtcTxState \<Rightarrow> string" where
  "AnchorBtcTxState_marshal x = json_print (AnchorBtcTxState_json x)"

interpretation AnchorBtcTxState_codec: json_codec AnchorBtcTxState_json AnchorBtcTxState_marshal jd_AnchorBtcTxState AnchorBtcTxState_zero AnchorBtcTxState_ok
  by unfold_locales (simp_all add: AnchorBtcTxState_marshal_def codec_simps)

text \<open>The proof segment from a Bitcoin transaction id to the root of its block.\<close>

record AnchorBtcHeadState =
  abh_BtcTxId :: string
  abh_BtcHeadHeight :: int
  abh_BtcHeadState :: string

definition AnchorBtcHeadState_zero :: AnchorBtcHeadState where
  "AnchorBtcHeadState_zero = \<lparr>abh_BtcTxId = [], abh_BtcHeadHeight = 0, abh_BtcHeadState = []\<rparr>"

definition AnchorBtcHeadState_json :: "AnchorBtcHeadState \<Rightarrow> json" where
  "AnchorBtcHeadState_json x = JObj [(''btctx_id'', JStr (abh_BtcTxId x)),
     (''btchead_height'', jint (abh_BtcHeadHeight x)),
     (''btchead_state'', JStr (abh_BtcHeadState x))]"

definition jd_AnchorBtcHeadState :: "AnchorBtcHeadState jdec" where
  "jd_AnchorBtcHeadState = jd_struct
     [(''btctx_id'', jfield jd_string abh_BtcTxId abh_BtcTxId_update),
      (''btchead_height'', jfield jd_int abh_BtcHeadHeight abh_BtcHeadHeight_update),
      (''btchead_state'', jfield jd_string abh_BtcHeadState abh_BtcHeadState_update)]"

definition AnchorBtcHeadState_ok :: "AnchorBtcHeadState \<Rightarrow> bool" where
  "AnchorBtcHeadState_ok x \<longleftrightarrow> ascii (abh_BtcTxId x) \<and> is_i64 (abh_BtcHeadHeight x) \<and> ascii (abh_BtcHeadState x)"

lemma jd_AnchorBtcHeadState_json [codec_simps]: "AnchorBtcHeadState_ok x \<Longrightarrow> jd_AnchorBtcHeadState (AnchorBtcHeadState_json x) AnchorBtcHeadState_zero = (x, False)"
  by (cases x) (simp add: jd_AnchorBtcHeadState_def AnchorBtcHeadState_json_def AnchorBtcHeadState_ok_def AnchorBtcHeadState_zero_def jd_simps_struct)

lemma AnchorBtcHeadState_json_wf [codec_simps]: "AnchorBtcHeadState_ok x \<Longrightarrow> json_wf (AnchorBtcHeadState_json x)"
  by (auto simp: AnchorBtcHeadState_json_def AnchorBtcHeadState_ok_def jomit_def)

definition AnchorBtcHeadState_marshal :: "AnchorBtcHeadState \<Rightarrow> string" where
  "AnchorBtcHeadState_marshal x = json_print (AnchorBtcHeadState_json x)"

interpretation AnchorBtcHeadState_codec: json_codec AnchorBtcHeadState_json AnchorBtcHeadState_marshal jd_AnchorBtcHeadState AnchorBtcHeadState_zero AnchorBtcHeadState_ok
  by unfold_locales (simp_all add: AnchorBtcHeadState_marshal_def codec_simps)

text \<open>A finished proof, as stored.\<close>

record ProofState =
  ps_ProofID :: string
  ps_Proof :: string

definition ProofState_zero :: ProofState where
  "ProofState_zero = \<lparr>ps_ProofID = [], ps_Proof = []\<rparr>"

definition ProofState_json :: "ProofState \<Rightarrow> json" where
  "ProofState_json x = JObj [(''proof_id'', JStr (ps_ProofID x)),
     (''proof'', JStr (ps_Proof x))]"

definition jd_ProofState :: "ProofState jdec" where
  "jd_ProofState = jd_struct
     [(''proof_id'', jfield jd_string ps_ProofID ps_ProofID_update),
      (''proof'', jfield jd_string ps_Proof ps_Proof_update)]"

definition ProofState_ok :: "ProofState \<Rightarrow> bool" where
  "ProofState_ok x \<longleftrightarrow> ascii (ps_ProofID x) \<and> ascii (ps_Proof x)"

lemma jd_ProofState_json [codec_simps]: "ProofState_ok x \<Longrightarrow> jd_ProofState (ProofState_json x) ProofState_zero = (x, False)"
  by (cases x) (simp add: jd_ProofState_def ProofState_json_def ProofState_ok_def ProofState_zero_def jd_simps_struct)

lemma ProofState_json_wf [codec_simps]: "ProofState_ok x \<Longrightarrow> json_wf (ProofState_json x)"
  by (auto simp: ProofState_json_def ProofState_ok_def jomit_def)

definition ProofState_marshal :: "ProofState \<Rightarrow> string" where
  "ProofState_marshal x = json_print (ProofState_json x)"

interpretation ProofState_codec: json_codec ProofState_json ProofState_marshal jd_ProofState ProofState_zero ProofState_ok
  by unfold_locales (simp_all add: ProofState_marshal_def codec_simps)

text \<open>An anchor under way: kept until it is confirmed or given up.\<close>

record AnchorRange =
  ar_AnchorBtcAggRoot :: string
  ar_CalBlockHeight :: int
  ar_BtcBlockHeight :: int
  ar_BeginCalTxInt :: int
  ar_EndCalTxInt :: int
  ar_AmLeader :: bool

definition AnchorRange_zero :: AnchorRange where
  "AnchorRange_zero = \<lparr>ar_AnchorBtcAggRoot = [], ar_CalBlockHeight = 0, ar_BtcBlockHeight = 0, ar_BeginCalTxInt = 0, ar_EndCalTxInt = 0, ar_AmLeader = False\<rparr>"

definition AnchorRange_json :: "AnchorRange \<Rightarrow> json" where
  "AnchorRange_json x = JObj [(''anchor_btc_agg_root'', JStr (ar_AnchorBtcAggRoot x)),
     (''cal_block_height'', jint (ar_CalBlockHeight x)),
     (''btc_block_height'', jint (ar_BtcBlockHeight x)),
     (''begin_cal_int'', jint (ar_BeginCalTxInt x)),
     (''end_cal_int'', jint (ar_EndCalTxInt x)),
     (''am_leader'', JBool (ar_AmLeader x))]"

definition jd_AnchorRange :: "AnchorRange jdec" where
  "jd_AnchorRange = jd_struct
     [(''anchor_btc_agg_root'', jfield jd_string ar_AnchorBtcAggRoot ar_AnchorBtcAggRoot_update),
      (''cal_block_height'', jfield jd_int ar_CalBlockHeight ar_CalBlockHeight_update),
      (''btc_block_height'', jfield jd_int ar_BtcBlockHeight ar_BtcBlockHeight_update),
      (''begin_cal_int'', jfield jd_int ar_BeginCalTxInt ar_BeginCalTxInt_update),
      (''end_cal_int'', jfield jd_int ar_EndCalTxInt ar_EndCalTxInt_update),
      (''am_leader'', jfield jd_bool ar_AmLeader ar_AmLeader_update)]"

definition AnchorRange_ok :: "AnchorRange \<Rightarrow> bool" where
  "AnchorRange_ok x \<longleftrightarrow> ascii (ar_AnchorBtcAggRoot x) \<and> is_i64 (ar_CalBlockHeight x) \<and> is_i64 (ar_BtcBlockHeight x) \<and> is_i64 (ar_BeginCalTxInt x) \<and> is_i64 (ar_EndCalTxInt x)"

lemma jd_AnchorRange_json [codec_simps]: "AnchorRange_ok x \<Longrightarrow> jd_AnchorRange (AnchorRange_json x) AnchorRange_zero = (x, False)"
  by (cases x) (simp add: jd_AnchorRange_def AnchorRange_json_def AnchorRange_ok_def AnchorRange_zero_def jd_simps_struct)

lemma AnchorRange_json_wf [codec_simps]: "AnchorRange_ok x \<Longrightarrow> json_wf (AnchorRange_json x)"
  by (auto simp: AnchorRange_json_def AnchorRange_ok_def jomit_def)

definition AnchorRange_marshal :: "AnchorRange \<Rightarrow> string" where
  "AnchorRange_marshal x = json_print (AnchorRange_json x)"

interpretation AnchorRange_codec: json_codec AnchorRange_json AnchorRange_marshal jd_AnchorRange AnchorRange_zero AnchorRange_ok
  by unfold_locales (simp_all add: AnchorRange_marshal_def codec_simps)

text \<open>The meta data of a BTC-A transaction: a Bitcoin transaction that carries an anchor root.\<close>

record BtcTxMsg =
  btm_AnchorBtcAggID :: string
  btm_AnchorBtcAggRoot :: string
  btm_BtcTxID :: string
  btm_BtcTxBody :: string
  btm_BtcTxHeight :: int
  btm_CalBlockHeight :: int
  btm_BeginCalTxInt :: int
  btm_EndCalTxInt :: int

definition BtcTxMsg_zero :: BtcTxMsg where
  "BtcTxMsg_zero = \<lparr>btm_AnchorBtcAggID = [], btm_AnchorBtcAggRoot = [], btm_BtcTxID = [], btm_BtcTxBody = [], btm_BtcTxHeight = 0, btm_CalBlockHeight = 0, btm_BeginCalTxInt = 0, btm_EndCalTxInt = 0\<rparr>"

definition BtcTxMsg_json :: "BtcTxMsg \<Rightarrow> json" where
  "BtcTxMsg_json x = JObj [(''anchor_btc_agg_id'', JStr (btm_AnchorBtcAggID x)),
     (''anchor_btc_agg_root'', JStr (btm_AnchorBtcAggRoot x)),
     (''btctx_id'', JStr (btm_BtcTxID x)),
     (''btctx_body'', JStr (btm_BtcTxBody x)),
     (''btctx_height'', jint (btm_BtcTxHeight x)),
     (''cal_block_height'', jint (btm_CalBlockHeight x)),
     (''begin_cal_int'', jint (btm_BeginCalTxInt x)),
     (''end_cal_int'', jint (btm_EndCalTxInt x))]"

definition jd_BtcTxMsg :: "BtcTxMsg jdec" where
  "jd_BtcTxMsg = jd_struct
     [(''anchor_btc_agg_id'', jfield jd_string btm_AnchorBtcAggID btm_AnchorBtcAggID_update),
      (''anchor_btc_agg_root'', jfield jd_string btm_AnchorBtcAggRoot btm_AnchorBtcAggRoot_update),
      (''btctx_id'', jfield jd_string btm_BtcTxID btm_BtcTxID_update),
      (''btctx_body'', jfield jd_string btm_BtcTxBody btm_BtcTxBody_update),
      (''btctx_height'', jfield jd_int btm_BtcTxHeight btm_BtcTxHeight_update),
      (''cal_block_height'', jfield jd_int btm_CalBlockHeight btm_CalBlockHeight_update),
      (''begin_cal_int'', jfield jd_int btm_BeginCalTxInt btm_BeginCalTxInt_update),
      (''end_cal_int'', jfield jd_int btm_EndCalTxInt btm_EndCalTxInt_update)]"

definition BtcTxMsg_ok :: "BtcTxMsg \<Rightarrow> bool" where
  "BtcTxMsg_ok x \<longleftrightarrow> ascii (btm_AnchorBtcAggID x) \<and> ascii (btm_AnchorBtcAggRoot x) \<and> ascii (btm_BtcTxID x) \<and> ascii (btm_BtcTxBody x) \<and> is_i64 (btm_BtcTxHeight x) \<and> is_i64 (btm_CalBlockHeight x) \<and> is_i64 (btm_BeginCalTxInt x) \<and> is_i64 (btm_EndCalTxInt x)"

lemma jd_BtcTxMsg_json [codec_simps]: "BtcTxMsg_ok x \<Longrightarrow> jd_BtcTxMsg (BtcTxMsg_json x) BtcTxMsg_zero = (x, False)"
  by (cases x) (simp add: jd_BtcTxMsg_def BtcTxMsg_json_def BtcTxMsg_ok_def BtcTxMsg_zero_def jd_simps_struct)

lemma BtcTxMsg_json_wf [codec_simps]: "BtcTxMsg_ok x \<Longrightarrow> json_wf (BtcTxMsg_json x)"
  by (auto simp: BtcTxMsg_json_def BtcTxMsg_ok_def jomit_def)

definition BtcTxMsg_marshal :: "BtcTxMsg \<Rightarrow> string" where
  "BtcTxMsg_marshal x = json_print (BtcTxMsg_json x)"

interpretation BtcTxMsg_codec: json_codec BtcTxMsg_json BtcTxMsg_marshal jd_BtcTxMsg BtcTxMsg_zero BtcTxMsg_ok
  by unfold_locales (simp_all add: BtcTxMsg_marshal_def codec_simps)

text \<open>A Bitcoin transaction waiting for confirmations.\<close>

record TxID =
  tid_TxID :: string
  tid_BlockHeight :: int
  tid_AnchorBtcAggRoot :: string

definition TxID_zero :: TxID where
  "TxID_zero = \<lparr>tid_TxID = [], tid_BlockHeight = 0, tid_AnchorBtcAggRoot = []\<rparr>"

definition TxID_json :: "TxID \<Rightarrow> json" where
  "TxID_json x = JObj [(''tx_id'', JStr (tid_TxID x)),
     (''block_height'', jint (tid_BlockHeight x)),
     (''anchor_btc_agg_root'', JStr (tid_AnchorBtcAggRoot x))]"

definition jd_TxID :: "TxID jdec" where
  "jd_TxID = jd_struct
     [(''tx_id'', jfield jd_string tid_TxID tid_TxID_update),
      (''block_height'', jfield jd_int tid_BlockHeight tid_BlockHeight_update),
      (''anchor_btc_agg_root'', jfield jd_string tid_AnchorBtcAggRoot tid_AnchorBtcAggRoot_update)]"

definition TxID_ok :: "TxID \<Rightarrow> bool" where
  "TxID_ok x \<longleftrightarrow> ascii (tid_TxID x) \<and> is_i64 (tid_BlockHeight x) \<and> ascii (tid_AnchorBtcAggRoot x)"

lemma jd_TxID_json [codec_simps]: "TxID_ok x \<Longrightarrow> jd_TxID (TxID_json x) TxID_zero = (x, False)"
  by (cases x) (simp add: jd_TxID_def TxID_json_def TxID_ok_def TxID_zero_def jd_simps_struct)

lemma TxID_json_wf [codec_simps]: "TxID_ok x \<Longrightarrow> json_wf (TxID_json x)"
  by (auto simp: TxID_json_def TxID_ok_def jomit_def)

definition TxID_marshal :: "TxID \<Rightarrow> string" where
  "TxID_marshal x = json_print (TxID_json x)"

interpretation TxID_codec: json_codec TxID_json TxID_marshal jd_TxID TxID_zero TxID_ok
  by unfold_locales (simp_all add: TxID_marshal_def codec_simps)

text \<open>A confirmed Bitcoin transaction, with its path to the block root.\<close>

record BtcMonMsg =
  bmm_BtcTxID :: string
  bmm_BtcHeadHeight :: int
  bmm_BtcHeadRoot :: string
  bmm_Path :: "JSProof list"

definition BtcMonMsg_zero :: BtcMonMsg where
  "BtcMonMsg_zero = \<lparr>bmm_BtcTxID = [], bmm_BtcHeadHeight = 0, bmm_BtcHeadRoot = [], bmm_Path = []\<rparr>"

definition BtcMonMsg_json :: "BtcMonMsg \<Rightarrow> json" where
  "BtcMonMsg_json x = JObj [(''btctx_id'', JStr (bmm_BtcTxID x)),
     (''btchead_height'', jint (bmm_BtcHeadHeight x)),
     (''btchead_root'', JStr (bmm_BtcHeadRoot x)),
     (''path'', JArr (map JSProof_json (bmm_Path x)))]"

definition jd_BtcMonMsg :: "BtcMonMsg jdec" where
  "jd_BtcMonMsg = jd_struct
     [(''btctx_id'', jfield jd_string bmm_BtcTxID bmm_BtcTxID_update),
      (''btchead_height'', jfield jd_int bmm_BtcHeadHeight bmm_BtcHeadHeight_update),
      (''btchead_root'', jfield jd_string bmm_BtcHeadRoot bmm_BtcHeadRoot_update),
      (''path'', jfield (jd_list jd_JSProof JSProof_zero) bmm_Path bmm_Path_update)]"

definition BtcMonMsg_ok :: "BtcMonMsg \<Rightarrow> bool" where
  "BtcMonMsg_ok x \<longleftrightarrow> ascii (bmm_BtcTxID x) \<and> is_i64 (bmm_BtcHeadHeight x) \<and> ascii (bmm_BtcHeadRoot x) \<and> list_all JSProof_ok (bmm_Path x)"

lemma jd_BtcMonMsg_json [codec_simps]: "BtcMonMsg_ok x \<Longrightarrow> jd_BtcMonMsg (BtcMonMsg_json x) BtcMonMsg_zero = (x, False)"
  by (cases x) (simp add: jd_BtcMonMsg_def BtcMonMsg_json_def BtcMonMsg_ok_def BtcMonMsg_zero_def jd_simps_struct JSProof_codec.jd_list_to_json)

lemma BtcMonMsg_json_wf [codec_simps]: "BtcMonMsg_ok x \<Longrightarrow> json_wf (BtcMonMsg_json x)"
  by (auto simp: BtcMonMsg_json_def BtcMonMsg_ok_def jomit_def list_all_iff codec_simps)

definition BtcMonMsg_marshal :: "BtcMonMsg \<Rightarrow> string" where
  "BtcMonMsg_marshal x = json_print (BtcMonMsg_json x)"

interpretation BtcMonMsg_codec: json_codec BtcMonMsg_json BtcMonMsg_marshal jd_BtcMonMsg BtcMonMsg_zero BtcMonMsg_ok
  by unfold_locales (simp_all add: BtcMonMsg_marshal_def codec_simps)

text \<open>The Lightning identity of a Core.\<close>

record LnIdentity =
  Peer :: string
  RequiredChanAmt :: int

definition LnIdentity_zero :: LnIdentity where
  "LnIdentity_zero = \<lparr>Peer = [], RequiredChanAmt = 0\<rparr>"

definition LnIdentity_json :: "LnIdentity \<Rightarrow> json" where
  "LnIdentity_json x = JObj [(''peer'', JStr (Peer x)),
     (''required_satoshis'', jint (RequiredChanAmt x))]"

definition jd_LnIdentity :: "LnIdentity jdec" where
  "jd_LnIdentity = jd_struct
     [(''peer'', jfield jd_string Peer Peer_update),
      (''required_satoshis'', jfield jd_int RequiredChanAmt RequiredChanAmt_update)]"

definition LnIdentity_ok :: "LnIdentity \<Rightarrow> bool" where
  "LnIdentity_ok x \<longleftrightarrow> ascii (Peer x) \<and> is_i64 (RequiredChanAmt x)"

lemma jd_LnIdentity_json [codec_simps]: "LnIdentity_ok x \<Longrightarrow> jd_LnIdentity (LnIdentity_json x) LnIdentity_zero = (x, False)"
  by (cases x) (simp add: jd_LnIdentity_def LnIdentity_json_def LnIdentity_ok_def LnIdentity_zero_def jd_simps_struct)

lemma LnIdentity_json_wf [codec_simps]: "LnIdentity_ok x \<Longrightarrow> json_wf (LnIdentity_json x)"
  by (auto simp: LnIdentity_json_def LnIdentity_ok_def jomit_def)

definition LnIdentity_marshal :: "LnIdentity \<Rightarrow> string" where
  "LnIdentity_marshal x = json_print (LnIdentity_json x)"

interpretation LnIdentity_codec: json_codec LnIdentity_json LnIdentity_marshal jd_LnIdentity LnIdentity_zero LnIdentity_ok
  by unfold_locales (simp_all add: LnIdentity_marshal_def codec_simps)

text \<open>A public key as a JSON Web Key.\<close>

record Jwk =
  Kty :: string
  Kid :: string
  Crv :: string
  jwk_X :: string
  jwk_Y :: string

definition Jwk_zero :: Jwk where
  "Jwk_zero = \<lparr>Kty = [], Kid = [], Crv = [], jwk_X = [], jwk_Y = []\<rparr>"

definition Jwk_json :: "Jwk \<Rightarrow> json" where
  "Jwk_json x = JObj [(''kty'', JStr (Kty x)),
     (''kid'', JStr (Kid x)),
     (''crv'', JStr (Crv x)),
     (''x'', JStr (jwk_X x)),
     (''y'', JStr (jwk_Y x))]"

definition jd_Jwk :: "Jwk jdec" where
  "jd_Jwk = jd_struct
     [(''kty'', jfield jd_string Kty Kty_update),
      (''kid'', jfield jd_string Kid Kid_update),
      (''crv'', jfield jd_string Crv Crv_update),
      (''x'', jfield jd_string jwk_X jwk_X_update),
      (''y'', jfield jd_string jwk_Y jwk_Y_update)]"

definition Jwk_ok :: "Jwk \<Rightarrow> bool" where
  "Jwk_ok x \<longleftrightarrow> ascii (Kty x) \<and> ascii (Kid x) \<and> ascii (Crv x) \<and> ascii (jwk_X x) \<and> ascii (jwk_Y x)"

lemma jd_Jwk_json [codec_simps]: "Jwk_ok x \<Longrightarrow> jd_Jwk (Jwk_json x) Jwk_zero = (x, False)"
  by (cases x) (simp add: jd_Jwk_def Jwk_json_def Jwk_ok_def Jwk_zero_def jd_simps_struct)

lemma Jwk_json_wf [codec_simps]: "Jwk_ok x \<Longrightarrow> json_wf (Jwk_json x)"
  by (auto simp: Jwk_json_def Jwk_ok_def jomit_def)

definition Jwk_marshal :: "Jwk \<Rightarrow> string" where
  "Jwk_marshal x = json_print (Jwk_json x)"

interpretation Jwk_codec: json_codec Jwk_json Jwk_marshal jd_Jwk Jwk_zero Jwk_ok
  by unfold_locales (simp_all add: Jwk_marshal_def codec_simps)

text \<open>
  Structs that are passed inside one process and never marshalled.
\<close>

record TxTm =
  tm_Hash :: bytes
  tm_Data :: bytes

record ProofData =
  pd_ProofID :: string
  pd_Hash :: string
  pd_Proof :: "ProofLineItem list"

record Aggregation =
  AggID :: string
  AggRoot :: string
  AggStates :: "AggState list"

record CalProofData =
  cpd_AggID :: string
  cpd_Proof :: "ProofLineItem list"

record CalAgg =
  CalRoot :: string
  ca_ProofData :: "CalProofData list"

record BtcProofData =
  bpd_CalID :: string
  bpd_Proof :: "ProofLineItem list"

record BtcAgg =
  ba_AnchorBtcAggID :: string
  ba_AggRoot :: string
  ba_ProofData :: "BtcProofData list"

subsection \<open>Rate limits and the validation record of a Core\<close>

text \<open>The token bucket; \<open>Bucket\<close> is a \<open>float32\<close>.\<close>

record RateLimit =
  AllowedRate :: int
  PerBlocks :: int
  LastCheck :: int
  Bucket :: f32

definition RateLimit_zero :: RateLimit where
  "RateLimit_zero = \<lparr>AllowedRate = 0, PerBlocks = 0, LastCheck = 0, Bucket = Fin 0\<rparr>"

record TxValidation =
  LastJWKTxHeight :: int
  JWKAllowedRate :: RateLimit
  JWKSubmissions :: int
  LastCalTxHeight :: int
  CalAllowedRate :: RateLimit
  CalValidationSuccess :: int
  CalValidationFailures :: int
  LastBtcaTxHeight :: int
  ConfirmedAnchors :: int
  FailedAnchors :: int
  BtcaAllowedRate :: RateLimit
  LastBtccTxHeight :: int
  BtccAllowedRate :: RateLimit
  LastNISTTxHeight :: int
  NISTAllowedRate :: RateLimit
  LastFeeTxHeight :: int
  FeeAllowedRate :: RateLimit
  FeeValidationFailures :: int
  UnAuthValSubmissions :: int

definition TxValidation_zero :: TxValidation where
  "TxValidation_zero = \<lparr>LastJWKTxHeight = 0, JWKAllowedRate = RateLimit_zero, JWKSubmissions = 0,
     LastCalTxHeight = 0, CalAllowedRate = RateLimit_zero, CalValidationSuccess = 0,
     CalValidationFailures = 0, LastBtcaTxHeight = 0, ConfirmedAnchors = 0, FailedAnchors = 0,
     BtcaAllowedRate = RateLimit_zero, LastBtccTxHeight = 0, BtccAllowedRate = RateLimit_zero,
     LastNISTTxHeight = 0, NISTAllowedRate = RateLimit_zero, LastFeeTxHeight = 0,
     FeeAllowedRate = RateLimit_zero, FeeValidationFailures = 0, UnAuthValSubmissions = 0\<rparr>"

subsection \<open>What the node knows of the chain and of itself\<close>

text \<open>
  The Tendermint structs are outside the repository; of their fields the model has those the
  code reads.
\<close>

text \<open>An ECDSA public key: the coordinates of its point.\<close>

record PublicKey =
  pk_X :: nat
  pk_Y :: nat

record Validator =
  val_Address :: string
  val_PubKey :: bytes
  VotingPower :: int

record NodeInfo =
  node_ID :: string
  ListenAddr :: string
  Network :: string
  Moniker :: string

record NetPeer =
  peer_NodeInfo :: NodeInfo
  RemoteIP :: string

record ResultStatus =
  ts_NodeInfo :: NodeInfo
  LatestBlockHash :: string
  LatestBlockHeight :: int
  CatchingUp :: bool
  ValidatorAddress :: string

record LnInfo =
  ln_BlockHeight :: int
  ln_Uris :: "string list"

definition NodeInfo_zero :: NodeInfo where
  "NodeInfo_zero = \<lparr>node_ID = [], ListenAddr = [], Network = [], Moniker = []\<rparr>"

definition ResultStatus_zero :: ResultStatus where
  "ResultStatus_zero = \<lparr>ts_NodeInfo = NodeInfo_zero, LatestBlockHash = [], LatestBlockHeight = 0,
     CatchingUp = False, ValidatorAddress = []\<rparr>"

definition LnInfo_zero :: LnInfo where
  "LnInfo_zero = \<lparr>ln_BlockHeight = 0, ln_Uris = []\<rparr>"

text \<open>The state of the ABCI application.\<close>

record AnchorState =
  ID :: string
  TxInt :: int
  Height :: int
  AmValidator :: bool
  AppHash :: bytes
  BeginCalTxInt :: int
  EndCalTxInt :: int
  LatestCalTxInt :: int
  CurrentCalInts :: int
  LatestBtcaTx :: bytes
  LatestBtcaTxInt :: int
  LatestBtcaHeight :: int
  LatestBtcTx :: string
  LatestBtcAggRoot :: string
  LatestBtccTx :: bytes
  LatestBtccTxInt :: int
  LatestBtccHeight :: int
  LatestErrRoot :: string
  LastElectedCoreID :: string
  LastAnchorCoreID :: string
  LastErrorCoreID :: string
  BtcHeight :: int
  TxValidations :: "string \<rightharpoonup> TxValidation"
  CoreKeys :: "string \<rightharpoonup> PublicKey"
  LnUris :: "string \<rightharpoonup> LnIdentity"
  IDMap :: "string \<rightharpoonup> string"
  Validators :: "Validator list"
  TMState :: ResultStatus
  TMNetInfo :: "NetPeer list"
  LNState :: LnInfo
  ChainSynced :: bool
  JWKStaked :: bool
  LnStakePrice :: int
  LnStakePerVal :: int
  LatestNistRecord :: string
  LatestTimeRecord :: string
  LatestBtcFee :: int
  LastBtcFeeHeight :: int
  Migrations :: "int \<rightharpoonup> string"
  AppReady :: bool

definition AnchorState_zero :: AnchorState where
  "AnchorState_zero = \<lparr>ID = [], TxInt = 0, Height = 0, AmValidator = False, AppHash = [],
     BeginCalTxInt = 0, EndCalTxInt = 0, LatestCalTxInt = 0, CurrentCalInts = 0, LatestBtcaTx = [],
     LatestBtcaTxInt = 0, LatestBtcaHeight = 0, LatestBtcTx = [], LatestBtcAggRoot = [],
     LatestBtccTx = [], LatestBtccTxInt = 0, LatestBtccHeight = 0, LatestErrRoot = [],
     LastElectedCoreID = [], LastAnchorCoreID = [], LastErrorCoreID = [], BtcHeight = 0,
     TxValidations = Map.empty, CoreKeys = Map.empty, LnUris = Map.empty, IDMap = Map.empty,
     Validators = [], TMState = ResultStatus_zero, TMNetInfo = [], LNState = LnInfo_zero,
     ChainSynced = False, JWKStaked = False, LnStakePrice = 0, LnStakePerVal = 0,
     LatestNistRecord = [], LatestTimeRecord = [], LatestBtcFee = 0, LastBtcFeeHeight = 0,
     Migrations = Map.empty, AppReady = False\<rparr>"

end
