(* ===== verification/Chp_Util.thy ===== *)
theory Chp_Util
  imports Chp_Types
begin

text \<open>
  The helpers of \<open>src/util/util.go\<close>: transaction codecs and signatures, identifiers, addresses,
  the small list routines, and the reversal of transaction ids.

  The cryptographic primitives (SHA-256, ASN.1, ECDSA) and the JWK library are outside the
  repository; they are the fields of the record \<open>Crypto\<close>, and what the code relies on is stated
  as a hypothesis on them (\<open>signer_for\<close>).
\<close>

subsection \<open>Transactions and signatures\<close>

text \<open>A key of a parsed JWK set: an elliptic-curve key, another kind of key, or one that does
  not materialize.\<close>

datatype jwk_key = EcKey PublicKey | OtherKey | BadKey string

record Crypto =
  sha256 :: "bytes \<Rightarrow> bytes"
  asn1_sig :: "bytes \<Rightarrow> (int \<times> int) option"
  ecdsa_verify :: "PublicKey \<Rightarrow> bytes \<Rightarrow> int \<times> int \<Rightarrow> bool"
  jwk_parse :: "string \<Rightarrow> err + jwk_key list"

definition first_ec_key :: "jwk_key list \<Rightarrow> err + PublicKey" where
  "first_ec_key ks =
     (case dropWhile (\<lambda>k. case k of BadKey _ \<Rightarrow> True | _ \<Rightarrow> False) ks of
        EcKey p # _ \<Rightarrow> Inr p
      | [] \<Rightarrow> Inl (Err ''unable to create public key from JWK'')
      | _ \<Rightarrow> Inl (Panic ''interface conversion''))"

text \<open>The JSON error of the transaction's data is dropped by the code: a malformed key is
  decoded as far as it goes.\<close>

definition DecodePubKey :: "Crypto \<Rightarrow> Tx \<Rightarrow> err + PublicKey" where
  "DecodePubKey cr tx =
     (let j = fst (unmarshal jd_Jwk Jwk_zero (Data tx)) in
      bind_err (jwk_parse cr (Jwk_marshal j)) first_ec_key)"

definition DecodeTx :: "bytes \<Rightarrow> Tx \<times> bool" where
  "DecodeTx incoming =
     (case b64_decode incoming of
        None \<Rightarrow> (Tx_zero, True)
      | Some decoded \<Rightarrow> unmarshal jd_Tx Tx_zero decoded)"

definition VerifySig :: "Crypto \<Rightarrow> string \<Rightarrow> string \<Rightarrow> PublicKey \<Rightarrow> bool" where
  "VerifySig cr d originalSig key =
     (case b64_decode originalSig of
        None \<Rightarrow> False
      | Some der \<Rightarrow>
          (case asn1_sig cr der of
             None \<Rightarrow> False
           | Some rs \<Rightarrow> ecdsa_verify cr key (sha256 cr d) rs))"

text \<open>\<open>sign\<close> is one call of the private key's \<open>Sign\<close>: the digest to a DER signature or an error.\<close>

type_synonym signer = "bytes \<Rightarrow> bytes option"

definition CreateSig :: "Crypto \<Rightarrow> signer \<Rightarrow> string \<Rightarrow> string" where
  "CreateSig cr sign d =
     (case sign (sha256 cr d) of None \<Rightarrow> [] | Some sig \<Rightarrow> b64_encode sig)"

definition DecodeTxAndVerifySig :: "Crypto \<Rightarrow> (string \<rightharpoonup> PublicKey) \<Rightarrow> bytes \<Rightarrow> err + Tx" where
  "DecodeTxAndVerifySig cr keys incoming =
     (case b64_decode incoming of
        None \<Rightarrow> Inl (Err ''illegal base64 data'')
      | Some decoded \<Rightarrow>
          (let calendar = fst (unmarshal jd_Tx Tx_zero decoded) in
           if TxType calendar = ''JWK'' then Inr calendar
           else
             (case keys (CoreID calendar) of
                None \<Rightarrow> Inl (Err ''Can't find corresponding key for message from Core'')
              | Some pubKey \<Rightarrow>
                  (case b64_decode (Sig calendar) of
                     None \<Rightarrow> Inl (Err ''illegal base64 data'')
                   | Some der \<Rightarrow>
                       (case asn1_sig cr der of
                          None \<Rightarrow> Inl (Err ''asn1: structure error'')
                        | Some rs \<Rightarrow>
                            if ecdsa_verify cr pubKey (sha256 cr (Tx_marshal (calendar\<lparr>Sig := []\<rparr>))) rs
                            then Inr calendar
                            else Inl (Err ''Can't validate signature of Tx from Core''))))))"

definition EncodeTxWithKey :: "Crypto \<Rightarrow> signer \<Rightarrow> Tx \<Rightarrow> string" where
  "EncodeTxWithKey cr sign outgoing =
     (case sign (sha256 cr (Tx_marshal outgoing)) of
        None \<Rightarrow> []
      | Some sig \<Rightarrow> b64_encode (Tx_marshal (outgoing\<lparr>Sig := b64_encode sig\<rparr>)))"

definition EncodeTx :: "Tx \<Rightarrow> string" where
  "EncodeTx outgoing = b64_encode (Tx_marshal outgoing)"

text \<open>\<open>jwkJson\<close> is what the JWK library makes of the public key.\<close>

definition GenerateKey :: "err + string \<Rightarrow> string \<Rightarrow> err + Jwk" where
  "GenerateKey jwkJson kid =
     (case jwkJson of
        Inl _ \<Rightarrow> Inl (Panic ''jwk'')
      | Inr s \<Rightarrow> (let (j, e) = unmarshal jd_Jwk Jwk_zero s in
          if e then Inl (Panic ''json'') else Inr (j\<lparr>Kid := kid\<rparr>)))"

text \<open>What the code relies on of a key pair: what the private key signs, the public key
  verifies, and the DER encoding reads back.\<close>

definition signer_for :: "Crypto \<Rightarrow> signer \<Rightarrow> PublicKey \<Rightarrow> bool" where
  "signer_for cr sign pk \<longleftrightarrow>
     (\<forall>h der. sign h = Some der \<longrightarrow> (\<exists>rs. asn1_sig cr der = Some rs \<and> ecdsa_verify cr pk h rs))"

lemma b64_alphabet_ascii: "list_all (\<lambda>c. code_of c < 128) b64_alphabet"
  by (simp add: b64_alphabet_def)

lemma b64_char_ascii [simp]: "n < 64 \<Longrightarrow> code_of (b64_char n) < 128"
  using b64_alphabet_ascii length_b64_alphabet by (auto simp: b64_char_def list_all_length)

lemma b64_encode_ascii [simp]: "ascii (b64_encode s)"
  by (induction s rule: b64_encode.induct)
    (simp_all add: Let_def)

lemma Tx_marshal_decode: "Tx_ok t \<Longrightarrow> DecodeTx (EncodeTx t) = (t, False)"
  by (simp add: DecodeTx_def EncodeTx_def codec_simps)

lemma Tx_ok_update_Sig [simp]: "Tx_ok (t\<lparr>Sig := s\<rparr>) \<longleftrightarrow> Tx_ok (t\<lparr>Sig := []\<rparr>) \<and> ascii s"
  by (auto simp: Tx_ok_def)

text \<open>What verification accepts.\<close>

lemma DecodeTxAndVerifySig_accepts:
  assumes "DecodeTxAndVerifySig cr keys b = Inr tx" and "TxType tx \<noteq> ''JWK''"
  obtains pk rs der where "keys (CoreID tx) = Some pk" and "b64_decode (Sig tx) = Some der"
    and "asn1_sig cr der = Some rs"
    and "ecdsa_verify cr pk (sha256 cr (Tx_marshal (tx\<lparr>Sig := []\<rparr>))) rs"
  using assms that
  by (auto simp: DecodeTxAndVerifySig_def Let_def split: option.splits if_splits)

lemma EncodeTxWithKey_verifies:
  assumes "Tx_ok t" "Sig t = []" "TxType t \<noteq> ''JWK''" "keys (CoreID t) = Some pk"
    "signer_for cr sign pk" "sign (sha256 cr (Tx_marshal t)) = Some sig"
  shows "DecodeTxAndVerifySig cr keys (EncodeTxWithKey cr sign t) = Inr (t\<lparr>Sig := b64_encode sig\<rparr>)"
proof -
  let ?t = "t\<lparr>Sig := b64_encode sig\<rparr>"
  have u: "t\<lparr>Sig := []\<rparr> = t" using assms(2) by (cases t) simp
  have ok: "Tx_ok ?t" using assms(1) by (simp add: u)
  obtain rs where "asn1_sig cr sig = Some rs" "ecdsa_verify cr pk (sha256 cr (Tx_marshal t)) rs"
    using assms(5,6) unfolding signer_for_def by blast
  then show ?thesis
    using ok assms by (simp add: DecodeTxAndVerifySig_def EncodeTxWithKey_def codec_simps u)
qed

subsection \<open>Byte strings, integers and addresses\<close>

definition is_space_re :: "char \<Rightarrow> bool" where
  "is_space_re c \<longleftrightarrow> c \<in> {CHR 0x09, CHR 0x0A, CHR 0x0C, CHR 0x0D, CHR '' ''}"

text \<open>All matches of two non-space characters, from the left, not overlapping.\<close>

fun find_pairs :: "string \<Rightarrow> string list" where
  "find_pairs (a # b # s) =
     (if \<not> is_space_re a \<and> \<not> is_space_re b then [a, b] # find_pairs s else find_pairs (b # s))"
| "find_pairs _ = []"

function swap_loop :: "nat \<Rightarrow> int \<Rightarrow> 'a list \<Rightarrow> 'a list" where
  "swap_loop i j xs =
     (if int i < j then swap_loop (i + 1) (j - 1) (xs[i := xs ! nat j, nat j := xs ! i]) else xs)"
  by pat_completeness auto
termination by (relation "measure (\<lambda>(i, j, _). nat (j - int i))") auto

definition reverseAny :: "'a list \<Rightarrow> 'a list" where
  "reverseAny s = swap_loop 0 (int (length s) - 1) s"

definition ReverseTxHex :: "string \<Rightarrow> string" where
  "ReverseTxHex str = concat (reverseAny (find_pairs str))"

definition Int64ToByte :: "int \<Rightarrow> bytes" where
  "Int64ToByte num = format_int num"

definition ByteToInt64 :: "string \<Rightarrow> int" where
  "ByteToInt64 arr = fst (parse_int arr)"

definition GetEnv :: "(string \<rightharpoonup> string) \<Rightarrow> string \<Rightarrow> string \<Rightarrow> string" where
  "GetEnv env key d = (case env key of None \<Rightarrow> d | Some v \<Rightarrow> if length v = 0 then d else v)"

definition GetIPOnly :: "string \<Rightarrow> err + string" where
  "GetIPOnly ip =
     bind_err (if contains ip ''//'' then slice_from ip (last_index_char ip (CHR ''/'') + 1) else Inr ip)
       (\<lambda>listenAddr.
          if contains listenAddr '':'' then slice_to listenAddr (last_index_char listenAddr (CHR '':''))
          else Inr listenAddr)"

definition UUIDFromHash :: "bytes \<Rightarrow> bytes option" where
  "UUIDFromHash seed = (if length seed = 16 then Some seed else None)"

definition char_in :: "string \<Rightarrow> char \<Rightarrow> bool" where
  "char_in cls c \<longleftrightarrow> c \<in> set cls"

definition hex_any :: string where
  "hex_any = ''0123456789abcdefABCDEF''"

definition IsUUID :: "string \<Rightarrow> bool" where
  "IsUUID s \<longleftrightarrow> list_all2 char_in
     (replicate 8 hex_any @ [''-''] @ replicate 4 hex_any @ [''-''] @ [''1''] @ replicate 3 hex_any @
      [''-''] @ [''89abAB''] @ replicate 3 hex_any @ [''-''] @ replicate 12 hex_any) s"

definition IsULID :: "string \<Rightarrow> bool" where
  "IsULID s \<longleftrightarrow> list_all2 char_in (replicate 26 ''0123456789ABCDEFGHJKMNPQRSTVWXYZ'') s"

definition NormalizeUri :: "string \<Rightarrow> bool \<Rightarrow> bool \<Rightarrow> bool \<Rightarrow> string" where
  "NormalizeUri uri removePort http https =
     (let p = replace_all uri ''http://'' [];
          p = replace_all p ''https://'' [];
          p = (if removePort then hd (split_on (CHR '':'') p) else p)
      in if http then ''http://'' @ p else if https then ''https://'' @ p else p)"

text \<open>The four bytes of an address, in dot notation; fewer are an index panic.\<close>

definition BytesToIP :: "bytes \<Rightarrow> err + string" where
  "BytesToIP b =
     (case b of
        b0 # b1 # b2 # b3 # _ \<Rightarrow>
          Inr (format_int (of_char b0) @ ''.'' @ format_int (of_char b1) @ ''.'' @
               format_int (of_char b2) @ ''.'' @ format_int (of_char b3))
      | _ \<Rightarrow> Inl (Panic ''index out of range''))"

definition DecodeIP :: "string \<Rightarrow> err + string" where
  "DecodeIP remote_ip =
     (case b64_decode remote_ip of
        None \<Rightarrow> Inr []
      | Some d \<Rightarrow> bind_err (slice_from d (int (length d) - 4)) BytesToIP)"

definition DetermineIP :: "NetPeer \<Rightarrow> err + string" where
  "DetermineIP p =
     bind_err (slice_to (RemoteIP p) (go_index (RemoteIP p) ''.'')) (\<lambda>firstOctet.
       if firstOctet = ''10'' \<or> firstOctet = ''172'' \<or> firstOctet = ''192'' then
         (let listenAddr = ListenAddr (peer_NodeInfo p) in
          if length listenAddr > 0 then
            (if contains listenAddr ''//'' \<and> contains listenAddr '':'' then
               slice listenAddr (last_index_char listenAddr (CHR ''/'')) (last_index_char listenAddr (CHR '':''))
             else slice_to listenAddr (last_index_char listenAddr (CHR '':'')))
          else Inr [])
       else Inr (RemoteIP p))"

definition be32 :: "bytes \<Rightarrow> 32 word" where
  "be32 b = foldl (\<lambda>w c. push_bit 8 w + word_of_nat (of_char c)) 0 (take 4 b)"

text \<open>\<open>ip\<close> has 4 or 16 bytes; \<open>Uint32\<close> of fewer than 4 is an index panic.\<close>

definition Ip2Int :: "bytes \<Rightarrow> err + 32 word" where
  "Ip2Int ip =
     (if length ip = 16 then Inr (be32 (take 4 (drop 12 ip)))
      else if length ip < 4 then Inl (Panic ''index out of range'')
      else Inr (be32 ip))"

definition Int2Ip :: "32 word \<Rightarrow> bytes" where
  "Int2Ip nn = map (\<lambda>k. char_of (unat (drop_bit k nn))) [24, 16, 8, 0]"

subsection \<open>Lists\<close>

definition ArrayContains :: "string list \<Rightarrow> string \<Rightarrow> bool" where
  "ArrayContains arr item = list_ex (\<lambda>v. v = item) arr"

fun array_index_from :: "int \<Rightarrow> string list \<Rightarrow> string \<Rightarrow> bool \<times> int" where
  "array_index_from i [] item = (False, -1)"
| "array_index_from i (v # arr) item = (if v = item then (True, i) else array_index_from (i + 1) arr item)"

definition ArrayContainsIndex :: "string list \<Rightarrow> string \<Rightarrow> bool \<times> int" where
  "ArrayContainsIndex = array_index_from 0"

text \<open>The loop of \<open>UniquifyStrings\<close> (and of \<open>UniquifyAddresses\<close>): it reads position \<open>i\<close> of the
  array it writes position \<open>j\<close> of.\<close>

fun uniquify_loop :: "nat \<Rightarrow> nat \<Rightarrow> nat \<Rightarrow> 'a set \<Rightarrow> 'a list \<Rightarrow> nat \<times> 'a list" where
  "uniquify_loop 0 i j seen s = (j, s)"
| "uniquify_loop (Suc n) i j seen s =
     (if s ! i \<in> seen then uniquify_loop n (i + 1) j seen s
      else uniquify_loop n (i + 1) (j + 1) (insert (s ! i) seen) (s[j := s ! i]))"

definition UniquifyStrings :: "'a list \<Rightarrow> 'a list" where
  "UniquifyStrings s = (case uniquify_loop (length s) 0 0 {} s of (j, s') \<Rightarrow> take j s')"

definition GetNISTTimestamp :: "string \<Rightarrow> int" where
  "GetNISTTimestamp record =
     (case split_on (CHR '':'') record of [a, b] \<Rightarrow> fst (parse_int a) | _ \<Rightarrow> 0)"

definition MaxInt64 :: "int \<Rightarrow> int \<Rightarrow> int" where
  "MaxInt64 x y = (if x < y then y else x)"

text \<open>A member of a JSON object that must be there with the right type (the last of several
  with one name wins); the type assertions panic.\<close>

definition json_member :: "string \<Rightarrow> json \<Rightarrow> err + json" where
  "json_member k j =
     (case j of
        JObj ms \<Rightarrow> (case map_of (rev ms) k of Some v \<Rightarrow> Inr v | None \<Rightarrow> Inl (Panic ''interface conversion''))
      | _ \<Rightarrow> Inl (Panic ''interface conversion''))"

definition json_str :: "json \<Rightarrow> err + string" where
  "json_str j = (case j of JStr s \<Rightarrow> Inr s | _ \<Rightarrow> Inl (Panic ''interface conversion''))"

text \<open>\<open>content\<close> is the file, \<open>None\<close> when it cannot be opened.\<close>

definition ReadContractJSON :: "string option \<Rightarrow> bool \<Rightarrow> err + string" where
  "ReadContractJSON content testnet =
     (case content of
        None \<Rightarrow> Inr []
      | Some s \<Rightarrow>
          (case json_parse s of
             Some (JObj ms) \<Rightarrow>
               bind_err (json_member ''networks'' (JObj ms)) (\<lambda>n.
               bind_err (json_member (if testnet then ''3'' else ''1'') n) (\<lambda>c.
               bind_err (json_member ''address'' c) json_str))
           | Some JNull \<Rightarrow> Inl (Panic ''interface conversion'')
           | _ \<Rightarrow> Inr []))"

subsection \<open>What the helpers compute\<close>

lemma length_swap_loop [simp]: "length (swap_loop i j xs) = length xs"
  by (induction i j xs rule: swap_loop.induct) (subst swap_loop.simps, simp)

declare swap_loop.simps [simp del]

lemma swap_loop_nth:
  "j < int (length xs) \<Longrightarrow> k < length xs \<Longrightarrow>
    swap_loop i j xs ! k = (if i \<le> k \<and> int k \<le> j then xs ! nat (int i + j - int k) else xs ! k)"
proof (induction i j xs rule: swap_loop.induct)
  case (1 i j xs)
  show ?case
  proof (cases "int i < j")
    case True
    let ?ys = "xs[i := xs ! nat j, nat j := xs ! i]"
    have len: "i < length xs" "nat j < length xs" "i \<noteq> nat j" "0 < j" using True 1(2) by auto
    have IH: "swap_loop (i + 1) (j - 1) ?ys ! k =
        (if i + 1 \<le> k \<and> int k \<le> j - 1 then ?ys ! nat (int (i + 1) + (j - 1) - int k) else ?ys ! k)"
      using 1(1) [OF True] 1(2,3) by simp
    have ys: "?ys ! m = (if m = nat j then xs ! i else if m = i then xs ! nat j else xs ! m)"
      if "m < length xs" for m
      using that len by (auto simp: nth_list_update)
    consider "i + 1 \<le> k \<and> int k \<le> j - 1" | "k = i" | "int k = j" | "k < i" | "j < int k"
      by linarith
    then show ?thesis
    proof cases
      case 1
      then have m: "nat (int i + j - int k) < length xs" "nat (int i + j - int k) \<noteq> i"
        "nat (int i + j - int k) \<noteq> nat j" using len by auto
      with 1 True IH ys [OF m(1)] show ?thesis by (simp add: swap_loop.simps [of i j])
    qed (use True IH ys [of k] 1(3) len in \<open>auto simp: swap_loop.simps [of i j]\<close>)
  next
    case False
    then show ?thesis
      by (cases "int k = j") (auto simp: swap_loop.simps [of i j])
  qed
qed

lemma reverseAny_rev: "reverseAny s = rev s"
proof (rule nth_equalityI)
  fix k assume "k < length (reverseAny s)"
  then have k: "k < length s" by (simp add: reverseAny_def)
  then have "nat (int 0 + (int (length s) - 1) - int k) = length s - Suc k" by linarith
  with k show "reverseAny s ! k = rev s ! k"
    unfolding reverseAny_def by (subst swap_loop_nth) (auto simp: rev_nth)
qed (simp add: reverseAny_def)

lemma hex_char_not_space: "is_hex_char c \<Longrightarrow> \<not> is_space_re c"
  by (auto simp: is_hex_char_def is_space_re_def from_hex_char_def)

lemma find_pairs_hex: "find_pairs (hex_encode b) = map (\<lambda>c. hex_encode [c]) b"
proof (induction b)
  case (Cons c b)
  have "\<forall>d \<in> set (hex_encode [c]). \<not> is_space_re d"
    using hex_encode_chars hex_char_not_space by blast
  with Cons show ?case by simp
qed simp

lemma concat_hex: "concat (map (\<lambda>c. hex_encode [c]) b) = hex_encode b"
  by (induction b) auto

lemma ReverseTxHex_hex: "ReverseTxHex (hex_encode b) = hex_encode (rev b)"
  by (simp only: ReverseTxHex_def reverseAny_rev find_pairs_hex rev_map concat_hex)

lemma ByteToInt64_Int64ToByte: "is_i64 n \<Longrightarrow> ByteToInt64 (Int64ToByte n) = n"
  by (simp add: ByteToInt64_def Int64ToByte_def codec_simps)

text \<open>The first occurrences of the elements, in order.\<close>

fun firsts :: "'a set \<Rightarrow> 'a list \<Rightarrow> 'a list" where
  "firsts seen [] = []"
| "firsts seen (x # xs) = (if x \<in> seen then firsts seen xs else x # firsts (insert x seen) xs)"

lemma set_firsts: "set (firsts seen xs) = set xs - seen"
  by (induction xs arbitrary: seen) auto

lemma distinct_firsts: "distinct (firsts seen xs)"
  by (induction xs arbitrary: seen) (auto simp: set_firsts)

lemma uniquify_loop_firsts:
  "n + i = length s \<Longrightarrow> j \<le> i \<Longrightarrow> uniquify_loop n i j seen s = (j', s') \<Longrightarrow>
    take j' s' = take j s @ firsts seen (drop i s)"
proof (induction n i j seen s rule: uniquify_loop.induct)
  case (2 n i j seen s)
  then have d: "drop i s = s ! i # drop (Suc i) s" and i: "i < length s"
    by (simp_all add: Cons_nth_drop_Suc)
  show ?case
  proof (cases "s ! i \<in> seen")
    case True
    with 2 d show ?thesis by simp
  next
    case False
    then have "take j' s' = take (j + 1) (s[j := s ! i]) @
        firsts (insert (s ! i) seen) (drop (i + 1) (s[j := s ! i]))"
      using 2 by simp
    with False d i 2(4) show ?thesis
      by (simp add: take_Suc_conv_app_nth)
  qed
qed simp

lemma UniquifyStrings_firsts: "UniquifyStrings s = firsts {} s"
  using uniquify_loop_firsts [of "length s" 0 s 0 "{}"]
  by (auto simp: UniquifyStrings_def split: prod.splits)

lemma ArrayContains_iff: "ArrayContains arr x \<longleftrightarrow> x \<in> set arr"
  by (auto simp: ArrayContains_def list_ex_iff)

lemma array_index_from_spec:
  "array_index_from i arr x =
    (if x \<in> set arr then (True, i + int (length (takeWhile (\<lambda>v. v \<noteq> x) arr))) else (False, -1))"
  by (induction arr arbitrary: i) auto

lemma nat_bytes4:
  fixes n :: nat assumes "n < 2 ^ 32"
  shows "((n div 2 ^ 24 * 256 + n div 2 ^ 16 mod 256) * 256 + n div 2 ^ 8 mod 256) * 256 + n mod 256 = n"
proof -
  have "n div 2 ^ 24 = n div 2 ^ 16 div 256" "n div 2 ^ 16 = n div 2 ^ 8 div 256" "n div 2 ^ 8 = n div 256"
    by (simp_all flip: div_mult2_eq)
  then show ?thesis by (metis div_mult_mod_eq)
qed

lemma Ip2Int_Int2Ip: "Ip2Int (Int2Ip w) = Inr w"
proof -
  let ?n = "unat w"
  have n: "?n < 2 ^ 32" using unsigned_less [of w] by simp
  have d: "unat (drop_bit k w) = ?n div 2 ^ k" for k
    unfolding unat_drop_bit_eq by (rule drop_bit_eq_div)
  have t: "?n div 16777216 mod 256 = ?n div 16777216" using n by simp
  have "be32 (Int2Ip w) =
      word_of_nat (((?n div 2 ^ 24 * 256 + ?n div 2 ^ 16 mod 256) * 256 + ?n div 2 ^ 8 mod 256) * 256 + ?n mod 256)"
    by (simp add: be32_def Int2Ip_def d t push_bit_eq_mult algebra_simps)
  then have "be32 (Int2Ip w) = w" unfolding nat_bytes4 [OF n] by simp
  then show ?thesis by (simp add: Ip2Int_def Int2Ip_def)
qed

lemma last_index_char_bounds:
  "last_index_char s c < int (length s)" "-1 \<le> last_index_char s c"
  "c \<in> set s \<Longrightarrow> 0 \<le> last_index_char s c"
proof -
  have "length (takeWhile (\<lambda>x. x \<noteq> c) (rev s)) \<le> length s"
    using length_takeWhile_le [of _ "rev s"] by simp
  moreover have "length (takeWhile (\<lambda>x. x \<noteq> c) (rev s)) < length s" if "c \<in> set s"
  proof (rule ccontr)
    assume "\<not> ?thesis"
    then have "takeWhile (\<lambda>x. x \<noteq> c) (rev s) = rev s"
      using calculation takeWhile_eq_take [of "\<lambda>x. x \<noteq> c" "rev s"] by simp
    then show False using that unfolding takeWhile_eq_all_conv by auto
  qed
  ultimately show "last_index_char s c < int (length s)" "-1 \<le> last_index_char s c"
    "c \<in> set s \<Longrightarrow> 0 \<le> last_index_char s c"
    by (auto simp: last_index_char_def)
qed

lemma contains_char: "contains s (c # cs) \<Longrightarrow> c \<in> set s"
  by (auto simp: contains_iff)

lemma GetIPOnly_total: "is_ok (GetIPOnly ip)"
proof -
  have a: "is_ok (slice_from s (last_index_char s c + 1))" for s c
    using last_index_char_bounds [where s = s and c = c] by (simp add: slice_from_def slice_def)
  have b: "contains s '':'' \<Longrightarrow> is_ok (slice_to s (last_index_char s (CHR '':'')))" for s
    using last_index_char_bounds [where s = s and c = "CHR '':''"] contains_char [of s "CHR '':''" "[]"]
    by (simp add: slice_to_def slice_def)
  show ?thesis
    using a [of ip "CHR ''/''"] b by (auto simp: GetIPOnly_def is_ok_bind)
qed

text \<open>\<open>DetermineIP\<close> takes everything before the first dot of the peer's address: an IPv6
  address has none, and the slice with the bound -1 panics.\<close>

lemma DetermineIP_no_dot:
  "\<not> contains (RemoteIP p) ''.'' \<Longrightarrow> DetermineIP p = Inl (Panic ''slice bounds out of range'')"
  by (simp add: DetermineIP_def go_index_def contains_def split: option.splits)

lemma last_index_char_split: "c \<notin> set b \<Longrightarrow> last_index_char (a @ c # b) c = int (length a)"
  by (simp add: last_index_char_def) (subst takeWhile_append2, auto)

text \<open>A peer behind a private address that listens on \<open>tcp://host:port\<close> is given the address
  \<open>/host\<close>: the slice starts at the last slash, not after it.\<close>

theorem DetermineIP_keeps_slash:
  assumes "RemoteIP p = octet @ ''.'' @ rest" "octet \<in> {''10'', ''172'', ''192''}"
    and "ListenAddr (peer_NodeInfo p) = ''tcp://'' @ host @ '':'' @ port"
    and "CHR ''/'' \<notin> set host" "CHR '':'' \<notin> set port" "CHR ''/'' \<notin> set port"
  shows "DetermineIP p = Inr (''/'' @ host)"
proof -
  let ?l = "''tcp://'' @ host @ '':'' @ port"
  have o: "slice_to (RemoteIP p) (go_index (RemoteIP p) ''.'') = Inr octet"
    using assms(1,2) by (auto simp: go_index_def slice_to_def slice_def)
  have c: "contains ?l ''//''" "contains ?l '':''"
    unfolding contains_iff
    by (rule exI [of _ "''tcp:''"], rule exI [of _ "host @ '':'' @ port"], simp)
      (rule exI [of _ "''tcp://'' @ host"], rule exI [of _ port], simp)
  have s: "last_index_char ?l (CHR ''/'') = 5"
    using last_index_char_split [of "CHR ''/''" "host @ '':'' @ port" "''tcp:/''"] assms(4,6) by simp
  have t: "last_index_char ?l (CHR '':'') = 6 + int (length host)"
    using last_index_char_split [of "CHR '':''" port "''tcp://'' @ host"] assms(5) by simp
  have "slice ?l 5 (6 + int (length host)) = Inr (''/'' @ host)"
    by (simp add: slice_def nat_add_distrib)
  with o c s t show ?thesis using assms(2) by (auto simp: DetermineIP_def assms(3) Let_def)
qed

theorem DetermineIP_keeps_slash_witness:
  "DetermineIP \<lparr>peer_NodeInfo = \<lparr>node_ID = ''a'', ListenAddr = ''tcp://1.2.3.4:26656'', Network = [], Moniker = []\<rparr>,
     RemoteIP = ''10.0.0.5''\<rparr> = Inr ''/1.2.3.4''"
  using DetermineIP_keeps_slash [of "\<lparr>peer_NodeInfo = \<lparr>node_ID = ''a'', ListenAddr = ''tcp://1.2.3.4:26656'',
      Network = [], Moniker = []\<rparr>, RemoteIP = ''10.0.0.5''\<rparr>" "''10''" "''0.0.5''" "''1.2.3.4''" "''26656''"]
  by simp

text \<open>An instance of the primitives, for the witnesses: every signature verifies.\<close>

definition toy_crypto :: Crypto where
  "toy_crypto = \<lparr>sha256 = (\<lambda>b. b), asn1_sig = (\<lambda>b. Some (0, 0)), ecdsa_verify = (\<lambda>_ _ _. True),
     jwk_parse = (\<lambda>_. Inl (Err ''no keys''))\<rparr>"

end
