(* ===== verification/Config.thy ===== *)
theory Config
  imports Chp_Util
begin

text \<open>
  The configuration, \<open>src/config.go\<close>: \<open>InitConfig\<close> reads the flags into the \<open>AnchorConfig\<close>
  of \<open>src/types/types.go\<close>, \<open>initTendermintConfig\<close> prepares the Tendermint node and its genesis
  file. \<open>Flags\<close> holds the parsed flags, \<open>default_flags\<close> their defaults; the records \<open>NodeEnv\<close>
  and \<open>Host\<close> hold the answers of the libraries and of the file system. A decimal constant of type
  \<open>float64\<close> is its rational value.
\<close>

subsection \<open>The configuration records\<close>

record TendermintConfig =
  TMServer :: string
  TMPort :: string
  cfg_ChainID :: string
  ExternalAddress :: string
  PersistentPeers :: string
  Seeds :: string
  MaxNumInboundPeers :: int
  MaxNumOutboundPeers :: int
  IndexAllKeys :: bool

record LightningConfig =
  TlsPath :: string
  MacPath :: string
  ServerHostPort :: string
  LndLogLevel :: string
  MinConfs :: int
  Testnet :: bool
  WalletAddress :: string
  WalletPass :: string
  WalletSeed :: "string list"
  ln_HashPrice :: int
  SessionSecret :: string

text \<open>\<open>ECPrivateKey\<close> is the signing operation of the key that was loaded.\<close>

record AnchorConfig =
  HomePath :: string
  APIPort :: string
  ChainId :: string
  DBType :: string
  BitcoinNetwork :: string
  ElectionMode :: string
  cfg_Tendermint :: TendermintConfig
  cfg_Lightning :: LightningConfig
  ECPrivateKey :: signer
  CIDRBlockList :: "string list"
  IPBlockList :: "string list"
  DoCal :: bool
  DoAnchor :: bool
  AnchorInterval :: int
  AnchorTimeout :: int
  cfg_AnchorReward :: int
  UpdateStake :: string
  StakePerCore :: int
  FeeInterval :: int
  FeeMultiplier :: rat
  HashPrice :: int
  UseAllowlist :: bool
  GatewayAllowlist :: "string list"
  CoreURI :: string
  CoreName :: string
  AnalyticsID :: string
  ProposedVal :: string
  RemoveRateLimits :: bool
  HashQuota :: int
  ApiQuota :: int
  ProofQuota :: int
  UseChainpointLndConfig :: bool

subsection \<open>The flags\<close>

record Flags =
  fl_network :: string
  fl_aggregator_public :: bool
  fl_aggregator_whitelist :: string
  fl_aggregate :: bool
  fl_anchor :: bool
  fl_remove_rate_limits :: bool
  fl_hashes_per_minute :: int
  fl_api_per_minute :: int
  fl_proof_per_minute :: int
  fl_election :: string
  fl_anchor_interval :: int
  fl_anchor_timeout :: int
  fl_anchor_reward :: int
  fl_submit_hash_price_sat :: int
  fl_cidr_blocklist :: string
  fl_proposed_validator :: string
  fl_hot_wallet_address :: string
  fl_hot_wallet_pass :: string
  fl_hot_wallet_seed :: string
  fl_macaroon_path :: string
  fl_ln_tls_path :: string
  fl_lnd_socket :: string
  fl_lnd_log_level :: string
  fl_chainpoint_lnd_config :: bool
  fl_btc_fee_multiplier :: rat
  fl_fee_interval :: int
  fl_stake_per_core :: int
  fl_update_stake :: string
  fl_session_secret :: string
  fl_tendermint_host :: string
  fl_tendermint_port :: string
  fl_api_port :: string
  fl_chainpoint_core_name :: string
  fl_google_ua_id :: string
  fl_secret_key_path :: string
  fl_chainpoint_core_base_uri :: string
  fl_peers :: string
  fl_seeds :: string
  fl_log_filter :: string

definition default_flags :: "string \<Rightarrow> Flags" where
  "default_flags home =
     \<lparr>fl_network = ''mainnet'', fl_aggregator_public = False, fl_aggregator_whitelist = [],
      fl_aggregate = True, fl_anchor = True, fl_remove_rate_limits = False,
      fl_hashes_per_minute = 3, fl_api_per_minute = 15, fl_proof_per_minute = 25,
      fl_election = ''reputation'', fl_anchor_interval = 60, fl_anchor_timeout = 20,
      fl_anchor_reward = 0, fl_submit_hash_price_sat = 2, fl_cidr_blocklist = [],
      fl_proposed_validator = [], fl_hot_wallet_address = [], fl_hot_wallet_pass = [],
      fl_hot_wallet_seed = [], fl_macaroon_path = [], fl_ln_tls_path = home @ ''/.lnd/tls.cert'',
      fl_lnd_socket = ''127.0.0.1:10009'', fl_lnd_log_level = ''error'',
      fl_chainpoint_lnd_config = True, fl_btc_fee_multiplier = 22 / 10, fl_fee_interval = 10,
      fl_stake_per_core = 1000000, fl_update_stake = [], fl_session_secret = [],
      fl_tendermint_host = ''127.0.0.1'', fl_tendermint_port = ''26657'', fl_api_port = ''80'',
      fl_chainpoint_core_name = [], fl_google_ua_id = [],
      fl_secret_key_path = home @ ''/data/keys/ecdsa_key.pem'',
      fl_chainpoint_core_base_uri = ''http://0.0.0.0:26656'', fl_peers = [], fl_seeds = [],
      fl_log_filter = ''main:debug,state:info,*:error''\<rparr>"

subsection \<open>The Tendermint node\<close>

record 'p Genesis =
  gen_ChainID :: string
  gen_Time :: int
  gen_Params :: 'p
  gen_Validators :: "Validator list"

text \<open>
  What the node finds: errors of reading (other than a missing file) and decoding its
  configuration file, the chain id of that configuration, the log levels, the genesis file a peer
  answers with, an error of saving one, which files exist, the clock, the default consensus
  parameters and the address and key of the validator.
\<close>

record 'p NodeEnv =
  read_config :: "err option"
  decode_config :: "err option"
  own_chain_id :: string
  parse_log_level :: "string \<Rightarrow> err option"
  peer_genesis :: "string \<Rightarrow> err + 'p Genesis"
  save_genesis :: "err option"
  genesis_exists :: bool
  core_conf_exists :: bool
  now_seconds :: int
  now_second :: int
  default_params :: 'p
  own_key :: "string \<times> bytes"

text \<open>The peer's IP: the middle part of \<open>id@ip:port\<close>, of the first entry.\<close>

definition first_peer_ip :: "string list \<Rightarrow> string option" where
  "first_peer_ip peers =
     (case peers of [] \<Rightarrow> None
      | peer # _ \<Rightarrow>
          (case split_on (CHR ''@'') peer of
             [i, addr] \<Rightarrow> (case split_on (CHR '':'') addr of [ip, port] \<Rightarrow> Some ip | _ \<Rightarrow> None)
           | _ \<Rightarrow> None))"

text \<open>The genesis document that gets saved, if any, and whether a peer had one.\<close>

definition pull_genesis :: "'p NodeEnv \<Rightarrow> string list \<Rightarrow> err + 'p Genesis option" where
  "pull_genesis E peers =
     (case first_peer_ip peers of None \<Rightarrow> Inr None
      | Some ip \<Rightarrow>
          (case peer_genesis E ip of Inl _ \<Rightarrow> Inr None
           | Inr g \<Rightarrow> (case save_genesis E of None \<Rightarrow> Inr (Some g) | Some e \<Rightarrow> Inl (Panic ''genesis''))))"

definition own_genesis :: "'p NodeEnv \<Rightarrow> string \<Rightarrow> 'p Genesis" where
  "own_genesis E network =
     \<lparr>gen_ChainID = network @ ''-chain-'' @ format_int (now_second E), gen_Time = now_seconds E,
      gen_Params = default_params E,
      gen_Validators = [\<lparr>val_Address = fst (own_key E), val_PubKey = snd (own_key E), VotingPower = 10\<rparr>]\<rparr>"

text \<open>The last part: what ends up in the genesis file of this run.\<close>

definition settle_genesis ::
  "'p NodeEnv \<Rightarrow> string \<Rightarrow> bool \<Rightarrow> 'p Genesis option \<Rightarrow> err + 'p Genesis option" where
  "settle_genesis E network peersOrSeedsExist pulled =
     (if genesis_exists E \<or> pulled \<noteq> None then Inr pulled
      else if \<not> peersOrSeedsExist \<and> core_conf_exists E then
        Inl (Panic ''Can't retrieve Genesis File from Seed- check firewall on both ends'')
      else (case save_genesis E of None \<Rightarrow> Inr (Some (own_genesis E network)) | Some e \<Rightarrow> Inl (Panic ''genesis'')))"

text \<open>The parameters are in the order of the source: the peers come before the seeds. The result
  has the configuration and the genesis document this run saved.\<close>

definition initTendermintConfig ::
  "'p NodeEnv \<Rightarrow> string \<Rightarrow> string \<Rightarrow> string \<Rightarrow> string \<Rightarrow> string \<Rightarrow> err + TendermintConfig \<times> 'p Genesis option" where
  "initTendermintConfig E network listenAddr tendermintPeers tendermintSeeds tendermintLogFilter =
     (case (read_config E, decode_config E) of
        (Some e, _) \<Rightarrow> Inl e
      | (None, Some e) \<Rightarrow> Inl e
      | (None, None) \<Rightarrow>
          bind_err (GetIPOnly listenAddr) (\<lambda>ipOnly.
          let c = \<lparr>TMServer = [], TMPort = [], cfg_ChainID = own_chain_id E,
                ExternalAddress = ipOnly @ '':26656'', PersistentPeers = [], Seeds = [],
                MaxNumInboundPeers = 300, MaxNumOutboundPeers = 75, IndexAllKeys = True\<rparr>;
              c = (if tendermintPeers \<noteq> [] then c\<lparr>PersistentPeers := tendermintPeers\<rparr> else c);
              c = (if tendermintSeeds \<noteq> [] then c\<lparr>Seeds := tendermintSeeds\<rparr> else c);
              peers = (if tendermintSeeds \<noteq> [] then split_on (CHR '','') tendermintSeeds
                else if tendermintPeers \<noteq> [] then split_on (CHR '','') tendermintPeers else [])
          in case parse_log_level E tendermintLogFilter of
               Some e \<Rightarrow> Inl (Panic ''log level'')
             | None \<Rightarrow>
                 bind_err (pull_genesis E peers) (\<lambda>pulled.
                 bind_err (settle_genesis E network (length peers \<noteq> 0) pulled) (\<lambda>g. Inr (c, g)))))"

subsection \<open>The application configuration\<close>

text \<open>What \<open>InitConfig\<close> reads beside the flags: the key file (\<open>None\<close> for one that does not load
  or holds no EC key: the code logs this and then fails on the nil key) and the list of blocked
  IPs.\<close>

record Host =
  load_key :: "string \<Rightarrow> signer option"
  read_blocklist :: "string \<Rightarrow> string list option"

definition InitConfig :: "'p NodeEnv \<Rightarrow> Host \<Rightarrow> string \<Rightarrow> Flags \<Rightarrow> err + AnchorConfig" where
  "InitConfig E H home f =
     (if fl_hot_wallet_seed f \<noteq> [] \<and> length (split_on (CHR '','') (fl_hot_wallet_seed f)) \<noteq> 24 then
        Inl (Panic ''Provided wallet seed is not the required 24 words'')
      else
       (let macaroonPath = (if fl_macaroon_path f = [] then
              home @ ''/.lnd/data/chain/bitcoin/'' @ to_lower (fl_network f) @ ''/admin.macaroon''
              else fl_macaroon_path f) in
        case initTendermintConfig E (fl_network f) (fl_chainpoint_core_base_uri f) (fl_seeds f) (fl_peers f)
              (fl_log_filter f) of
          Inl e \<Rightarrow> Inl (Panic ''tendermint config'')
        | Inr (tm, _) \<Rightarrow>
           (let tmConfig = tm\<lparr>TMServer := fl_tendermint_host f, TMPort := fl_tendermint_port f\<rparr>;
                coreName = (if length (fl_chainpoint_core_name f) = 0 then fl_chainpoint_core_base_uri f
                  else fl_chainpoint_core_name f);
                blocklist = (case read_blocklist H (home @ ''/ip_blocklist.txt'') of Some l \<Rightarrow> l | None \<Rightarrow> []);
                chainId = (if cfg_ChainID tmConfig \<noteq> [] then cfg_ChainID tmConfig
                  else if fl_network f = ''mainnet'' then ''mainnet-chain-32'' else []) in
            case load_key H (fl_secret_key_path f) of
              None \<Rightarrow> Inl (Panic ''nil pointer dereference'')
            | Some key \<Rightarrow> Inr
               \<lparr>HomePath = home, APIPort = fl_api_port f, ChainId = chainId, DBType = ''goleveldb'',
                BitcoinNetwork = fl_network f, ElectionMode = fl_election f,
                cfg_Tendermint = tmConfig,
                cfg_Lightning = \<lparr>TlsPath = fl_ln_tls_path f, MacPath = macaroonPath,
                  ServerHostPort = fl_lnd_socket f, LndLogLevel = fl_lnd_log_level f, MinConfs = 3,
                  Testnet = (fl_network f = ''testnet''), WalletAddress = fl_hot_wallet_address f,
                  WalletPass = fl_hot_wallet_pass f, WalletSeed = split_on (CHR '','') (fl_hot_wallet_seed f),
                  ln_HashPrice = fl_submit_hash_price_sat f, SessionSecret = fl_session_secret f\<rparr>,
                ECPrivateKey = key, CIDRBlockList = split_on (CHR '','') (fl_cidr_blocklist f),
                IPBlockList = blocklist, DoCal = fl_aggregate f, DoAnchor = fl_anchor f,
                AnchorInterval = fl_anchor_interval f, AnchorTimeout = fl_anchor_timeout f,
                cfg_AnchorReward = fl_anchor_reward f, UpdateStake = fl_update_stake f,
                StakePerCore = 1000000, FeeInterval = fl_fee_interval f,
                FeeMultiplier = fl_btc_fee_multiplier f, HashPrice = fl_submit_hash_price_sat f,
                UseAllowlist = fl_aggregator_public f,
                GatewayAllowlist = split_on (CHR '','') (fl_aggregator_whitelist f),
                CoreURI = fl_chainpoint_core_base_uri f, CoreName = coreName,
                AnalyticsID = fl_google_ua_id f, ProposedVal = fl_proposed_validator f,
                RemoveRateLimits = fl_remove_rate_limits f, HashQuota = fl_hashes_per_minute f,
                ApiQuota = fl_api_per_minute f, ProofQuota = fl_proof_per_minute f,
                UseChainpointLndConfig = fl_chainpoint_lnd_config f\<rparr>)))"

subsection \<open>Environment variables\<close>

text \<open>The variables set for those of the environment with the prefix and without the underscore:
  \<open>TMROOT=x\<close> gives \<open>TM_ROOT=x\<close>. \<open>prefix\<close> is in upper case.\<close>

definition copyEnvVars :: "string \<Rightarrow> string list \<Rightarrow> (string \<times> string) list" where
  "copyEnvVars prefix environ =
     (let ps = prefix @ ''_'' in
      List.map_filter (\<lambda>e.
        let k = takeWhile (\<lambda>c. c \<noteq> CHR ''='') e; v = drop (length k + 1) e in
        if CHR ''='' \<in> set e \<and> has_prefix k prefix \<and> \<not> has_prefix k ps
        then Some (ps @ drop (length prefix) k, v) else None) environ)"

subsection \<open>Properties\<close>

lemma initTendermintConfig_lists:
  "initTendermintConfig E network addr peers seeds filt = Inr (c, g) \<Longrightarrow>
    PersistentPeers c = peers \<and> Seeds c = seeds"
  by (auto simp: initTendermintConfig_def bind_err_Inr_iff Let_def split: option.splits if_splits)

lemma InitConfig_Inr:
  assumes "InitConfig E H home f = Inr c"
  obtains tm g where "initTendermintConfig E (fl_network f) (fl_chainpoint_core_base_uri f) (fl_seeds f) (fl_peers f)
      (fl_log_filter f) = Inr (tm, g)"
    "cfg_Tendermint c = tm\<lparr>TMServer := fl_tendermint_host f, TMPort := fl_tendermint_port f\<rparr>"
    "StakePerCore c = 1000000" "length (WalletSeed (cfg_Lightning c)) = 24 \<or> fl_hot_wallet_seed f = []"
  using assms by (auto simp: InitConfig_def Let_def split: if_splits sum.splits option.splits)

text \<open>The seeds and the peers of the command line are swapped: \<open>InitConfig\<close> passes the seeds
  where \<open>initTendermintConfig\<close> has its parameter for the peers, so a node treats its seed nodes as
  persistent peers and its peers as seeds; and the stake per Core is the constant, whatever the
  flag says.\<close>

theorem InitConfig_swaps_peers:
  assumes "InitConfig E H home f = Inr c"
  shows "PersistentPeers (cfg_Tendermint c) = fl_seeds f \<and> Seeds (cfg_Tendermint c) = fl_peers f \<and>
    StakePerCore c = 1000000"
  using assms by (elim InitConfig_Inr) (auto dest: initTendermintConfig_lists)

definition toy_env :: "unit NodeEnv" where
  "toy_env = \<lparr>read_config = None, decode_config = None, own_chain_id = [], parse_log_level = (\<lambda>_. None),
     peer_genesis = (\<lambda>_. Inl (Err ''down'')), save_genesis = None, genesis_exists = False,
     core_conf_exists = True, now_seconds = 0, now_second = 7, default_params = (), own_key = (''A'', ''k'')\<rparr>"

definition toy_host :: Host where
  "toy_host = \<lparr>load_key = (\<lambda>_. Some (\<lambda>_. Some [])), read_blocklist = (\<lambda>_. None)\<rparr>"

lemma toy_config_ok:
  "\<exists>c. InitConfig toy_env toy_host ''h'' ((default_flags ''h'')\<lparr>fl_seeds := ''s@1.2.3.4:1'', fl_stake_per_core := 5\<rparr>) = Inr c"
proof -
  have "GetIPOnly ''http://0.0.0.0:26656'' = Inr ''0.0.0.0''" by code_simp
  then show ?thesis
    by (simp add: InitConfig_def Let_def initTendermintConfig_def toy_env_def toy_host_def default_flags_def
        pull_genesis_def settle_genesis_def first_peer_ip_def)
qed

theorem InitConfig_swaps_peers_witness:
  "\<exists>c. InitConfig toy_env toy_host ''h'' ((default_flags ''h'')\<lparr>fl_seeds := ''s@1.2.3.4:1'', fl_stake_per_core := 5\<rparr>) = Inr c \<and>
    PersistentPeers (cfg_Tendermint c) = ''s@1.2.3.4:1'' \<and> Seeds (cfg_Tendermint c) = [] \<and> StakePerCore c = 1000000"
proof -
  obtain c where c: "InitConfig toy_env toy_host ''h''
      ((default_flags ''h'')\<lparr>fl_seeds := ''s@1.2.3.4:1'', fl_stake_per_core := 5\<rparr>) = Inr c"
    using toy_config_ok by blast
  show ?thesis using InitConfig_swaps_peers [OF c] c by (auto simp: default_flags_def)
qed

text \<open>C38. A node that is set up (its \<open>core.conf\<close> exists), has no genesis file and whose peer does
  not answer starts a chain of its own, named after the second of the clock and validated by
  itself; only a node that was given no peers refuses to start.\<close>

theorem unreachable_peer_forks_chain:
  assumes "\<not> genesis_exists E" "core_conf_exists E" "save_genesis E = None" "\<And>ip. \<not> is_ok (peer_genesis E ip)"
    "initTendermintConfig E network addr peers seeds filt = Inr (c, g)"
  shows "(peers \<noteq> [] \<or> seeds \<noteq> []) \<and> g = Some (own_genesis E network)"
proof -
  have p: "pull_genesis E ps = Inr None" for ps
    unfolding pull_genesis_def using assms(4)
    by (metis (no_types, lifting) is_ok_simps(2) option.case_eq_if sum.case_eq_if sum.collapse(2))
  have "split_on c s \<noteq> []" for c s by (induction s) (auto split: list.splits)
  with assms(1-3,5) show ?thesis
    by (auto simp: initTendermintConfig_def bind_err_Inr_iff Let_def p settle_genesis_def
        split: option.splits if_splits)
qed

theorem unreachable_peer_forks_chain_witness:
  "\<exists>c. initTendermintConfig toy_env ''mainnet'' ''1.2.3.4'' ''id@5.6.7.8:26656'' [] [] =
    Inr (c, Some (own_genesis toy_env ''mainnet''))"
proof -
  have "GetIPOnly ''1.2.3.4'' = Inr ''1.2.3.4''" by code_simp
  then obtain c g where r: "initTendermintConfig toy_env ''mainnet'' ''1.2.3.4'' ''id@5.6.7.8:26656'' [] [] = Inr (c, g)"
    by (simp add: initTendermintConfig_def toy_env_def Let_def pull_genesis_def settle_genesis_def first_peer_ip_def)
  have "g = Some (own_genesis toy_env ''mainnet'')"
    using unreachable_peer_forks_chain [OF _ _ _ _ r] by (simp add: toy_env_def)
  with r show ?thesis by blast
qed

end
