(* ===== verification/Level_Cache.thy ===== *)
theory Level_Cache
  imports Chp_Util
begin

text \<open>
  The key-value store of \<open>src/database/level/cache.go\<close>: single values and JSON arrays of
  strings, over a LevelDB database.

  The database is outside the repository: \<open>'d\<close> is its state and the record \<open>DB\<close> its operations.
  \<open>db_laws\<close> states what the code relies on, over a view of the state as a map from keys to
  values: a successful read returns the value, a successful write changes that key and no
  other, a failed write changes nothing, an iterator lists the keys with its prefix.

  \<open>arr_of\<close> is the abstract specification: the array a key holds. The lemmas show that
  \<open>GetArray\<close>, \<open>Append\<close>, \<open>SetArray\<close> and \<open>Del\<close> implement reading, appending, assigning and
  removing the first occurrence.
\<close>

record 'd DB =
  db_get :: "'d \<Rightarrow> bytes \<Rightarrow> err + bytes option"
  db_set :: "'d \<Rightarrow> bytes \<Rightarrow> bytes \<Rightarrow> 'd \<times> err option"
  db_delete :: "'d \<Rightarrow> bytes \<Rightarrow> 'd \<times> err option"
  db_iter :: "'d \<Rightarrow> bytes \<Rightarrow> (bytes \<times> bytes) list"

type_synonym view = "bytes \<rightharpoonup> bytes"

definition db_laws :: "'d DB \<Rightarrow> ('d \<Rightarrow> view) \<Rightarrow> bool" where
  "db_laws D view \<longleftrightarrow>
     (\<forall>s k v. db_get D s k = Inr v \<longrightarrow> v = view s k) \<and>
     (\<forall>s k v s' e. db_set D s k v = (s', e) \<longrightarrow>
        view s' = (case e of None \<Rightarrow> (view s)(k \<mapsto> v) | Some _ \<Rightarrow> view s)) \<and>
     (\<forall>s k s' e. db_delete D s k = (s', e) \<longrightarrow>
        view s' = (case e of None \<Rightarrow> (view s)(k := None) | Some _ \<Rightarrow> view s)) \<and>
     (\<forall>s p. set (db_iter D s p) = {(k, v). view s k = Some v \<and> has_prefix k p})"

text \<open>A database whose operations do not fail, as long as it lasts.\<close>

definition db_reliable :: "'d DB \<Rightarrow> bool" where
  "db_reliable D \<longleftrightarrow> (\<forall>s k. is_ok (db_get D s k)) \<and> (\<forall>s k v. snd (db_set D s k v) = None) \<and>
     (\<forall>s k. snd (db_delete D s k) = None)"

subsection \<open>Operations\<close>

definition kv_Get :: "'d DB \<Rightarrow> 'd \<Rightarrow> string \<Rightarrow> string \<times> err option" where
  "kv_Get D s key =
     (case db_get D s key of
        Inl e \<Rightarrow> ([], Some e)
      | Inr None \<Rightarrow> ([], None)
      | Inr (Some b) \<Rightarrow> (b, None))"

definition str_array :: "string list \<Rightarrow> bytes" where
  "str_array xs = json_print (JArr (map JStr xs))"

definition parse_array :: "bytes \<Rightarrow> string list option" where
  "parse_array b = unmarshal_ok (jd_list jd_string []) [] b"

definition kv_GetArray :: "'d DB \<Rightarrow> 'd \<Rightarrow> string \<Rightarrow> err + string list" where
  "kv_GetArray D s key =
     (case db_get D s key of
        Inl e \<Rightarrow> Inl e
      | Inr None \<Rightarrow> Inr []
      | Inr (Some b) \<Rightarrow> (case parse_array b of None \<Rightarrow> Inl (Err ''json'') | Some arr \<Rightarrow> Inr arr))"

definition kv_Append :: "'d DB \<Rightarrow> 'd \<Rightarrow> string \<Rightarrow> string \<Rightarrow> 'd \<times> err option" where
  "kv_Append D s key value =
     (case kv_GetArray D s key of
        Inl e \<Rightarrow> (s, Some e)
      | Inr results \<Rightarrow> db_set D s key (str_array (results @ [value])))"

definition kv_SetArray :: "'d DB \<Rightarrow> 'd \<Rightarrow> string \<Rightarrow> string list \<Rightarrow> 'd \<times> err option" where
  "kv_SetArray D s key values = db_set D s key (str_array values)"

definition kv_Set :: "'d DB \<Rightarrow> 'd \<Rightarrow> string \<Rightarrow> string \<Rightarrow> 'd \<times> err option" where
  "kv_Set D s key value = db_set D s key value"

text \<open>The loop of \<open>Del\<close>: it drops the first element equal to the value.\<close>

fun del_first :: "string list \<Rightarrow> string \<Rightarrow> string list" where
  "del_first [] value = []"
| "del_first (v # vs) value = (if v = value then vs else v # del_first vs value)"

definition kv_Del :: "'d DB \<Rightarrow> 'd \<Rightarrow> string \<Rightarrow> string \<Rightarrow> 'd \<times> err option" where
  "kv_Del D s key value =
     (if value = [] then db_delete D s key
      else
        (case kv_GetArray D s key of
           Inl e \<Rightarrow> (s, Some e)
         | Inr results \<Rightarrow> db_set D s key (str_array (del_first results value))))"

subsection \<open>The abstract specification: a map from keys to arrays\<close>

definition arr_of :: "view \<Rightarrow> string \<Rightarrow> string list option" where
  "arr_of m key = (case m key of None \<Rightarrow> Some [] | Some b \<Rightarrow> parse_array b)"

lemma parse_str_array [codec_simps]: "list_all ascii xs \<Longrightarrow> parse_array (str_array xs) = Some xs"
  unfolding parse_array_def str_array_def
  by (rule unmarshal_ok_print) (simp_all add: list_all_iff)

lemma del_first_remove1: "del_first xs v = remove1 v xs"
  by (induction xs) auto

lemma arr_of_upd [store_simps]:
  "list_all ascii xs \<Longrightarrow> arr_of (m(k \<mapsto> str_array xs)) k' = (if k' = k then Some xs else arr_of m k')"
  by (simp add: arr_of_def codec_simps)

lemma arr_of_other: "m k = m' k \<Longrightarrow> arr_of m k = arr_of m' k"
  by (simp add: arr_of_def)

lemma db_set_view:
  assumes "db_laws D view" "db_set D s k v = (s', e)"
  shows "view s' = (case e of None \<Rightarrow> (view s)(k \<mapsto> v) | Some _ \<Rightarrow> view s)"
  using assms unfolding db_laws_def by blast

lemma db_delete_view:
  assumes "db_laws D view" "db_delete D s k = (s', e)"
  shows "view s' = (case e of None \<Rightarrow> (view s)(k := None) | Some _ \<Rightarrow> view s)"
  using assms unfolding db_laws_def by blast

lemma db_get_view: "db_laws D view \<Longrightarrow> db_get D s k = Inr v \<Longrightarrow> v = view s k"
  by (simp add: db_laws_def)

lemma db_set_reliable:
  "db_laws D view \<Longrightarrow> db_reliable D \<Longrightarrow> view (fst (db_set D s k v)) = (view s)(k \<mapsto> v)"
  using db_set_view [of D view s k v "fst (db_set D s k v)" None] by (simp add: db_reliable_def prod_eq_iff)

lemma db_delete_reliable:
  "db_laws D view \<Longrightarrow> db_reliable D \<Longrightarrow> view (fst (db_delete D s k)) = (view s)(k := None)"
  using db_delete_view [of D view s k "fst (db_delete D s k)" None] by (simp add: db_reliable_def prod_eq_iff)

lemma db_get_reliable:
  assumes "db_laws D view" "db_reliable D"
  shows "db_get D s k = Inr (view s k)"
proof -
  have "is_ok (db_get D s k)" using assms(2) by (simp add: db_reliable_def)
  then show ?thesis using db_get_view [OF assms(1), of s k] by (cases "db_get D s k") simp_all
qed

lemma kv_GetArray_arr_of:
  assumes "db_laws D view" "kv_GetArray D s k = Inr xs"
  shows "arr_of (view s) k = Some xs"
  using assms db_get_view [OF assms(1), of s k]
  by (auto simp: kv_GetArray_def arr_of_def split: sum.splits option.splits)

lemma kv_GetArray_reliable:
  assumes "db_laws D view" "db_reliable D" "arr_of (view s) k = Some xs"
  shows "kv_GetArray D s k = Inr xs"
  using assms(3) db_get_reliable [OF assms(1,2)] by (cases "view s k") (simp_all add: kv_GetArray_def arr_of_def)

lemma kv_Get_view:
  assumes "db_laws D view" "kv_Get D s k = (v, None)"
  shows "v = (case view s k of None \<Rightarrow> [] | Some b \<Rightarrow> b)"
  using assms db_get_view [OF assms(1), of s k]
  by (auto simp: kv_Get_def split: sum.splits option.splits)

lemma kv_Get_reliable:
  assumes "db_laws D view" "db_reliable D"
  shows "kv_Get D s k = ((case view s k of None \<Rightarrow> [] | Some b \<Rightarrow> b), None)"
  using db_get_reliable [OF assms] by (cases "view s k") (simp_all add: kv_Get_def)

text \<open>No operation of the store changes another key.\<close>

lemma kv_Append_other:
  assumes "db_laws D view" "kv_Append D s k v = (s', e)" "k' \<noteq> k"
  shows "view s' k' = view s k'"
  using assms db_set_view [OF assms(1)]
  by (auto simp: kv_Append_def split: sum.splits option.splits)

lemma kv_Append_ok:
  assumes "db_laws D view" "kv_Append D s k v = (s', None)" "arr_of (view s) k = Some xs"
    "list_all ascii xs" "ascii v"
  shows "arr_of (view s') k = Some (xs @ [v])"
proof -
  obtain ys where ys: "kv_GetArray D s k = Inr ys" "db_set D s k (str_array (ys @ [v])) = (s', None)"
    using assms(2) by (auto simp: kv_Append_def split: sum.splits)
  then have "ys = xs" using kv_GetArray_arr_of [OF assms(1)] assms(3) by fastforce
  with ys(2) assms db_set_view [OF assms(1) ys(2)] show ?thesis by (simp add: store_simps)
qed

lemma kv_Append_reliable:
  assumes "db_laws D view" "db_reliable D" "arr_of (view s) k = Some xs"
  shows "snd (kv_Append D s k v) = None"
  using assms kv_GetArray_reliable [OF assms] by (simp add: kv_Append_def db_reliable_def)

text \<open>C13. The store refines a map from keys to arrays: a successful append, assignment or
  removal changes the array of its key as the list operation does and leaves every other key.\<close>

theorem kv_store_refines_multimap:
  assumes "db_laws D view" "arr_of (view s) k = Some xs" "list_all ascii xs" "ascii v" "list_all ascii ys"
  shows "(kv_Append D s k v = (s1, None) \<longrightarrow> arr_of (view s1) = (arr_of (view s))(k \<mapsto> xs @ [v])) \<and>
    (kv_SetArray D s k ys = (s2, None) \<longrightarrow> arr_of (view s2) = (arr_of (view s))(k \<mapsto> ys)) \<and>
    (v \<noteq> [] \<and> kv_Del D s k v = (s3, None) \<longrightarrow>
      arr_of (view s3) = (arr_of (view s))(k \<mapsto> remove1 v xs)) \<and>
    (kv_Del D s k [] = (s4, None) \<longrightarrow> arr_of (view s4) = (arr_of (view s))(k \<mapsto> []))"
proof (intro conjI impI)
  show "arr_of (view s1) = (arr_of (view s))(k \<mapsto> xs @ [v])" if "kv_Append D s k v = (s1, None)"
    using kv_Append_ok [OF assms(1) that assms(2-4)] kv_Append_other [OF assms(1) that]
    by (auto simp: fun_eq_iff intro: arr_of_other)
  show "arr_of (view s2) = (arr_of (view s))(k \<mapsto> ys)" if "kv_SetArray D s k ys = (s2, None)"
    using db_set_view [OF assms(1)] that assms(5) by (auto simp: kv_SetArray_def store_simps)
  show "arr_of (view s3) = (arr_of (view s))(k \<mapsto> remove1 v xs)"
    if del: "v \<noteq> [] \<and> kv_Del D s k v = (s3, None)"
  proof -
    obtain zs where zs: "kv_GetArray D s k = Inr zs" "db_set D s k (str_array (del_first zs v)) = (s3, None)"
      using del by (cases "kv_GetArray D s k") (auto simp: kv_Del_def)
    then have "zs = xs" using kv_GetArray_arr_of [OF assms(1)] assms(2) by fastforce
    moreover have "list_all ascii (remove1 v xs)"
      using assms(3) set_remove1_subset [of v xs] by (auto simp: list_all_iff)
    ultimately show ?thesis
      using db_set_view [OF assms(1) zs(2)] by (auto simp: store_simps del_first_remove1)
  qed
  show "arr_of (view s4) = (arr_of (view s))(k \<mapsto> [])" if "kv_Del D s k [] = (s4, None)"
    using db_delete_view [OF assms(1)] that by (auto simp: kv_Del_def arr_of_def)
qed

text \<open>A concrete database: an association list, the newest entry first.\<close>

definition mem_db :: "(bytes \<times> bytes) list DB" where
  "mem_db = \<lparr>db_get = (\<lambda>s k. Inr (map_of s k)),
     db_set = (\<lambda>s k v. ((k, v) # filter (\<lambda>p. fst p \<noteq> k) s, None)),
     db_delete = (\<lambda>s k. (filter (\<lambda>p. fst p \<noteq> k) s, None)),
     db_iter = (\<lambda>s p. filter (\<lambda>q. has_prefix (fst q) p \<and> map_of s (fst q) = Some (snd q)) s)\<rparr>"

lemma map_of_filter_key: "map_of (filter (\<lambda>p. fst p \<noteq> k) s) = (map_of s)(k := None)"
  by (induction s) (auto simp: fun_eq_iff)

lemma mem_db_laws: "db_laws mem_db map_of"
  by (auto simp: db_laws_def mem_db_def map_of_filter_key fun_eq_iff dest: map_of_SomeD)

lemma mem_db_reliable: "db_reliable mem_db"
  by (simp add: db_reliable_def mem_db_def)

theorem kv_store_refines_multimap_witness:
  "arr_of (map_of (fst (kv_Append mem_db (fst (kv_Append mem_db [] ''k'' ''a'')) ''k'' ''b''))) ''k''
     = Some [''a'', ''b'']"
proof -
  let ?s = "fst (kv_Append mem_db [] ''k'' ''a'')"
  have e: "kv_Append mem_db s ''k'' x = (fst (kv_Append mem_db s ''k'' x), None)"
    if "arr_of (map_of s) ''k'' = Some ys" for s x ys
    using kv_Append_reliable [OF mem_db_laws mem_db_reliable that] by (simp add: prod_eq_iff)
  have 0: "arr_of Map.empty = (\<lambda>_. Some [])" by (simp add: arr_of_def fun_eq_iff)
  have 1: "arr_of (map_of ?s) = (\<lambda>_. Some [])(''k'' \<mapsto> [''a''])"
    using kv_store_refines_multimap [OF mem_db_laws, of "[]" "''k''" "[]" "''a''" "[]" ?s] e [of "[]" "[]" "''a''"]
    by (simp add: 0)
  show ?thesis
    using kv_store_refines_multimap [OF mem_db_laws, of ?s "''k''" "[''a'']" "''b''" "[]"] e [of ?s "[''a'']"]
    by (simp add: 1)
qed

end
