(* ===== verification/Level_DB.thy ===== *)
theory Level_DB
  imports Level_Cache
begin

text \<open>
  The proof database, \<open>src/database/level/chainpointdb.go\<close>: the proof segments of each stage,
  indexed forwards and backwards in the key-value store, their bulk insertion and lookup, and
  the pruning of what is older than a day. \<open>now\<close> is the clock of a call in nanoseconds.

  A stage \<open>x\<close> keeps its objects under \<open>x:id\<close> and \<open>x_by_y:id\<close> and the time of insertion under
  \<open>xCreated:id\<close>. Errors the code ignores are ignored here.
\<close>

subsection \<open>Lookups\<close>

text \<open>The elements of an array that decode.\<close>

definition decoded :: "'a jdec \<Rightarrow> 'a \<Rightarrow> string list \<Rightarrow> 'a list" where
  "decoded d zero xs = List.map_filter (unmarshal_ok d zero) xs"

text \<open>The loop over ids: it returns at the first read error.\<close>

fun collect_arrays :: "'d DB \<Rightarrow> 'd \<Rightarrow> string \<Rightarrow> string list \<Rightarrow> err + string list" where
  "collect_arrays D s p [] = Inr []"
| "collect_arrays D s p (i # is) =
     bind_err (kv_GetArray D s (p @ i)) (\<lambda>xs.
     bind_err (collect_arrays D s p is) (\<lambda>ys. Inr (xs @ ys)))"

text \<open>A value that does not decode counts as far as it does.\<close>

definition GetProofIdsByAggIds :: "'d DB \<Rightarrow> 'd \<Rightarrow> string list \<Rightarrow> err + string list" where
  "GetProofIdsByAggIds D s aggIds =
     bind_err (collect_arrays D s ''aggstate:'' aggIds) (\<lambda>xs.
       Inr (map (\<lambda>res. as_ProofID (fst (unmarshal jd_AggState AggState_zero res))) xs))"

fun get_proofs_loop :: "'d DB \<Rightarrow> 'd \<Rightarrow> (string \<rightharpoonup> ProofState) \<Rightarrow> string list \<Rightarrow> err + (string \<rightharpoonup> ProofState)" where
  "get_proofs_loop D s m [] = Inr m"
| "get_proofs_loop D s m (i # is) =
     (case kv_Get D s (''proof:'' @ i) of
        (_, Some e) \<Rightarrow> Inl e
      | (result, None) \<Rightarrow>
          (let p = fst (unmarshal jd_ProofState ProofState_zero result)
           in get_proofs_loop D s (m(ps_ProofID p \<mapsto> p)) is))"

definition GetProofsByProofIds :: "'d DB \<Rightarrow> 'd \<Rightarrow> string list \<Rightarrow> err + (string \<rightharpoonup> ProofState)" where
  "GetProofsByProofIds D s proofIds = get_proofs_loop D s Map.empty proofIds"

text \<open>A read error of an inner array skips that element.\<close>

definition get_array_or_skip :: "'d DB \<Rightarrow> 'd \<Rightarrow> string \<Rightarrow> string list" where
  "get_array_or_skip D s key = (case kv_GetArray D s key of Inl _ \<Rightarrow> [] | Inr xs \<Rightarrow> xs)"

definition GetProofIdsByBtcTxId :: "'d DB \<Rightarrow> 'd \<Rightarrow> string \<Rightarrow> err + string list" where
  "GetProofIdsByBtcTxId D s btcTxId =
     (case kv_Get D s (''btctxstate:'' @ btcTxId) of
        (_, Some e) \<Rightarrow> Inr []
      | (str, None) \<Rightarrow>
          (let btcTxState = fst (unmarshal jd_AnchorBtcTxState AnchorBtcTxState_zero str) in
           case kv_GetArray D s (''anchorbtcaggstate:'' @ abt_AnchorBtcAggId btcTxState) of
             Inl e \<Rightarrow> Inr []
           | Inr anchoraggs \<Rightarrow>
               Inr (concat (map (\<lambda>aa.
                 concat (map (\<lambda>cso.
                   map as_ProofID (decoded jd_AggState AggState_zero
                     (get_array_or_skip D s (''aggstate:'' @ cso_AggID cso))))
                   (decoded jd_CalStateObject CalStateObject_zero
                     (get_array_or_skip D s (''calstate:'' @ aba_CalId aa)))))
                 (decoded jd_AnchorBtcAggState AnchorBtcAggState_zero anchoraggs)))))"

definition GetCalStateObjectsByAggIds :: "'d DB \<Rightarrow> 'd \<Rightarrow> string list \<Rightarrow> err + CalStateObject list" where
  "GetCalStateObjectsByAggIds D s aggIds =
     bind_err (collect_arrays D s ''calstate_by_agg:'' aggIds)
       (\<lambda>xs. Inr (decoded jd_CalStateObject CalStateObject_zero xs))"

definition GetAggStateObjectsByProofIds :: "'d DB \<Rightarrow> 'd \<Rightarrow> string list \<Rightarrow> err + AggState list" where
  "GetAggStateObjectsByProofIds D s proofIds =
     bind_err (collect_arrays D s ''aggstate_by_proof:'' proofIds)
       (\<lambda>xs. Inr (decoded jd_AggState AggState_zero xs))"

text \<open>This lookup turns a read error into an empty result.\<close>

definition GetAnchorBTCAggStateObjectsByCalIds :: "'d DB \<Rightarrow> 'd \<Rightarrow> string list \<Rightarrow> AnchorBtcAggState list" where
  "GetAnchorBTCAggStateObjectsByCalIds D s calIds =
     (case collect_arrays D s ''anchorbtcaggstate_by_cal:'' calIds of
        Inl _ \<Rightarrow> []
      | Inr xs \<Rightarrow> decoded jd_AnchorBtcAggState AnchorBtcAggState_zero xs)"

definition get_btctxstate :: "'d DB \<Rightarrow> 'd \<Rightarrow> string \<Rightarrow> err + AnchorBtcTxState" where
  "get_btctxstate D s key =
     (case kv_Get D s key of
        (_, Some e) \<Rightarrow> Inl e
      | (str, None) \<Rightarrow>
          (case unmarshal_ok jd_AnchorBtcTxState AnchorBtcTxState_zero str of
             None \<Rightarrow> Inl (Err ''json'')
           | Some x \<Rightarrow> Inr x))"

definition GetBTCTxStateObjectByAnchorBTCAggId :: "'d DB \<Rightarrow> 'd \<Rightarrow> string \<Rightarrow> err + AnchorBtcTxState" where
  "GetBTCTxStateObjectByAnchorBTCAggId D s aggId = get_btctxstate D s (''btctxstate_by_agg:'' @ aggId)"

definition GetBTCTxStateObjectByBtcHeadState :: "'d DB \<Rightarrow> 'd \<Rightarrow> string \<Rightarrow> err + AnchorBtcTxState" where
  "GetBTCTxStateObjectByBtcHeadState D s btctx = get_btctxstate D s (''btctxstate:'' @ btctx)"

subsection \<open>Insertion\<close>

definition unix_time :: "int \<Rightarrow> string" where
  "unix_time now = format_int (now div 10 ^ 9)"

fun BulkInsertProofs :: "'d DB \<Rightarrow> int \<Rightarrow> ProofState list \<Rightarrow> 'd \<Rightarrow> 'd \<times> err option" where
  "BulkInsertProofs D now [] s = (s, None)"
| "BulkInsertProofs D now (p # ps) s =
     (case kv_Get D s (''proof:'' @ ps_ProofID p) of
        (_, Some e) \<Rightarrow> (s, Some e)
      | (proofExists, None) \<Rightarrow>
          if contains proofExists ''btc_anchor_branch'' then BulkInsertProofs D now ps s
          else
            (case kv_Set D s (''proof:'' @ ps_ProofID p) (ProofState_marshal p) of
               (s1, Some e) \<Rightarrow> (s1, Some e)
             | (s1, None) \<Rightarrow>
                 BulkInsertProofs D now ps
                   (fst (kv_Set D s1 (''proofCreated:'' @ ps_ProofID p) (unix_time now)))))"

text \<open>The common shape of the other insertions: two index entries and a time stamp, and an
  error only after all three.\<close>

definition insert_pair ::
  "('d \<Rightarrow> 'd \<times> err option) \<Rightarrow> ('d \<Rightarrow> 'd \<times> err option) \<Rightarrow> ('d \<Rightarrow> 'd \<times> err option) \<Rightarrow> 'd \<Rightarrow> 'd \<times> err option" where
  "insert_pair f g created s =
     (let (s1, err1) = f s; (s2, err2) = g s1; (s3, _) = created s2
      in (s3, if err1 \<noteq> None \<or> err2 \<noteq> None then Some (Err ''insert failed'') else None))"

fun bulk :: "('a \<Rightarrow> 'd \<Rightarrow> 'd \<times> err option) \<Rightarrow> 'a list \<Rightarrow> 'd \<Rightarrow> 'd \<times> err option" where
  "bulk f [] s = (s, None)"
| "bulk f (x # xs) s = (case f x s of (s1, Some e) \<Rightarrow> (s1, Some e) | (s1, None) \<Rightarrow> bulk f xs s1)"

definition BulkInsertAggState :: "'d DB \<Rightarrow> int \<Rightarrow> AggState list \<Rightarrow> 'd \<Rightarrow> 'd \<times> err option" where
  "BulkInsertAggState D now = bulk (\<lambda>a. insert_pair
     (\<lambda>s. kv_Append D s (''aggstate:'' @ as_AggID a) (AggState_marshal a))
     (\<lambda>s. kv_Append D s (''aggstate_by_proof:'' @ as_ProofID a) (AggState_marshal a))
     (\<lambda>s. kv_Set D s (''aggstateCreated:'' @ as_ProofID a) (unix_time now)))"

definition BulkInsertCalState :: "'d DB \<Rightarrow> int \<Rightarrow> CalStateObject list \<Rightarrow> 'd \<Rightarrow> 'd \<times> err option" where
  "BulkInsertCalState D now = bulk (\<lambda>c. insert_pair
     (\<lambda>s. kv_Append D s (''calstate:'' @ cso_CalId c) (CalStateObject_marshal c))
     (\<lambda>s. kv_Append D s (''calstate_by_agg:'' @ cso_AggID c) (CalStateObject_marshal c))
     (\<lambda>s. kv_Set D s (''calstateCreated:'' @ cso_AggID c) (unix_time now)))"

definition BulkInsertBtcAggState :: "'d DB \<Rightarrow> int \<Rightarrow> AnchorBtcAggState list \<Rightarrow> 'd \<Rightarrow> 'd \<times> err option" where
  "BulkInsertBtcAggState D now = bulk (\<lambda>a. insert_pair
     (\<lambda>s. kv_Append D s (''anchorbtcaggstate:'' @ aba_AnchorBtcAggId a) (AnchorBtcAggState_marshal a))
     (\<lambda>s. kv_Append D s (''anchorbtcaggstate_by_cal:'' @ aba_CalId a) (AnchorBtcAggState_marshal a))
     (\<lambda>s. kv_Set D s (''anchorbtcaggstateCreated:'' @ aba_CalId a) (unix_time now)))"

definition BulkInsertBtcTxState :: "'d DB \<Rightarrow> int \<Rightarrow> AnchorBtcTxState list \<Rightarrow> 'd \<Rightarrow> 'd \<times> err option" where
  "BulkInsertBtcTxState D now = bulk (\<lambda>t. insert_pair
     (\<lambda>s. kv_Set D s (''btctxstate:'' @ abt_BtcTxId t) (AnchorBtcTxState_marshal t))
     (\<lambda>s. kv_Set D s (''btctxstate_by_agg:'' @ abt_AnchorBtcAggId t) (AnchorBtcTxState_marshal t))
     (\<lambda>s. kv_Set D s (''btctxstateCreated:'' @ abt_AnchorBtcAggId t) (unix_time now)))"

subsection \<open>Pruning\<close>

text \<open>A time stamp is expired when a day has passed; one that is not a number is skipped.\<close>

definition expired :: "int \<Rightarrow> bytes \<Rightarrow> bool" where
  "expired now v = (case parse_int v of (t, None) \<Rightarrow> now > (t + 24 * 60 * 60) * 10 ^ 9 | _ \<Rightarrow> False)"

text \<open>The id of a time-stamp key: what stands between its first and second colon.\<close>

definition created_id :: "bytes \<Rightarrow> string" where
  "created_id key = split_on (CHR '':'') key ! 1"

definition prune_loop :: "int \<Rightarrow> ('d \<Rightarrow> bytes \<Rightarrow> 'd) \<Rightarrow> (bytes \<times> bytes) list \<Rightarrow> 'd \<Rightarrow> 'd" where
  "prune_loop now act kvs s = foldl (\<lambda>s (k, v). if expired now v then act s k else s) s kvs"

definition del_key :: "'d DB \<Rightarrow> string \<Rightarrow> 'd \<Rightarrow> 'd" where
  "del_key D k s = fst (kv_Del D s k [])"

definition del_keys :: "'d DB \<Rightarrow> string list \<Rightarrow> 'd \<Rightarrow> 'd" where
  "del_keys D ks s = foldl (\<lambda>s k. del_key D k s) s ks"

definition prune_btctx :: "'d DB \<Rightarrow> 'd \<Rightarrow> bytes \<Rightarrow> 'd" where
  "prune_btctx D s key =
     (let i = created_id key;
          state = (case GetBTCTxStateObjectByAnchorBTCAggId D s i of Inr x \<Rightarrow> x | Inl _ \<Rightarrow> AnchorBtcTxState_zero)
      in del_keys D [key, ''btctxstate_by_agg:'' @ i, ''btctxstate:'' @ abt_BtcTxId state] s)"

definition prune_anchor :: "'d DB \<Rightarrow> 'd \<Rightarrow> bytes \<Rightarrow> 'd" where
  "prune_anchor D s key =
     (let i = created_id key; states = GetAnchorBTCAggStateObjectsByCalIds D s [i]
      in del_keys D ([key, ''anchorbtcaggstate_by_cal'' @ i] @
           map (\<lambda>x. ''anchorbtcaggstate:'' @ aba_AnchorBtcAggId x) states) s)"

definition prune_cal :: "'d DB \<Rightarrow> 'd \<Rightarrow> bytes \<Rightarrow> 'd" where
  "prune_cal D s key =
     (let i = created_id key;
          states = (case GetCalStateObjectsByAggIds D s [i] of Inr x \<Rightarrow> x | Inl _ \<Rightarrow> [])
      in del_keys D ([key, ''calstate_by_agg:'' @ i] @ map (\<lambda>x. ''calstate:'' @ cso_CalId x) states) s)"

definition prune_agg :: "'d DB \<Rightarrow> 'd \<Rightarrow> bytes \<Rightarrow> 'd" where
  "prune_agg D s key =
     (let i = created_id key;
          states = (case GetAggStateObjectsByProofIds D s [i] of Inr x \<Rightarrow> x | Inl _ \<Rightarrow> [])
      in del_keys D ([key, ''aggstate_by_proof:'' @ i] @ map (\<lambda>x. ''aggstate:'' @ as_AggID x) states) s)"

definition prune_proof :: "'d DB \<Rightarrow> 'd \<Rightarrow> bytes \<Rightarrow> 'd" where
  "prune_proof D s key = (let i = created_id key in del_keys D [key, ''proof:'' @ i] s)"

text \<open>The five iterators are opened first; each sees the database of that moment.\<close>

definition PruneOldState :: "'d DB \<Rightarrow> int \<Rightarrow> 'd \<Rightarrow> 'd" where
  "PruneOldState D now s0 =
     (let s = prune_loop now (prune_btctx D) (db_iter D s0 ''btctxstateCreated:'') s0;
          s = prune_loop now (prune_anchor D) (db_iter D s0 ''anchorbtcaggstateCreated:'') s;
          s = prune_loop now (prune_cal D) (db_iter D s0 ''calstateCreated:'') s;
          s = prune_loop now (prune_agg D) (db_iter D s0 ''aggstateCreated:'') s
      in prune_loop now (prune_proof D) (db_iter D s0 ''proofCreated:'') s)"

subsection \<open>Finished proofs are not overwritten\<close>

lemma kv_Set_step:
  assumes "db_laws D view" "db_reliable D"
  shows "\<exists>s'. kv_Set D s k v = (s', None) \<and> view s' = (view s)(k \<mapsto> v)"
  using db_set_view [OF assms(1)] assms(2)
  by (metis db_reliable_def kv_Set_def option.simps(4) prod.collapse)

text \<open>C21. Inserting proofs never replaces one that already has its Bitcoin branch.\<close>

theorem bulk_insert_keeps_btc_proofs:
  assumes "db_laws D view" "view s (''proof:'' @ i) = Some old" "contains old ''btc_anchor_branch''"
  shows "view (fst (BulkInsertProofs D now ps s)) (''proof:'' @ i) = Some old"
  using assms(2)
proof (induction ps arbitrary: s)
  case (Cons p ps)
  have set_other: "view (fst (kv_Set D t k v)) (''proof:'' @ i) = view t (''proof:'' @ i)"
    if "k \<noteq> ''proof:'' @ i" for t k v
    using that db_set_view [OF assms(1), of t k v]
    by (cases "db_set D t k v") (auto simp: kv_Set_def split: option.splits)
  show ?case
  proof (cases "kv_Get D s (''proof:'' @ ps_ProofID p)")
    case (Pair str e)
    consider "e \<noteq> None" | "e = None" "contains str ''btc_anchor_branch''"
      | "e = None" "\<not> contains str ''btc_anchor_branch''" by blast
    then show ?thesis
    proof cases
      case 3
      then have "ps_ProofID p \<noteq> i"
        using kv_Get_view [OF assms(1), of s "''proof:'' @ ps_ProofID p" str] Pair Cons.prems assms(3) by auto
      then show ?thesis
        using 3 Pair Cons.prems Cons.IH set_other [of "''proof:'' @ ps_ProofID p"]
          set_other [of "''proofCreated:'' @ ps_ProofID p"]
        by (auto split: prod.splits option.splits simp: prod_eq_iff)
    qed (use Pair Cons in auto)
  qed
qed simp

theorem bulk_insert_keeps_btc_proofs_witness:
  "map_of (fst (BulkInsertProofs mem_db 0 [ProofState_zero\<lparr>ps_ProofID := ''p'', ps_Proof := ''cal''\<rparr>]
     [(''proof:p'', ''btc_anchor_branch'')])) ''proof:p'' = Some ''btc_anchor_branch''"
  using bulk_insert_keeps_btc_proofs [OF mem_db_laws, of "[(''proof:p'', ''btc_anchor_branch'')]" "''p''"
      "''btc_anchor_branch''" 0 "[ProofState_zero\<lparr>ps_ProofID := ''p'', ps_Proof := ''cal''\<rparr>]"]
  by (simp add: contains_def)

subsection \<open>Pruning\<close>

lemma del_key_view:
  assumes "db_laws D view"
  shows "view (del_key D k s) k' = view s k' \<or> (k' = k \<and> view (del_key D k s) k' = None)"
  using db_delete_view [OF assms, of s k]
  by (cases "db_delete D s k") (auto simp: del_key_def kv_Del_def split: option.splits)

lemma del_keys_view:
  assumes "db_laws D view" "k \<notin> set ks"
  shows "view (del_keys D ks s) k = view s k"
  using assms(2)
proof (induction ks arbitrary: s)
  case (Cons a ks)
  have "view (del_key D a s) k = view s k" using del_key_view [OF assms(1), of a s k] Cons.prems by auto
  with Cons show ?case by (simp add: del_keys_def)
qed (simp add: del_keys_def)

lemma del_keys_gone:
  assumes "db_laws D view" "db_reliable D" "k \<in> set ks \<or> view s k = None"
  shows "view (del_keys D ks s) k = None"
  using assms(3)
proof (induction ks arbitrary: s)
  case (Cons a ks)
  have "snd (db_delete D s a) = None" using assms(2) by (simp add: db_reliable_def)
  then have "a = k \<Longrightarrow> view (del_key D a s) k = None"
    using db_delete_view [OF assms(1), of s a]
    by (cases "db_delete D s a") (auto simp: del_key_def kv_Del_def)
  then have "k \<in> set ks \<or> view (del_key D a s) k = None"
    using Cons.prems del_key_view [OF assms(1), of a s k] by auto
  with Cons show ?case by (simp add: del_keys_def)
qed (simp add: del_keys_def)

lemma prune_loop_frame:
  assumes "\<And>s key v. (key, v) \<in> set kvs \<Longrightarrow> expired now v \<Longrightarrow> view (act s key) k = view s k"
  shows "view (prune_loop now act kvs s) k = view s k"
  using foldl_invariant [where P = "\<lambda>t. view t k = view s k" and s = s and xs = kvs
      and f = "\<lambda>s (k, v). if expired now v then act s k else s"] assms
  by (auto simp: prune_loop_def)

lemma iter_keys: "db_laws D view \<Longrightarrow> (key, v) \<in> set (db_iter D s p) \<Longrightarrow> view s key = Some v \<and> has_prefix key p"
  by (auto simp: db_laws_def)

lemma created_id_no_colon:
  assumes "has_prefix key (p @ '':'')" "CHR '':'' \<notin> set p"
  shows "CHR '':'' \<notin> set (created_id key)"
proof -
  obtain t where t: "key = p @ CHR '':'' # t" using assms(1) by (auto simp: has_prefix_iff)
  have "split_on (CHR '':'') key = p # split_on (CHR '':'') t" using split_on_append [OF assms(2)] t by simp
  then have "created_id key \<in> set (split_on (CHR '':'') t)"
    by (simp add: created_id_def)
  then show ?thesis by (rule split_on_parts)
qed

text \<open>C36. The reverse index of the anchor segments is never pruned: the key the code deletes
  lacks the colon.\<close>

theorem prune_leaks_anchor_index:
  assumes "db_laws D view"
  shows "view (PruneOldState D now s) (''anchorbtcaggstate_by_cal:'' @ i) = view s (''anchorbtcaggstate_by_cal:'' @ i)"
proof -
  let ?k = "''anchorbtcaggstate_by_cal:'' @ i"
  have 1: "view (prune_loop now (prune_btctx D) (db_iter D s ''btctxstateCreated:'') t) ?k = view t ?k" for t
    by (rule prune_loop_frame) (auto simp: prune_btctx_def Let_def has_prefix_iff dest!: iter_keys [OF assms]
        intro!: del_keys_view [OF assms])
  have 2: "view (prune_loop now (prune_anchor D) (db_iter D s ''anchorbtcaggstateCreated:'') t) ?k = view t ?k" for t
  proof (rule prune_loop_frame)
    fix u key v assume "(key, v) \<in> set (db_iter D s ''anchorbtcaggstateCreated:'')"
    then have p: "has_prefix key ''anchorbtcaggstateCreated:''" using iter_keys [OF assms] by blast
    then have "CHR '':'' \<notin> set (created_id key)"
      using created_id_no_colon [of key "''anchorbtcaggstateCreated''"] by simp
    then have "CHR '':'' # x \<noteq> created_id key" for x by (metis list.set_intros(1))
    then show "view (prune_anchor D u key) ?k = view u ?k"
      using p by (auto simp: prune_anchor_def Let_def has_prefix_iff intro!: del_keys_view [OF assms])
  qed
  have 3: "view (prune_loop now (prune_cal D) (db_iter D s ''calstateCreated:'') t) ?k = view t ?k" for t
    by (rule prune_loop_frame) (auto simp: prune_cal_def Let_def has_prefix_iff dest!: iter_keys [OF assms]
        intro!: del_keys_view [OF assms])
  have 4: "view (prune_loop now (prune_agg D) (db_iter D s ''aggstateCreated:'') t) ?k = view t ?k" for t
    by (rule prune_loop_frame) (auto simp: prune_agg_def Let_def has_prefix_iff dest!: iter_keys [OF assms]
        intro!: del_keys_view [OF assms])
  have 5: "view (prune_loop now (prune_proof D) (db_iter D s ''proofCreated:'') t) ?k = view t ?k" for t
    by (rule prune_loop_frame) (auto simp: prune_proof_def Let_def has_prefix_iff dest!: iter_keys [OF assms]
        intro!: del_keys_view [OF assms])
  show ?thesis by (simp only: PruneOldState_def Let_def 1 2 3 4 5)
qed

theorem prune_leaks_anchor_index_witness:
  "map_of (PruneOldState mem_db (10 ^ 18) [(''anchorbtcaggstateCreated:c'', ''0''),
      (''anchorbtcaggstate_by_cal:c'', ''[]'')]) ''anchorbtcaggstate_by_cal:c'' = Some ''[]''"
  using prune_leaks_anchor_index [OF mem_db_laws, of "10 ^ 18"
      "[(''anchorbtcaggstateCreated:c'', ''0''), (''anchorbtcaggstate_by_cal:c'', ''[]'')]" "''c''"]
  by simp

lemma prune_loop_gone:
  assumes "view s k = None \<or> (key, v) \<in> set kvs \<and> expired now v"
    and "\<And>t. view (act t key) k = None"
    and "\<And>t j. view t k = None \<Longrightarrow> view (act t j) k = None"
  shows "view (prune_loop now act kvs s) k = None"
  unfolding prune_loop_def using assms(1)
  by (induction kvs arbitrary: s) (auto simp: assms(2,3) split: if_splits)

lemma prune_proof_gone:
  assumes "db_laws D view" "db_reliable D"
  shows "created_id key = i \<Longrightarrow> view (prune_proof D t key) (''proof:'' @ i) = None"
    and "view t k = None \<Longrightarrow> view (prune_proof D t key) k = None"
  unfolding prune_proof_def Let_def by (rule del_keys_gone [OF assms], simp)+

text \<open>The segments are pruned before the proofs, which they leave alone.\<close>

definition prune_segments :: "'d DB \<Rightarrow> int \<Rightarrow> 'd \<Rightarrow> 'd" where
  "prune_segments D now s = prune_loop now (prune_agg D) (db_iter D s ''aggstateCreated:'')
    (prune_loop now (prune_cal D) (db_iter D s ''calstateCreated:'')
      (prune_loop now (prune_anchor D) (db_iter D s ''anchorbtcaggstateCreated:'')
        (prune_loop now (prune_btctx D) (db_iter D s ''btctxstateCreated:'') s)))"

lemma prune_segments_keep_proofs:
  assumes law: "db_laws D view"
  shows "view (prune_segments D now s) (''proof:'' @ i) = view s (''proof:'' @ i)"
proof -
  let ?k = "''proof:'' @ i"
  have 1: "view (prune_loop now (prune_btctx D) (db_iter D s ''btctxstateCreated:'') t) ?k = view t ?k" for t
    by (rule prune_loop_frame) (auto simp: prune_btctx_def Let_def has_prefix_iff dest!: iter_keys [OF law]
        intro!: del_keys_view [OF law])
  have 2: "view (prune_loop now (prune_anchor D) (db_iter D s ''anchorbtcaggstateCreated:'') t) ?k = view t ?k" for t
    by (rule prune_loop_frame) (auto simp: prune_anchor_def Let_def has_prefix_iff dest!: iter_keys [OF law]
        intro!: del_keys_view [OF law])
  have 3: "view (prune_loop now (prune_cal D) (db_iter D s ''calstateCreated:'') t) ?k = view t ?k" for t
    by (rule prune_loop_frame) (auto simp: prune_cal_def Let_def has_prefix_iff dest!: iter_keys [OF law]
        intro!: del_keys_view [OF law])
  have 4: "view (prune_loop now (prune_agg D) (db_iter D s ''aggstateCreated:'') t) ?k = view t ?k" for t
    by (rule prune_loop_frame) (auto simp: prune_agg_def Let_def has_prefix_iff dest!: iter_keys [OF law]
        intro!: del_keys_view [OF law])
  show ?thesis by (simp only: prune_segments_def 1 2 3 4)
qed

text \<open>C22. A finished proof goes with its time stamp: when that is more than a day old the proof is
  removed, and a proof none of whose time stamps is that old is kept.\<close>

theorem prune_proofs_exact:
  assumes db: "db_laws D view" "db_reliable D" and i: "CHR '':'' \<notin> set i"
  shows "(\<forall>v. view s (''proofCreated:'' @ i) = Some v \<and> expired now v \<longrightarrow>
      view (PruneOldState D now s) (''proof:'' @ i) = None) \<and>
    ((\<forall>key v. view s key = Some v \<and> has_prefix key ''proofCreated:'' \<and> created_id key = i \<longrightarrow> \<not> expired now v) \<longrightarrow>
      view (PruneOldState D now s) (''proof:'' @ i) = view s (''proof:'' @ i))"
proof -
  let ?k = "''proof:'' @ i"
  note law = db(1)
  let ?it = "db_iter D s ''proofCreated:''" and ?s4 = "prune_segments D now s"
  have p: "PruneOldState D now s = prune_loop now (prune_proof D) ?it ?s4"
    by (simp add: PruneOldState_def prune_segments_def Let_def)
  note s4 = prune_segments_keep_proofs [OF law, of now s i]
  have id: "created_id (''proofCreated:'' @ i) = i"
    using split_on_append [of "CHR '':''" "''proofCreated''" i] split_on_no_sep [OF i]
    by (simp add: created_id_def)
  show ?thesis
  proof (intro conjI allI impI)
    fix v assume v: "view s (''proofCreated:'' @ i) = Some v \<and> expired now v"
    then have "(''proofCreated:'' @ i, v) \<in> set ?it"
      using law by (auto simp: db_laws_def)
    then have "view ?s4 ?k = None \<or> (''proofCreated:'' @ i, v) \<in> set ?it \<and> expired now v" using v by blast
    then show "view (PruneOldState D now s) ?k = None" unfolding p
      by (rule prune_loop_gone) (rule prune_proof_gone [OF db], (rule id | assumption))+
  next
    assume young: "\<forall>key v. view s key = Some v \<and> has_prefix key ''proofCreated:'' \<and> created_id key = i \<longrightarrow> \<not> expired now v"
    have "view (prune_loop now (prune_proof D) ?it ?s4) ?k = view ?s4 ?k"
    proof (rule prune_loop_frame)
      fix u key v assume kv: "(key, v) \<in> set ?it" "expired now v"
      then obtain t where t: "key = ''proofCreated:'' @ t" and n: "created_id key \<noteq> i"
        using young iter_keys [OF law] has_prefix_iff by blast
      from n have "?k \<notin> set [key, ''proof:'' @ created_id key]" unfolding t by auto
      then show "view (prune_proof D u key) ?k = view u ?k"
        unfolding prune_proof_def Let_def by (rule del_keys_view [OF law])
    qed
    then show "view (PruneOldState D now s) ?k = view s ?k" by (simp only: p s4)
  qed
qed

theorem prune_proofs_exact_witness:
  "map_of (PruneOldState mem_db (10 ^ 18) [(''proofCreated:p'', ''0''), (''proof:p'', ''x'')]) ''proof:p'' = None"
proof -
  have "parse_int ''0'' = (0, None)" using parse_int_format_int [of 0] by (simp add: format_int_def nat_digits.simps digit_char_def is_i64_def)
  then have "expired (10 ^ 18) ''0''" by (simp add: expired_def)
  then have "map_of [(''proofCreated:p'', ''0''), (''proof:p'', ''x'')] (''proofCreated:'' @ ''p'') = Some ''0'' \<and>
      expired (10 ^ 18) ''0''" by simp
  then have "map_of (PruneOldState mem_db (10 ^ 18) [(''proofCreated:p'', ''0''), (''proof:p'', ''x'')])
      (''proof:'' @ ''p'') = None"
    using prune_proofs_exact [OF mem_db_laws mem_db_reliable, of "''p''"
        "[(''proofCreated:p'', ''0''), (''proof:p'', ''x'')]" "10 ^ 18", THEN conjunct1] by simp
  then show ?thesis by (simp only: append_Cons append_Nil)
qed

end
