(* ===== verification/Merkle_Proof.thy ===== *)
theory Merkle_Proof
  imports Chp_Util
begin

text \<open>
  What a Chainpoint proof means, and the Merkle tools it is built with.

  A proof is a list of steps that a verifier runs on a value: prepend the left operand, append
  the right operand, apply the operation. An operand is hexadecimal, or else its own bytes
  (that is how the beacon value enters a proof). \<open>run_ops\<close> runs the steps as the program keeps
  them, \<open>run_json_ops\<close> the steps as they stand in a published JSON proof.

  The Merkle tree library is outside the repository: the record \<open>Merkle\<close> holds its root and
  proof functions, and \<open>merkle_ok\<close> states what the code relies on: hashing a leaf along its
  proof gives the root. \<open>ref_merkle\<close> is an instance, with the
  odd node of a level carried up; \<open>ref_merkle_ok\<close> shows that it satisfies the contract.
\<close>

subsection \<open>Running a proof\<close>

definition operand :: "string \<Rightarrow> bytes" where
  "operand s = (case hex_decode_ok s of Some b \<Rightarrow> b | None \<Rightarrow> s)"

definition run_op :: "Crypto \<Rightarrow> string \<Rightarrow> bytes \<Rightarrow> bytes" where
  "run_op cr op v =
     (if op = ''sha-256'' then sha256 cr v
      else if op = ''sha-256-x2'' then sha256 cr (sha256 cr v)
      else v)"

definition run_item :: "Crypto \<Rightarrow> bytes \<Rightarrow> ProofLineItem \<Rightarrow> bytes" where
  "run_item cr v it =
     run_op cr (Op it)
       ((if Left it \<noteq> [] then operand (Left it) else []) @ v @ (if Right it \<noteq> [] then operand (Right it) else []))"

definition run_ops :: "Crypto \<Rightarrow> ProofLineItem list \<Rightarrow> bytes \<Rightarrow> bytes" where
  "run_ops cr its v = foldl (run_item cr) v its"

definition json_field :: "string \<Rightarrow> json \<Rightarrow> string" where
  "json_field k j =
     (case j of JObj ms \<Rightarrow> (case map_of ms k of Some (JStr s) \<Rightarrow> s | _ \<Rightarrow> []) | _ \<Rightarrow> [])"

definition json_item :: "json \<Rightarrow> ProofLineItem" where
  "json_item j = \<lparr>Left = json_field ''l'' j, Right = json_field ''r'' j, Op = json_field ''op'' j\<rparr>"

text \<open>An entry with the anchors is not a step and changes nothing.\<close>

definition run_json_ops :: "Crypto \<Rightarrow> json list \<Rightarrow> bytes \<Rightarrow> bytes" where
  "run_json_ops cr js v = run_ops cr (map json_item js) v"

lemma run_ops_append [simp]: "run_ops cr (a @ b) v = run_ops cr b (run_ops cr a v)"
  by (simp add: run_ops_def)

lemma run_ops_Nil [simp]: "run_ops cr [] v = v"
  by (simp add: run_ops_def)

lemma run_ops_Cons [simp]: "run_ops cr (it # its) v = run_ops cr its (run_item cr v it)"
  by (simp add: run_ops_def)

lemma operand_hex [simp]: "operand (hex_encode b) = b"
  by (simp add: operand_def codec_simps)

lemma operand_Nil [simp]: "operand [] = []"
  by (simp add: operand_def hex_decode_ok_def)

lemma operand_item: "(if s \<noteq> [] then operand s else []) = operand s"
  by (simp)

subsection \<open>The steps the code writes\<close>

definition left_item :: "string \<Rightarrow> ProofLineItem" where
  "left_item s = \<lparr>Left = s, Right = [], Op = []\<rparr>"

definition right_item :: "string \<Rightarrow> ProofLineItem" where
  "right_item s = \<lparr>Left = [], Right = s, Op = []\<rparr>"

definition op_item :: "string \<Rightarrow> ProofLineItem" where
  "op_item s = \<lparr>Left = [], Right = [], Op = s\<rparr>"

lemma run_item_simps [simp]:
  "run_item cr v (left_item s) = operand s @ v"
  "run_item cr v (right_item s) = v @ operand s"
  "run_item cr v (op_item ''sha-256'') = sha256 cr v"
  "run_item cr v (op_item ''sha-256-x2'') = sha256 cr (sha256 cr v)"
  by (simp_all add: run_item_def run_op_def left_item_def right_item_def op_item_def)

lemma item_ok [simp]:
  "ascii s \<Longrightarrow> ProofLineItem_ok (left_item s)" "ascii s \<Longrightarrow> ProofLineItem_ok (right_item s)"
  "ascii s \<Longrightarrow> ProofLineItem_ok (op_item s)"
  by (simp_all add: ProofLineItem_ok_def left_item_def right_item_def op_item_def)

subsection \<open>Merkle trees\<close>

text \<open>A step of a tree proof: whether the sibling stands on the left, and the sibling.\<close>

type_synonym proof_step = "bool \<times> bytes"

record Merkle =
  mt_root :: "bytes list \<Rightarrow> bytes"
  mt_proof :: "bytes list \<Rightarrow> nat \<Rightarrow> proof_step list"

definition climb :: "(bytes \<Rightarrow> bytes) \<Rightarrow> proof_step list \<Rightarrow> bytes \<Rightarrow> bytes" where
  "climb h steps leaf = foldl (\<lambda>v (left, s). h (if left then s @ v else v @ s)) leaf steps"

definition merkle_ok :: "(bytes \<Rightarrow> bytes) \<Rightarrow> Merkle \<Rightarrow> bool" where
  "merkle_ok h M \<longleftrightarrow>
     (\<forall>leaves i. i < length leaves \<longrightarrow> climb h (mt_proof M leaves i) (leaves ! i) = mt_root M leaves)"

text \<open>The steps of a tree proof as proof items.\<close>

definition hex_steps :: "proof_step list \<Rightarrow> ProofLineItem list" where
  "hex_steps steps = concat (map (\<lambda>(left, s).
     [if left then left_item (hex_encode s) else right_item (hex_encode s), op_item ''sha-256'']) steps)"

lemma run_hex_steps [simp]: "run_ops cr (hex_steps steps) v = climb (sha256 cr) steps v"
  by (induction steps arbitrary: v) (auto simp: hex_steps_def climb_def split: if_splits)

lemma hex_decode_ok_ascii: "hex_decode_ok s = Some b \<Longrightarrow> ascii s"
proof (induction s arbitrary: b rule: hex_decode.induct)
  case (3 a c s)
  have "from_hex_char x = Some n \<Longrightarrow> code_of x < 128" for x n
    by (auto simp: from_hex_char_def Let_def split: if_splits)
  with 3 show ?case by (auto simp: hex_decode_ok_def Let_def split: option.splits prod.splits if_splits)
qed (simp_all add: hex_decode_ok_def)

lemma hex_encode_is_ascii [simp]: "ascii (hex_encode b)"
proof -
  have "code_of c < 128" if "c \<in> set (hex_encode b)" for c
    using hex_encode_chars [OF that]
    by (cases c) (auto simp: is_hex_char_def from_hex_char_def Let_def split: if_splits)
  then show ?thesis by (simp add: ascii_def list_all_iff)
qed

lemma hex_steps_ok [simp]: "list_all ProofLineItem_ok (hex_steps steps)"
  by (induction steps) (auto simp: hex_steps_def)

subsection \<open>A reference tree\<close>

fun next_level :: "(bytes \<Rightarrow> bytes) \<Rightarrow> bytes list \<Rightarrow> bytes list" where
  "next_level h (a # b # xs) = h (a @ b) # next_level h xs"
| "next_level h xs = xs"

lemma length_next_level: "length (next_level h xs) = (length xs + 1) div 2"
  by (induction h xs rule: next_level.induct) auto

function ref_root :: "(bytes \<Rightarrow> bytes) \<Rightarrow> bytes list \<Rightarrow> bytes" where
  "ref_root h xs = (if length xs \<le> 1 then concat xs else ref_root h (next_level h xs))"
  by pat_completeness auto
termination by (relation "measure (\<lambda>(_, xs). length xs)") (auto simp: length_next_level)

definition sibling :: "bytes list \<Rightarrow> nat \<Rightarrow> proof_step list" where
  "sibling xs i =
     (if odd i then [(True, xs ! (i - 1))]
      else if i + 1 < length xs then [(False, xs ! (i + 1))] else [])"

function ref_proof :: "(bytes \<Rightarrow> bytes) \<Rightarrow> bytes list \<Rightarrow> nat \<Rightarrow> proof_step list" where
  "ref_proof h xs i =
     (if length xs \<le> 1 then [] else sibling xs i @ ref_proof h (next_level h xs) (i div 2))"
  by pat_completeness auto
termination by (relation "measure (\<lambda>(_, xs, _). length xs)") (auto simp: length_next_level)

declare ref_root.simps [simp del] ref_proof.simps [simp del]

lemma climb_sibling:
  "i < length xs \<Longrightarrow> climb h (sibling xs i) (xs ! i) = next_level h xs ! (i div 2)"
proof (induction h xs arbitrary: i rule: next_level.induct)
  case (1 h a b xs)
  consider "i = 0" | "i = 1" | j where "i = j + 2" by (metis One_nat_def add_2_eq_Suc' not0_implies_Suc)
  then show ?case
  proof cases
    case 3
    have "sibling (a # b # xs) (j + 2) = sibling xs j" if "j < length xs"
      using that by (cases j) (auto simp: sibling_def)
    with 3 1 show ?thesis by simp
  qed (simp_all add: sibling_def climb_def)
qed (auto simp: sibling_def climb_def)

lemma climb_append: "climb h (a @ b) v = climb h b (climb h a v)"
  by (simp add: climb_def)

lemma climb_ref_proof: "i < length xs \<Longrightarrow> climb h (ref_proof h xs i) (xs ! i) = ref_root h xs"
proof (induction h xs arbitrary: i rule: ref_root.induct)
  case (1 h xs)
  show ?case
  proof (cases "length xs \<le> 1")
    case True
    with 1(2) obtain x where "xs = [x]" by (cases xs) auto
    with 1(2) show ?thesis by (simp add: ref_root.simps ref_proof.simps climb_def)
  next
    case False
    have "i div 2 < length (next_level h xs)" using 1(2) by (simp add: length_next_level)
    with False 1 show ?thesis
      by (simp add: ref_root.simps [of h xs] ref_proof.simps [of h xs] climb_append climb_sibling)
  qed
qed

definition ref_merkle :: "(bytes \<Rightarrow> bytes) \<Rightarrow> Merkle" where
  "ref_merkle h = \<lparr>mt_root = ref_root h, mt_proof = ref_proof h\<rparr>"

lemma ref_merkle_ok: "merkle_ok h (ref_merkle h)"
  using climb_ref_proof by (auto simp: merkle_ok_def ref_merkle_def)

end
