(* ===== verification/Aggregation.thy ===== *)
theory Aggregation
  imports Merkle_Proof "HOL-Library.Multiset"
begin

text \<open>
  The aggregator, \<open>src/aggregator/aggregator.go\<close>: hashes wait in a queue; worker threads
  collect them into batches and turn each batch into a Merkle tree, whose root and per-hash
  proof steps form an \<open>Aggregation\<close>; \<open>AggregateAndReset\<close> stops the workers and takes what
  they produced.

  \<open>ProcessAggregation\<close> is a function of the batch and of the beacon value; \<open>ulid\<close> is what the
  id generator returned for it. The threads are the step relation \<open>agg_step\<close>; its
  invariants interpret the locale \<open>invariant\<close> of the prelude.
\<close>

subsection \<open>One batch\<close>

text \<open>The bytes that enter the tree for a hash: with a beacon value, the digest of the tagged
  value and the hash; without one, the hash in a 32-byte array.\<close>

definition drand_value :: "string \<Rightarrow> bytes" where
  "drand_value drand = ''drand:'' @ drand"

definition leaf_of :: "Crypto \<Rightarrow> string \<Rightarrow> HashItem \<Rightarrow> bytes" where
  "leaf_of cr drand item =
     (let hashBytes = fst (hex_decode (hi_Hash item)) in
      if drand \<noteq> [] then sha256 cr (drand_value drand @ hashBytes)
      else take 32 (hashBytes @ replicate 32 (CHR 0x00)))"

definition step_items :: "proof_step \<Rightarrow> ProofLineItem list" where
  "step_items p = (case p of (left, v) \<Rightarrow>
     [if left then (if contains v ''drand'' then left_item v else left_item (hex_encode v))
      else right_item (hex_encode v), op_item ''sha-256''])"

definition proof_ops :: "string \<Rightarrow> proof_step list \<Rightarrow> ProofLineItem list" where
  "proof_ops drand proofs =
     concat (map step_items ((if drand \<noteq> [] then [(True, drand_value drand)] else []) @ proofs))"

definition agg_state_of ::
  "Merkle \<Rightarrow> string \<Rightarrow> string \<Rightarrow> string \<Rightarrow> bytes list \<Rightarrow> HashItem list \<Rightarrow> nat \<Rightarrow> AggState" where
  "agg_state_of M drand aggid aggroot leaves items i =
     \<lparr>as_ProofID = hi_ProofID (items ! i), as_Hash = hi_Hash (items ! i), as_AggID = aggid,
      as_AggState = OpsState_marshal \<lparr>os_Ops = proof_ops drand (mt_proof M leaves i)\<rparr>, as_AggRoot = aggroot\<rparr>"

definition Aggregation_zero :: Aggregation where
  "Aggregation_zero = \<lparr>AggID = [], AggRoot = [], AggStates = []\<rparr>"

definition ProcessAggregation ::
  "Crypto \<Rightarrow> Merkle \<Rightarrow> string option \<Rightarrow> HashItem list \<Rightarrow> string \<Rightarrow> Aggregation" where
  "ProcessAggregation cr M ulid items drand =
     (let leaves = map (leaf_of cr drand) items in
      if items = [] then Aggregation_zero
      else
        (case ulid of
           None \<Rightarrow> Aggregation_zero
         | Some aggid \<Rightarrow>
             (let aggroot = hex_encode (mt_root M leaves) in
              \<lparr>AggID = aggid, AggRoot = aggroot,
               AggStates = map (agg_state_of M drand aggid aggroot leaves items) [0..<length items]\<rparr>)))"

lemma run_step_items:
  "\<not> contains (snd p) ''drand'' \<Longrightarrow> run_ops cr (step_items p) v = climb (sha256 cr) [p] v"
  by (cases p) (simp add: step_items_def climb_def)

lemma run_proof_steps:
  "\<forall>p \<in> set proofs. \<not> contains (snd p) ''drand'' \<Longrightarrow>
    run_ops cr (concat (map step_items proofs)) v = climb (sha256 cr) proofs v"
  by (induction proofs arbitrary: v) (auto simp: run_step_items climb_def)

lemma contains_drand [simp]: "contains (drand_value d) ''drand''"
  unfolding drand_value_def contains_iff by (rule exI [of _ "[]"], rule exI [of _ "CHR '':'' # d"]) simp

text \<open>The tagged beacon value is not hexadecimal, so a verifier takes it as it is.\<close>

lemma hex_decode_ok_drand [simp]: "hex_decode_ok (drand_value d) = None"
  by (simp add: hex_decode_ok_def drand_value_def from_hex_char_def)

lemma operand_drand [simp]: "operand (drand_value d) = drand_value d"
  by (simp add: operand_def)

text \<open>The steps of a hash lead from the submitted hash to the root.\<close>

lemma run_proof_ops:
  assumes "merkle_ok (sha256 cr) M" "i < length items"
    and "\<forall>p \<in> set (mt_proof M (map (leaf_of cr drand) items) i). \<not> contains (snd p) ''drand''"
    and "hex_decode_ok (hi_Hash (items ! i)) = Some h" "drand = [] \<longrightarrow> length h = 32"
  shows "run_ops cr (proof_ops drand (mt_proof M (map (leaf_of cr drand) items) i)) h =
    mt_root M (map (leaf_of cr drand) items)"
proof -
  let ?leaves = "map (leaf_of cr drand) items"
  have h: "fst (hex_decode (hi_Hash (items ! i))) = h"
    using assms(4) by (auto simp: hex_decode_ok_def split: prod.splits if_splits)
  have leaf: "?leaves ! i = (if drand \<noteq> [] then sha256 cr (drand_value drand @ h) else h)"
    using assms(2,5) h by (simp add: leaf_of_def)
  have "climb (sha256 cr) (mt_proof M ?leaves i) (?leaves ! i) = mt_root M ?leaves"
    using assms(1,2) unfolding merkle_ok_def by (metis length_map)
  then show ?thesis
    using run_proof_steps [OF assms(3)] leaf
    by (auto simp: proof_ops_def step_items_def)
qed

lemma step_items_ok: "\<not> contains (snd p) ''drand'' \<Longrightarrow> list_all ProofLineItem_ok (step_items p)"
  by (cases p) (simp add: step_items_def)

lemma ascii_drand [simp]: "ascii (drand_value d) \<longleftrightarrow> ascii d"
  by (simp add: drand_value_def)

lemma proof_ops_ok:
  assumes "\<forall>p \<in> set proofs. \<not> contains (snd p) ''drand''" "ascii drand"
  shows "list_all ProofLineItem_ok (proof_ops drand proofs)"
proof -
  have "list_all ProofLineItem_ok (step_items (True, drand_value drand))"
    using assms(2) by (simp add: step_items_def)
  then show ?thesis using step_items_ok assms(1) by (auto simp: proof_ops_def list_all_iff)
qed

subsection \<open>The threads\<close>

definition AddHashItem :: "HashItem \<Rightarrow> HashItem list \<Rightarrow> HashItem list" where
  "AddHashItem item q = q @ [item]"

definition HeadHashItem :: "HashItem list \<Rightarrow> HashItem \<times> HashItem list" where
  "HeadHashItem q = (case q of [] \<Rightarrow> (HashItem_zero, []) | h # q' \<Rightarrow> (h, q'))"

text \<open>One round of a worker: its new slice, the rest of the queue, and the aggregations it
  enqueued. A batch is processed when it is longer than the batch size; without a root it stays.\<close>

definition worker_round ::
  "Crypto \<Rightarrow> Merkle \<Rightarrow> nat \<Rightarrow> string option \<Rightarrow> string \<Rightarrow> HashItem list \<Rightarrow> HashItem list \<Rightarrow>
     HashItem list \<times> HashItem list \<times> Aggregation list" where
  "worker_round cr M batch ulid drand items q =
     (let (h, q') = HeadHashItem q in
      if length (hi_Hash h) > 0 then
        (let items2 = items @ [h] in
         if length items2 > batch then
           (let agg = ProcessAggregation cr M ulid items2 drand in
            if AggRoot agg \<noteq> [] then ([], q', [agg]) else (items2, q', []))
         else (items2, q', []))
      else (items, q', []))"

text \<open>What a worker enqueues when it stops.\<close>

definition worker_stop ::
  "Crypto \<Rightarrow> Merkle \<Rightarrow> string option \<Rightarrow> string \<Rightarrow> HashItem list \<Rightarrow> Aggregation list" where
  "worker_stop cr M ulid drand items =
     (if length items > 0 then
        (let agg = ProcessAggregation cr M ulid items drand in if AggRoot agg \<noteq> [] then [agg] else [])
      else [])"

text \<open>
  The state of the aggregator: the two queues, the slice of each worker (\<open>None\<close> when it does not
  run), and whether the stop channel is closed. The last three fields are history: what was
  submitted, what \<open>AggregateAndReset\<close> returned, and what was thrown away.
\<close>

record AggSys =
  HashItems :: "HashItem list"
  Aggregations :: "Aggregation list"
  slices :: "nat \<Rightarrow> HashItem list option"
  TempStop :: bool
  submitted :: "HashItem multiset"
  returned :: "Aggregation list"
  dropped :: "HashItem multiset"

definition AggSys_init :: AggSys where
  "AggSys_init = \<lparr>HashItems = [], Aggregations = [], slices = (\<lambda>_. None), TempStop = True,
     submitted = {#}, returned = [], dropped = {#}\<rparr>"

text \<open>\<open>AggregateAndReset\<close> after it has the mutex: everything in the output queue.\<close>

definition AggregateAndReset :: "AggSys \<Rightarrow> AggSys \<times> Aggregation list" where
  "AggregateAndReset s =
     (s\<lparr>Aggregations := [], returned := returned s @ Aggregations s\<rparr>, Aggregations s)"

inductive agg_step :: "Crypto \<Rightarrow> Merkle \<Rightarrow> string option set \<Rightarrow> nat \<Rightarrow> nat \<Rightarrow> AggSys \<Rightarrow> AggSys \<Rightarrow> bool"
  for cr M ids threads batch where
  submit: "agg_step cr M ids threads batch s
     (s\<lparr>HashItems := AddHashItem h (HashItems s), submitted := add_mset h (submitted s)\<rparr>)"
| start: "TempStop s \<Longrightarrow> \<forall>w. slices s w = None \<Longrightarrow>
     agg_step cr M ids threads batch s
       (s\<lparr>TempStop := False, slices := (\<lambda>w. if w < threads then Some [] else None)\<rparr>)"
| round: "\<not> TempStop s \<Longrightarrow> slices s w = Some b \<Longrightarrow> ulid \<in> ids \<Longrightarrow>
     worker_round cr M batch ulid drand b (HashItems s) = (b', q', out) \<Longrightarrow>
     agg_step cr M ids threads batch s
       (s\<lparr>HashItems := q', slices := (slices s)(w \<mapsto> b'), Aggregations := Aggregations s @ out,
          dropped := dropped s + filter_mset (\<lambda>h. hi_Hash h = []) (mset (take 1 (HashItems s)))\<rparr>)"
| close: "agg_step cr M ids threads batch s (s\<lparr>TempStop := True\<rparr>)"
| finish: "TempStop s \<Longrightarrow> slices s w = Some b \<Longrightarrow> ulid \<in> ids \<Longrightarrow>
     worker_stop cr M ulid drand b = out \<Longrightarrow>
     agg_step cr M ids threads batch s
       (s\<lparr>slices := (slices s)(w := None), Aggregations := Aggregations s @ out,
          dropped := dropped s + (if out = [] then mset b else {#})\<rparr>)"
| collect: "TempStop s \<Longrightarrow> \<forall>w. slices s w = None \<Longrightarrow>
     agg_step cr M ids threads batch s (fst (AggregateAndReset s))"

abbreviation agg_reachable where
  "agg_reachable cr M ids threads batch \<equiv> reachable (\<lambda>s. s = AggSys_init) (agg_step cr M ids threads batch)"

definition agg_hashes :: "Aggregation \<Rightarrow> HashItem multiset" where
  "agg_hashes a = mset (map (\<lambda>st. \<lparr>hi_ProofID = as_ProofID st, hi_Hash = as_Hash st\<rparr>) (AggStates a))"

definition aggs_hashes :: "Aggregation list \<Rightarrow> HashItem multiset" where
  "aggs_hashes as = sum_list (map agg_hashes as)"

definition slice_mset :: "HashItem list option \<Rightarrow> HashItem multiset" where
  "slice_mset x = (case x of None \<Rightarrow> {#} | Some b \<Rightarrow> mset b)"

lemma slice_mset_simps [simp]: "slice_mset None = {#}" "slice_mset (Some b) = mset b"
  by (simp_all add: slice_mset_def)

definition in_slices :: "nat \<Rightarrow> AggSys \<Rightarrow> HashItem multiset" where
  "in_slices n s = (\<Sum>w<n. slice_mset (slices s w))"

definition conserved :: "nat \<Rightarrow> AggSys \<Rightarrow> bool" where
  "conserved n s \<longleftrightarrow> (\<forall>w. slices s w \<noteq> None \<longrightarrow> w < n) \<and>
     submitted s = mset (HashItems s) + in_slices n s + aggs_hashes (Aggregations s) +
       aggs_hashes (returned s) + dropped s"

lemma agg_hashes_Process:
  assumes "AggRoot (ProcessAggregation cr M ulid items drand) \<noteq> []"
  shows "agg_hashes (ProcessAggregation cr M ulid items drand) = mset items"
proof -
  have m: "map (\<lambda>i. \<lparr>hi_ProofID = hi_ProofID (items ! i), hi_Hash = hi_Hash (items ! i)\<rparr>) [0..<length items] = items"
    by (rule nth_equalityI) auto
  obtain x where "ulid = Some x" "items \<noteq> []"
    using assms by (cases ulid) (auto simp: ProcessAggregation_def Aggregation_zero_def Let_def split: if_splits)
  then show ?thesis
    by (simp add: ProcessAggregation_def agg_hashes_def agg_state_of_def Let_def comp_def m del: mset_map)
qed

lemma worker_round_conserves:
  "worker_round cr M batch ulid drand b q = (b', q', out) \<Longrightarrow>
    mset b + mset q = mset b' + mset q' + aggs_hashes out + filter_mset (\<lambda>h. hi_Hash h = []) (mset (take 1 q))"
  by (auto simp: worker_round_def HeadHashItem_def HashItem_zero_def Let_def aggs_hashes_def agg_hashes_Process
      split: list.splits if_splits)

lemma worker_stop_conserves:
  "worker_stop cr M ulid drand b = out \<Longrightarrow> mset b = aggs_hashes out + (if out = [] then mset b else {#})"
  by (cases "b = []"; cases "AggRoot (ProcessAggregation cr M ulid b drand) = []")
    (auto simp: worker_stop_def Let_def aggs_hashes_def agg_hashes_Process)

lemma in_slices_upd:
  assumes "w < n" "slices t = (slices s)(w := x)"
  shows "in_slices n t + slice_mset (slices s w) = in_slices n s + slice_mset x"
proof -
  let ?f = "\<lambda>v. slice_mset (slices s v)" and ?g = "\<lambda>v. slice_mset (slices t v)"
  have "sum ?f {..<n} = ?f w + sum ?f ({..<n} - {w})" "sum ?g {..<n} = ?g w + sum ?g ({..<n} - {w})"
    using assms(1) by (simp_all add: sum.remove)
  moreover have "sum ?f ({..<n} - {w}) = sum ?g ({..<n} - {w})" using assms(2) by (intro sum.cong) auto
  moreover have "?g w = slice_mset x" using assms(2) by simp
  ultimately show ?thesis by (simp add: in_slices_def ac_simps)
qed

lemma conserve_arith:
  fixes B B' Q Q' Out D I I' G R P S :: "'a multiset"
  assumes "I' + B = I + B'" "B + Q = B' + Q' + Out + D" "S = Q + I + G + R + P"
  shows "S = Q' + I' + (G + Out) + R + (P + D)"
proof (rule multiset_eqI)
  fix x
  have "count I' x + count B x = count I x + count B' x"
    "count B x + count Q x = count B' x + count Q' x + count Out x + count D x"
    using arg_cong [OF assms(1), of "\<lambda>m. count m x"] arg_cong [OF assms(2), of "\<lambda>m. count m x"] by simp_all
  then show "count S x = count (Q' + I' + (G + Out) + R + (P + D)) x" using assms(3) by simp
qed

lemma in_slices_cong: "slices s = slices t \<Longrightarrow> in_slices n s = in_slices n t"
  by (simp add: in_slices_def)

lemma agg_step_conserved:
  "agg_step cr M ids n batch s t \<Longrightarrow> conserved n s \<Longrightarrow> conserved n t"
proof (induction rule: agg_step.induct)
  case (submit s h)
  then show ?case by (auto simp: conserved_def AddHashItem_def in_slices_def)
next
  case (start s)
  then have "in_slices n s = {#}" by (simp add: in_slices_def)
  with start show ?case by (auto simp: conserved_def in_slices_def split: if_splits)
next
  case (round s w b ulid drand b' q' out)
  let ?d = "filter_mset (\<lambda>h. hi_Hash h = []) (mset (take 1 (HashItems s)))"
  have w: "w < n" using round by (auto simp: conserved_def)
  let ?t = "s\<lparr>HashItems := q', slices := (slices s)(w \<mapsto> b'), Aggregations := Aggregations s @ out,
    dropped := dropped s + ?d\<rparr>"
  have 1: "in_slices n ?t + mset b = in_slices n s + mset b'"
    using in_slices_upd [OF w, of ?t s "Some b'"] round(2) by simp
  have 2: "mset b + mset (HashItems s) = mset b' + mset q' + aggs_hashes out + ?d"
    using worker_round_conserves [OF round(4)] .
  have 3: "submitted s = mset (HashItems s) + in_slices n s + aggs_hashes (Aggregations s) +
       aggs_hashes (returned s) + dropped s" using round by (simp add: conserved_def)
  have "aggs_hashes (Aggregations s @ out) = aggs_hashes (Aggregations s) + aggs_hashes out"
    by (simp add: aggs_hashes_def)
  with conserve_arith [OF 1 2 3] show ?case using round(5) w by (auto simp: conserved_def)
next
  case (close s)
  then show ?case by (simp add: conserved_def in_slices_def)
next
  case (finish s w b ulid drand out)
  have w: "w < n" using finish by (auto simp: conserved_def)
  let ?d = "if out = [] then mset b else {#}"
  let ?t = "s\<lparr>slices := (slices s)(w := None), Aggregations := Aggregations s @ out, dropped := dropped s + ?d\<rparr>"
  have 1: "in_slices n ?t + mset b = in_slices n s + {#}"
    using in_slices_upd [OF w, of ?t s None] finish(2) by simp
  have 2: "mset b + mset (HashItems s) = {#} + mset (HashItems s) + aggs_hashes out + ?d"
    using worker_stop_conserves [OF finish(4)] by (metis add.commute add.left_commute empty_neutral(1))
  have 3: "submitted s = mset (HashItems s) + in_slices n s + aggs_hashes (Aggregations s) +
       aggs_hashes (returned s) + dropped s" using finish by (simp add: conserved_def)
  have "aggs_hashes (Aggregations s @ out) = aggs_hashes (Aggregations s) + aggs_hashes out"
    by (simp add: aggs_hashes_def)
  with conserve_arith [OF 1 2 3] show ?case using finish(5) by (auto simp: conserved_def)
next
  case (collect s)
  then show ?case by (auto simp: conserved_def AggregateAndReset_def aggs_hashes_def in_slices_def ac_simps)
qed

interpretation agg_conserved: invariant "\<lambda>s. s = AggSys_init" "agg_step cr M ids n batch" "conserved n" for cr M ids n batch
proof
  show "conserved n s" if "s = AggSys_init" for s
    using that by (simp add: conserved_def AggSys_init_def in_slices_def aggs_hashes_def)
qed (rule agg_step_conserved)

text \<open>When ids never fail and trees have roots, only an item without a hash is thrown away.\<close>

lemma worker_stop_nonempty:
  "\<forall>d b. b \<noteq> [] \<longrightarrow> mt_root M (map (leaf_of cr d) b) \<noteq> [] \<Longrightarrow> None \<notin> ids \<Longrightarrow> ulid \<in> ids \<Longrightarrow> b \<noteq> [] \<Longrightarrow>
    worker_stop cr M ulid drand b \<noteq> []"
  by (cases ulid) (auto simp: worker_stop_def ProcessAggregation_def Let_def)

definition drops_no_hash :: "Crypto \<Rightarrow> Merkle \<Rightarrow> string option set \<Rightarrow> AggSys \<Rightarrow> bool" where
  "drops_no_hash cr M ids s \<longleftrightarrow>
     ((\<forall>d b. b \<noteq> [] \<longrightarrow> mt_root M (map (leaf_of cr d) b) \<noteq> []) \<and> None \<notin> ids \<longrightarrow> (\<forall>h \<in># dropped s. hi_Hash h = []))"

interpretation agg_dropped: invariant "\<lambda>s. s = AggSys_init" "agg_step cr M ids n batch" "drops_no_hash cr M ids" for cr M ids n batch
proof
  show "agg_step cr M ids n batch s t \<Longrightarrow> drops_no_hash cr M ids s \<Longrightarrow> drops_no_hash cr M ids t" for s t
  proof (induction rule: agg_step.induct)
    case (finish s w b ulid drand out)
    then show ?case using worker_stop_nonempty [of M cr ids ulid b drand] by (cases "b = []") (auto simp: drops_no_hash_def)
  qed (auto simp: drops_no_hash_def AggregateAndReset_def)
qed (simp add: drops_no_hash_def AggSys_init_def)

text \<open>C5. However the threads interleave, no submitted hash is lost or counted twice: each one is
  in the queue, in the slice of a worker, or in exactly one aggregation that waits or was
  returned; only an item with an empty hash is discarded. (The id generator does not fail and a
  tree with leaves has a root.)\<close>

theorem aggregator_conserves_hashes:
  assumes "agg_reachable cr M ids n batch s"
    and "\<forall>d b. b \<noteq> [] \<longrightarrow> mt_root M (map (leaf_of cr d) b) \<noteq> []" and "None \<notin> ids"
  shows "submitted s = mset (HashItems s) + in_slices n s + aggs_hashes (Aggregations s) +
      aggs_hashes (returned s) + dropped s \<and> filter_mset (\<lambda>h. hi_Hash h \<noteq> []) (dropped s) = {#}"
proof
  show "submitted s = mset (HashItems s) + in_slices n s + aggs_hashes (Aggregations s) +
      aggs_hashes (returned s) + dropped s"
    using agg_conserved.reachable_inv [OF assms(1)] by (simp add: conserved_def)
  have "\<forall>h \<in># dropped s. hi_Hash h = []"
    using agg_dropped.reachable_inv [OF assms(1)] assms(2,3) by (simp add: drops_no_hash_def)
  then show "filter_mset (\<lambda>h. hi_Hash h \<noteq> []) (dropped s) = {#}" by (simp add: filter_mset_eq_conv)
qed

definition toy_merkle :: Merkle where
  "toy_merkle = \<lparr>mt_root = (\<lambda>ls. case ls of [] \<Rightarrow> [] | l # _ \<Rightarrow> CHR 0x01 # l), mt_proof = (\<lambda>_ _. [])\<rparr>"

definition toy_item :: HashItem where
  "toy_item = \<lparr>hi_ProofID = ''p'', hi_Hash = ''00''\<rparr>"

text \<open>A run: a hash is submitted, one worker starts, takes it, and stops.\<close>

definition one_batch :: "Crypto \<Rightarrow> Merkle \<Rightarrow> HashItem \<Rightarrow> AggSys" where
  "one_batch cr M item = AggSys_init\<lparr>Aggregations := [ProcessAggregation cr M (Some ''u'') [item] []], submitted := {#item#}\<rparr>"

definition toy_aggsys :: AggSys where
  "toy_aggsys = one_batch toy_crypto toy_merkle toy_item"

lemma one_batch_reachable:
  assumes "hi_Hash item \<noteq> []" "mt_root M [leaf_of cr [] item] \<noteq> []"
  shows "agg_reachable cr M {Some ''u''} 1 100 (one_batch cr M item)"
proof -
  let ?agg = "ProcessAggregation cr M (Some ''u'') [item] []"
  let ?step = "agg_step cr M {Some ''u''} 1 100"
  let ?s1 = "AggSys_init\<lparr>HashItems := [item], submitted := {#item#}\<rparr>"
  let ?s2 = "?s1\<lparr>TempStop := False, slices := (\<lambda>w. if w < 1 then Some [] else None)\<rparr>"
  let ?s3 = "?s2\<lparr>HashItems := [], slices := (\<lambda>w. if w < 1 then Some [] else None)(0 \<mapsto> [item])\<rparr>"
  let ?s4 = "?s3\<lparr>TempStop := True\<rparr>"
  have 1: "?step AggSys_init ?s1"
    using agg_step.submit [of cr M "{Some ''u''}" 1 100 AggSys_init item]
    by (simp add: AddHashItem_def AggSys_init_def)
  have 2: "?step ?s1 ?s2" by (rule agg_step.start) (simp_all add: AggSys_init_def)
  have r: "worker_round cr M 100 (Some ''u'') [] [] (HashItems ?s2) = ([item], [], [])"
    by (simp add: worker_round_def HeadHashItem_def assms(1))
  have "?step ?s2 (?s2\<lparr>HashItems := [], slices := (slices ?s2)(0 \<mapsto> [item]), Aggregations := Aggregations ?s2 @ [],
      dropped := dropped ?s2 + filter_mset (\<lambda>h. hi_Hash h = []) (mset (take 1 (HashItems ?s2)))\<rparr>)"
    by (rule agg_step.round [OF _ _ _ r]) simp_all
  then have 3: "?step ?s2 ?s3" by (simp add: assms(1) AggSys_init_def)
  have 4: "?step ?s3 ?s4" by (rule agg_step.close)
  have w: "worker_stop cr M (Some ''u'') [] [item] = [?agg]"
    by (simp add: worker_stop_def ProcessAggregation_def assms(2) Let_def)
  let ?t = "?s4\<lparr>slices := (slices ?s4)(0 := None), Aggregations := Aggregations ?s4 @ [?agg],
      dropped := dropped ?s4 + (if [?agg] = [] then mset [item] else {#})\<rparr>"
  have 5: "?step ?s4 ?t" by (rule agg_step.finish [OF _ _ _ w]) simp_all
  have "(slices ?s4)(0 := None) = (\<lambda>_. None)" by (rule ext) simp
  then have t: "?t = one_batch cr M item" by (simp add: one_batch_def AggSys_init_def)
  have 0: "agg_reachable cr M {Some ''u''} 1 100 AggSys_init" by (rule reach_first) simp
  note go = reach_step [where step = ?step]
  have "agg_reachable cr M {Some ''u''} 1 100 ?t"
    by (rule go [OF go [OF go [OF go [OF go [OF 0 1] 2] 3] 4] 5])
  then show ?thesis by (simp only: t)
qed

lemma toy_aggsys_reachable: "agg_reachable toy_crypto toy_merkle {Some ''u''} 1 100 toy_aggsys"
  unfolding toy_aggsys_def by (rule one_batch_reachable) (simp_all add: toy_item_def toy_merkle_def)

theorem aggregator_conserves_hashes_witness:
  "submitted toy_aggsys = mset (HashItems toy_aggsys) + in_slices 1 toy_aggsys + aggs_hashes (Aggregations toy_aggsys) +
      aggs_hashes (returned toy_aggsys) + dropped toy_aggsys \<and>
    filter_mset (\<lambda>h. hi_Hash h \<noteq> []) (dropped toy_aggsys) = {#}"
  by (rule aggregator_conserves_hashes [OF toy_aggsys_reachable]) (auto simp: toy_merkle_def split: list.splits)

end
