(* ===== verification/Calendar.thy ===== *)
theory Calendar
  imports Merkle_Proof
begin

text \<open>
  The calendar, \<open>src/calendar/calendar.go\<close>: the trees over aggregation roots and over calendar
  transactions, and the proof segments that lead from one stage to the next.
\<close>

text \<open>A transaction as a search of the chain returns it, with the attributes of its events.\<close>

record ResultTx =
  rtx_Hash :: bytes
  rtx_Height :: int
  rtx_Tx :: bytes
  rtx_Events :: "(string \<times> (bytes \<times> bytes) list) list"

text \<open>The bytes of a root; one that is not hexadecimal is skipped.\<close>

definition agg_leaves :: "Aggregation list \<Rightarrow> bytes list" where
  "agg_leaves aggs = List.map_filter (hex_decode_ok \<circ> AggRoot) aggs"

definition GenerateCalendarTree :: "Merkle \<Rightarrow> Aggregation list \<Rightarrow> CalAgg" where
  "GenerateCalendarTree M aggs =
     (let leaves = agg_leaves aggs in
      \<lparr>CalRoot = hex_encode (mt_root M leaves),
       ca_ProofData = map (\<lambda>i. \<lparr>cpd_AggID = AggID (aggs ! i), cpd_Proof = hex_steps (mt_proof M leaves i)\<rparr>)
         [0..<length aggs]\<rparr>)"

definition data_uri :: "string \<Rightarrow> bytes \<Rightarrow> string" where
  "data_uri base hash = base @ ''/calendar/'' @ hex_encode hash @ ''/data''"

definition CreateCalStateMessage :: "string \<Rightarrow> TxTm \<Rightarrow> CalAgg \<Rightarrow> CalStateObject list" where
  "CreateCalStateMessage baseUri tx treeDataObj =
     (let anchor = \<lparr>AnchorID = hex_encode (tm_Hash tx), Uris = [data_uri baseUri (tm_Hash tx)]\<rparr>
      in map (\<lambda>ops. \<lparr>cso_AggID = cpd_AggID ops, cso_CalId = hex_encode (tm_Hash tx),
           cso_CalState = AnchorOpsState_marshal \<lparr>aos_Ops = cpd_Proof ops, Anchor = anchor\<rparr>\<rparr>)
         (ca_ProofData treeDataObj))"

text \<open>The calendar transactions among the leaves, with the bytes of their data.\<close>

definition cal_leaf :: "ResultTx \<Rightarrow> (bytes \<times> ResultTx) option" where
  "cal_leaf t =
     (case DecodeTx (rtx_Tx t) of (d, err) \<Rightarrow>
        if err \<or> TxType d \<noteq> ''CAL'' then None
        else map_option (\<lambda>b. (b, t)) (hex_decode_ok (Data d)))"

text \<open>\<open>uuid\<close> prints the first 16 bytes of the root as an id.\<close>

definition BtcAgg_zero :: BtcAgg where
  "BtcAgg_zero = \<lparr>ba_AnchorBtcAggID = [], ba_AggRoot = [], ba_ProofData = []\<rparr>"

definition AggregateAnchorTx :: "Merkle \<Rightarrow> (bytes \<Rightarrow> string) \<Rightarrow> ResultTx list \<Rightarrow> err + BtcAgg" where
  "AggregateAnchorTx M uuid txLeaves =
     (if txLeaves = [] then Inr BtcAgg_zero
      else
        (let cals = List.map_filter cal_leaf txLeaves; leaves = map fst cals; rt = mt_root M leaves in
         bind_err (slice rt 0 16) (\<lambda>seed.
           Inr \<lparr>ba_AnchorBtcAggID = uuid seed, ba_AggRoot = hex_encode rt,
             ba_ProofData = map (\<lambda>i. \<lparr>bpd_CalID = hex_encode (rtx_Hash (snd (cals ! i))),
               bpd_Proof = hex_steps (mt_proof M leaves i)\<rparr>) [0..<length cals]\<rparr>)))"

definition PrepareBtcaStateData :: "BtcAgg \<Rightarrow> AnchorBtcAggState list" where
  "PrepareBtcaStateData a =
     map (\<lambda>p. \<lparr>aba_CalId = bpd_CalID p, aba_AnchorBtcAggId = ba_AnchorBtcAggID a,
       aba_AnchorBtcAggState = OpsState_marshal \<lparr>os_Ops = bpd_Proof p\<rparr>\<rparr>) (ba_ProofData a)"

definition head_steps :: "JSProof \<Rightarrow> ProofLineItem list" where
  "head_steps p =
     (if JLeft p \<noteq> [] then [left_item (JLeft p)] else []) @
     (if JRight p \<noteq> [] then [right_item (JRight p)] else []) @ [op_item ''sha-256-x2'']"

definition GenerateHeadStateObject :: "string \<Rightarrow> bytes \<Rightarrow> BtcMonMsg \<Rightarrow> AnchorBtcHeadState" where
  "GenerateHeadStateObject uri hash m =
     (let anchorOps = \<lparr>aos_Ops = concat (map head_steps (bmm_Path m)),
            Anchor = \<lparr>AnchorID = format_int (bmm_BtcHeadHeight m), Uris = [to_lower (data_uri uri hash)]\<rparr>\<rparr>
      in \<lparr>abh_BtcTxId = bmm_BtcTxID m, abh_BtcHeadHeight = bmm_BtcHeadHeight m,
          abh_BtcHeadState = AnchorOpsState_marshal anchorOps\<rparr>)"

text \<open>The transaction body around the anchor root; without the root in it the slice panics.\<close>

definition GenerateAnchorBtcTxState :: "BtcTxMsg \<Rightarrow> err + AnchorBtcTxState" where
  "GenerateAnchorBtcTxState m =
     (let i = go_index (btm_BtcTxBody m) (btm_AnchorBtcAggRoot m) in
      bind_err (slice_to (btm_BtcTxBody m) i) (\<lambda>l.
      bind_err (slice_from (btm_BtcTxBody m) (i + int (length (btm_AnchorBtcAggRoot m)))) (\<lambda>r.
        Inr \<lparr>abt_AnchorBtcAggId = btm_AnchorBtcAggID m, abt_BtcTxId = btm_BtcTxID m,
          abt_BtcTxState = OpsState_marshal \<lparr>os_Ops = [left_item l, right_item r, op_item ''sha-256-x2'']\<rparr>\<rparr>)))"

subsection \<open>The segments lead from stage to stage\<close>

lemma agg_leaves_hex:
  assumes "\<forall>a \<in> set aggs. \<exists>r. AggRoot a = hex_encode r"
  shows "length (agg_leaves aggs) = length aggs"
    and "i < length aggs \<Longrightarrow> AggRoot (aggs ! i) = hex_encode r \<Longrightarrow> agg_leaves aggs ! i = r"
proof -
  have m: "map Some (agg_leaves aggs) = map (hex_decode_ok \<circ> AggRoot) aggs"
    using assms by (induction aggs) (auto simp: agg_leaves_def codec_simps)
  then show "length (agg_leaves aggs) = length aggs" by (metis length_map)
  then show "i < length aggs \<Longrightarrow> AggRoot (aggs ! i) = hex_encode r \<Longrightarrow> agg_leaves aggs ! i = r"
    using arg_cong [OF m, of "\<lambda>l. l ! i"] by (simp add: codec_simps)
qed

text \<open>The calendar segment of an aggregation leads from its root to the calendar root.\<close>

lemma calendar_tree_sound:
  assumes "merkle_ok (sha256 cr) M" "\<forall>a \<in> set aggs. \<exists>r. AggRoot a = hex_encode r"
    "i < length aggs" "AggRoot (aggs ! i) = hex_encode r"
  shows "run_ops cr (cpd_Proof (ca_ProofData (GenerateCalendarTree M aggs) ! i)) r = mt_root M (agg_leaves aggs)"
proof -
  have "i < length (agg_leaves aggs)" "agg_leaves aggs ! i = r"
    using agg_leaves_hex [OF assms(2)] assms(3,4) by auto
  then have "climb (sha256 cr) (mt_proof M (agg_leaves aggs) i) r = mt_root M (agg_leaves aggs)"
    using assms(1) unfolding merkle_ok_def by blast
  then show ?thesis using assms(3) by (simp add: GenerateCalendarTree_def Let_def)
qed

lemma calendar_tree_fields:
  "CalRoot (GenerateCalendarTree M aggs) = hex_encode (mt_root M (agg_leaves aggs))"
  "i < length aggs \<Longrightarrow> cpd_AggID (ca_ProofData (GenerateCalendarTree M aggs) ! i) = AggID (aggs ! i)"
  "length (ca_ProofData (GenerateCalendarTree M aggs)) = length aggs"
  by (simp_all add: GenerateCalendarTree_def Let_def)

text \<open>The segment of a calendar transaction leads from its data to the anchor root.\<close>

lemma anchor_tree_sound:
  assumes "merkle_ok (sha256 cr) M" "AggregateAnchorTx M uuid txs = Inr agg"
    "List.map_filter cal_leaf txs = cals" "i < length cals"
  shows "run_ops cr (bpd_Proof (ba_ProofData agg ! i)) (fst (cals ! i)) = mt_root M (map fst cals)"
    and "ba_AggRoot agg = hex_encode (mt_root M (map fst cals))"
    and "bpd_CalID (ba_ProofData agg ! i) = hex_encode (rtx_Hash (snd (cals ! i)))"
    and "length (ba_ProofData agg) = length cals"
    and "list_all ProofLineItem_ok (bpd_Proof (ba_ProofData agg ! i))"
proof -
  have "txs \<noteq> []" using assms(3,4) by (auto simp: List.map_filter_def)
  then have a: "agg = \<lparr>ba_AnchorBtcAggID = uuid (take 16 (mt_root M (map fst cals))),
      ba_AggRoot = hex_encode (mt_root M (map fst cals)),
      ba_ProofData = map (\<lambda>i. \<lparr>bpd_CalID = hex_encode (rtx_Hash (snd (cals ! i))),
               bpd_Proof = hex_steps (mt_proof M (map fst cals) i)\<rparr>) [0..<length cals]\<rparr>"
    using assms(2,3) by (auto simp: AggregateAnchorTx_def Let_def slice_def bind_err_def split: if_splits)
  have "climb (sha256 cr) (mt_proof M (map fst cals) i) (map fst cals ! i) = mt_root M (map fst cals)"
    using assms(1,4) unfolding merkle_ok_def by (metis length_map)
  then show "run_ops cr (bpd_Proof (ba_ProofData agg ! i)) (fst (cals ! i)) = mt_root M (map fst cals)"
    using assms(4) by (simp add: a)
qed (use assms in \<open>auto simp: AggregateAnchorTx_def Let_def slice_def bind_err_def List.map_filter_def split: if_splits\<close>)

text \<open>The transaction segment leads from the anchor root to the double hash of the body.\<close>

lemma take_hex: "take (2 * k) (hex_encode b) = hex_encode (take k b)"
  by (induction b arbitrary: k) (auto simp: take_Cons split: nat.splits)

lemma drop_hex: "drop (2 * k) (hex_encode b) = hex_encode (drop k b)"
  by (induction b arbitrary: k) (auto simp: drop_Cons split: nat.splits)

lemma go_index_split:
  assumes "go_index s sub = int i"
  shows "s = take i s @ sub @ drop (i + length sub) s"
proof -
  have "str_index s sub = Some i" using assms by (simp add: go_index_def split: option.splits)
  from str_index_Some [OF this] show ?thesis by (metis append_assoc append_take_drop_id drop_drop add.commute append_eq_conv_conj)
qed

lemma tx_segment_sound:
  assumes "GenerateAnchorBtcTxState m = Inr st" "btm_BtcTxBody m = hex_encode b" "btm_AnchorBtcAggRoot m = hex_encode r"
    "go_index (hex_encode b) (hex_encode r) = int (2 * k)"
  shows "\<exists>its. abt_BtcTxState st = OpsState_marshal \<lparr>os_Ops = its\<rparr> \<and> list_all ProofLineItem_ok its \<and>
    run_ops cr its r = sha256 cr (sha256 cr b)"
proof -
  let ?r = "length r"
  have s: "hex_encode b = hex_encode (take k b) @ hex_encode r @ hex_encode (drop (k + ?r) b)"
    using go_index_split [OF assms(4)] drop_hex [of "k + ?r" b] by (simp add: take_hex distrib_left)
  then have b: "b = take k b @ r @ drop (k + ?r) b"
    by (simp flip: hex_encode_append) (metis hex.enc_eq_iff)
  have "str_index (hex_encode b) (hex_encode r) = Some (2 * k)"
    using assms(4) by (simp add: go_index_def split: option.splits)
  from str_index_Some [OF this] have len: "2 * k + 2 * ?r \<le> 2 * length b" by auto
  have l: "slice_to (hex_encode b) (int (2 * k)) = Inr (hex_encode (take k b))"
    using len by (simp add: slice_to_def slice_def nat_mult_distrib take_hex)
  have "nat (2 * int k + 2 * int ?r) = 2 * (k + ?r)" by simp
  then have "slice_from (hex_encode b) (int (2 * k) + int (length (hex_encode r))) = Inr (hex_encode (drop (k + ?r) b))"
    using len drop_hex [of "k + ?r" b] by (simp add: slice_from_def slice_def)
  with l assms have "abt_BtcTxState st = OpsState_marshal \<lparr>os_Ops =
      [left_item (hex_encode (take k b)), right_item (hex_encode (drop (k + ?r) b)), op_item ''sha-256-x2'']\<rparr>"
    by (auto simp: GenerateAnchorBtcTxState_def Let_def)
  moreover have "take k b @ r @ drop (k + ?r) b = b" using b by simp
  ultimately show ?thesis by (intro exI conjI) (assumption, simp_all)
qed

text \<open>A body that does not contain the root makes the slice expression panic.\<close>

lemma tx_segment_panics:
  "\<not> contains (btm_BtcTxBody m) (btm_AnchorBtcAggRoot m) \<Longrightarrow>
    GenerateAnchorBtcTxState m = Inl (Panic ''slice bounds out of range'')"
  by (simp add: GenerateAnchorBtcTxState_def go_index_def contains_def)

lemma hex_path_sound:
  "run_ops cr (concat (map head_steps path)) v =
    foldl (\<lambda>v p. sha256 cr (sha256 cr (operand (JLeft p) @ v @ operand (JRight p)))) v path"
  by (induction path arbitrary: v) (simp_all add: head_steps_def)

end
