(* ===== verification/Proof_Doc.thy ===== *)
theory Proof_Doc
  imports Aggregation Calendar Level_DB "HOL-Library.List_Lexorder" "HOL-Library.Char_ord"
begin

text \<open>
  The published proof, \<open>src/proof/proof.go\<close>: a JSON object with a header and the branches, built
  from the stored proof segments. A Go map is a JSON object here, its members in the order of
  their keys, which is the order \<open>json.Marshal\<close> prints them in.

  The properties put the stages together: running the published steps on a submitted hash gives
  the calendar root, and, through the Bitcoin branch, the value its Merkle path leads to.
\<close>

type_synonym doc = "(string \<times> json) list"

fun obj_set :: "string \<Rightarrow> json \<Rightarrow> doc \<Rightarrow> doc" where
  "obj_set k v [] = [(k, v)]"
| "obj_set k v ((k', v') # ms) =
     (if k = k' then (k, v) # ms
      else if k < k' then (k, v) # (k', v') # ms
      else (k', v') # obj_set k v ms)"

lemma map_of_obj_set [store_simps]: "map_of (obj_set k v ms) = (map_of ms)(k \<mapsto> v)"
  by (induction ms) (auto simp: fun_eq_iff)

definition Proof :: doc where
  "Proof = []"

text \<open>The time libraries: the Unix time in an id, and the RFC 3339 form of a time.\<close>

record IdLib =
  uuid_unix :: "string \<Rightarrow> err + int"
  ulid_unix :: "string \<Rightarrow> err + int"
  rfc3339 :: "int \<Rightarrow> string"

definition AddChainpointHeader ::
  "IdLib \<Rightarrow> string \<Rightarrow> string \<Rightarrow> string \<Rightarrow> string \<Rightarrow> doc \<Rightarrow> doc \<times> err option" where
  "AddChainpointHeader L ctxt jsonType hash proofId p =
     (let p = obj_set ''@context'' (JStr ctxt) p;
          p = obj_set ''type'' (JStr jsonType) p;
          p = obj_set ''hash'' (JStr hash) p;
          p = obj_set ''proof_id'' (JStr proofId) p;
          t = (if IsUUID proofId then uuid_unix L proofId
               else if IsULID proofId then ulid_unix L proofId else Inr 0)
      in case t of
           Inl e \<Rightarrow> (p, Some e)
         | Inr unixTime \<Rightarrow> (obj_set ''hash_received'' (JStr (rfc3339 L unixTime)) p, None))"

definition convert_item :: "ProofLineItem \<Rightarrow> json list" where
  "convert_item it =
     (let lr = (if length (Left it) > 0 then [(''l'', JStr (Left it))] else []) @
               (if length (Right it) > 0 then [(''r'', JStr (Right it))] else [])
      in (if length lr > 0 then [JObj lr] else []) @
         (if length (Op it) > 0 then [JObj [(''op'', JStr (Op it))]] else []))"

definition ConvertGoOpsToJsonMap :: "ProofLineItem list \<Rightarrow> json list" where
  "ConvertGoOpsToJsonMap its = concat (map convert_item its)"

definition anchors_entry :: "string \<Rightarrow> AnchorObj \<Rightarrow> json" where
  "anchors_entry proofType a = JObj [(''anchors'', JArr [JObj
     [(''anchor_id'', JStr (AnchorID a)), (''type'', JStr proofType), (''uris'', JArr (map JStr (Uris a)))]])]"

definition AddCalendarBranch :: "AggState \<Rightarrow> string \<Rightarrow> string \<Rightarrow> doc \<Rightarrow> err + doc" where
  "AddCalendarBranch aggState calState proofType p =
     (case unmarshal_ok jd_OpsState OpsState_zero (as_AggState aggState) of
        None \<Rightarrow> Inl (Err ''json'')
      | Some aggStateOps \<Rightarrow>
          (case unmarshal_ok jd_AnchorOpsState AnchorOpsState_zero calState of
             None \<Rightarrow> Inl (Err ''json'')
           | Some calStateOps \<Rightarrow>
               (let opsJson = ConvertGoOpsToJsonMap (os_Ops aggStateOps @ aos_Ops calStateOps);
                    branch = JObj [(''label'', JStr ''cal_anchor_branch''),
                      (''ops'', JArr (opsJson @ [anchors_entry proofType (Anchor calStateOps)]))]
                in Inr (obj_set ''branches'' (JArr [branch]) p))))"

definition AddChainBranch ::
  "AnchorBtcAggState \<Rightarrow> AnchorBtcTxState \<Rightarrow> AnchorBtcHeadState \<Rightarrow> string \<Rightarrow> doc \<Rightarrow> err + doc" where
  "AddChainBranch btcAggState btcTxState btcHeadState proofType p =
     (case unmarshal_ok jd_OpsState OpsState_zero (aba_AnchorBtcAggState btcAggState) of
        None \<Rightarrow> Inl (Err ''json'')
      | Some aggState \<Rightarrow>
          (case unmarshal_ok jd_OpsState OpsState_zero (abt_BtcTxState btcTxState) of
             None \<Rightarrow> Inl (Err ''json'')
           | Some txState \<Rightarrow>
               (case unmarshal_ok jd_AnchorOpsState AnchorOpsState_zero (abh_BtcHeadState btcHeadState) of
                  None \<Rightarrow> Inl (Err ''json'')
                | Some headState \<Rightarrow>
                    (let opsJson = ConvertGoOpsToJsonMap (os_Ops aggState @ os_Ops txState @ aos_Ops headState);
                         branch = JObj [(''label'', JStr ''btc_anchor_branch''),
                           (''ops'', JArr (opsJson @ [anchors_entry proofType (Anchor headState)]))]
                     in case map_of p ''branches'' of
                          Some (JArr (JObj b # bs)) \<Rightarrow>
                            Inr (obj_set ''branches'' (JArr (JObj (obj_set ''branches'' (JArr [branch]) b) # bs)) p)
                        | _ \<Rightarrow> Inr (obj_set ''branches'' (JArr [branch]) p)))))"

definition SetProofType :: "string \<Rightarrow> string \<Rightarrow> string" where
  "SetProofType network chainType = (if network = ''testnet'' then ''t'' @ chainType else chainType)"

subsection \<open>What a verifier reads\<close>

text \<open>The first branch of an object, and the steps of a branch.\<close>

definition first_branch :: "doc \<Rightarrow> doc" where
  "first_branch p = (case map_of p ''branches'' of Some (JArr (JObj b # _)) \<Rightarrow> b | _ \<Rightarrow> [])"

definition branch_ops :: "doc \<Rightarrow> json list" where
  "branch_ops b = (case map_of b ''ops'' of Some (JArr ops) \<Rightarrow> ops | _ \<Rightarrow> [])"

lemma run_json_ops_append [simp]: "run_json_ops cr (a @ b) v = run_json_ops cr b (run_json_ops cr a v)"
  by (simp add: run_json_ops_def)

lemma run_convert_item: "run_json_ops cr (convert_item it) v = run_item cr v it"
  by (auto simp: convert_item_def run_json_ops_def json_item_def json_field_def run_item_def run_op_def)

lemma run_convert [simp]: "run_json_ops cr (ConvertGoOpsToJsonMap its) v = run_ops cr its v"
  by (induction its arbitrary: v)
    (simp_all add: ConvertGoOpsToJsonMap_def run_convert_item, simp add: run_json_ops_def)

lemma run_anchors [simp]: "run_json_ops cr [anchors_entry t a] v = v"
  by (simp add: run_json_ops_def json_item_def json_field_def anchors_entry_def run_item_def run_op_def)

lemma AddCalendarBranch_ok:
  assumes "as_AggState agg = OpsState_marshal os" "calState = AnchorOpsState_marshal aos"
    "OpsState_ok os" "AnchorOpsState_ok aos"
  shows "\<exists>p'. AddCalendarBranch agg calState t p = Inr p' \<and> map_of p' ''branches'' = Some (JArr [JObj (first_branch p')]) \<and>
    (\<forall>cr v. run_json_ops cr (branch_ops (first_branch p')) v = run_ops cr (aos_Ops aos) (run_ops cr (os_Ops os) v))"
  using assms
  by (simp add: AddCalendarBranch_def unmarshal_ok_def codec_simps Let_def first_branch_def branch_ops_def store_simps)

lemma AddChainBranch_ok:
  assumes "aba_AnchorBtcAggState a = OpsState_marshal os" "abt_BtcTxState t = OpsState_marshal ts"
    "abh_BtcHeadState h = AnchorOpsState_marshal hs" "OpsState_ok os" "OpsState_ok ts" "AnchorOpsState_ok hs"
    "map_of p ''branches'' = Some (JArr (JObj b # bs))"
  shows "\<exists>p'. AddChainBranch a t h ty p = Inr p' \<and> branch_ops (first_branch p') = branch_ops b \<and>
    (\<forall>cr v. run_json_ops cr (branch_ops (first_branch (first_branch p'))) v =
      run_ops cr (aos_Ops hs) (run_ops cr (os_Ops ts) (run_ops cr (os_Ops os) v)))"
  using assms
  by (simp add: AddChainBranch_def unmarshal_ok_def codec_simps Let_def first_branch_def branch_ops_def store_simps)

lemma ascii_data_uri [simp]: "ascii (data_uri b h) \<longleftrightarrow> ascii b"
  by (simp add: data_uri_def)

lemma ascii_to_lower [simp]: "ascii s \<Longrightarrow> ascii (to_lower s)"
  by (auto simp: ascii_def to_lower_def lower_char_def list_all_iff Let_def)

lemma cal_state_nth:
  "j < length (ca_ProofData ca) \<Longrightarrow> cso_CalState (CreateCalStateMessage uri tx ca ! j) =
    AnchorOpsState_marshal \<lparr>aos_Ops = cpd_Proof (ca_ProofData ca ! j),
      Anchor = \<lparr>AnchorID = hex_encode (tm_Hash tx), Uris = [data_uri uri (tm_Hash tx)]\<rparr>\<rparr>"
  by (simp add: CreateCalStateMessage_def Let_def)

text \<open>The segments that the calendar stage puts into the document.\<close>

lemma calendar_segments:
  assumes agg: "j < length aggs" "aggs ! j = ProcessAggregation cr M (Some u) items drand" "i < length items"
    and nd: "\<forall>p \<in> set (mt_proof M (map (leaf_of cr drand) items) i). \<not> contains (snd p) ''drand''"
    and asc: "ascii drand" "ascii baseUri"
  shows "\<exists>os aos. as_AggState (AggStates (aggs ! j) ! i) = OpsState_marshal os \<and>
    cso_CalState (CreateCalStateMessage baseUri tx (GenerateCalendarTree M aggs) ! j) = AnchorOpsState_marshal aos \<and>
    OpsState_ok os \<and> AnchorOpsState_ok aos \<and> os_Ops os = proof_ops drand (mt_proof M (map (leaf_of cr drand) items) i) \<and>
    aos_Ops aos = cpd_Proof (ca_ProofData (GenerateCalendarTree M aggs) ! j)"
proof -
  let ?ca = "GenerateCalendarTree M aggs"
  let ?os = "\<lparr>os_Ops = proof_ops drand (mt_proof M (map (leaf_of cr drand) items) i)\<rparr>"
  let ?aos = "\<lparr>aos_Ops = cpd_Proof (ca_ProofData ?ca ! j),
      Anchor = \<lparr>AnchorID = hex_encode (tm_Hash tx), Uris = [data_uri baseUri (tm_Hash tx)]\<rparr>\<rparr>"
  have "items \<noteq> []" using agg(3) by auto
  then have "as_AggState (AggStates (aggs ! j) ! i) = OpsState_marshal ?os"
    using agg by (simp add: ProcessAggregation_def Let_def agg_state_of_def)
  moreover have "OpsState_ok ?os" "AnchorOpsState_ok ?aos"
    using proof_ops_ok [OF nd asc(1)] asc(2) agg(1)
    by (simp_all add: OpsState_ok_def AnchorOpsState_ok_def AnchorObj_ok_def GenerateCalendarTree_def Let_def)
  moreover have "cso_CalState (CreateCalStateMessage baseUri tx ?ca ! j) = AnchorOpsState_marshal ?aos"
    using agg(1) by (intro cal_state_nth) (simp add: calendar_tree_fields)
  ultimately show ?thesis by (intro exI [of _ ?os] exI [of _ ?aos]) simp
qed

text \<open>The calendar stage: the document has one branch, which leads to the calendar root.\<close>

lemma calendar_branch_value:
  assumes mk: "merkle_ok (sha256 cr) M"
    and agg: "j < length aggs" "aggs ! j = ProcessAggregation cr M (Some u) items drand" "i < length items"
    and roots: "\<forall>a \<in> set aggs. \<exists>r. AggRoot a = hex_encode r"
    and nd: "\<forall>p \<in> set (mt_proof M (map (leaf_of cr drand) items) i). \<not> contains (snd p) ''drand''"
    and asc: "ascii drand" "ascii baseUri"
    and h: "hex_decode_ok (hi_Hash (items ! i)) = Some h" "drand = [] \<longrightarrow> length h = 32"
  shows "\<exists>p'. AddCalendarBranch (AggStates (aggs ! j) ! i)
      (cso_CalState (CreateCalStateMessage baseUri tx (GenerateCalendarTree M aggs) ! j)) t p = Inr p' \<and>
    map_of p' ''branches'' = Some (JArr [JObj (first_branch p')]) \<and>
    hex_encode (run_json_ops cr (branch_ops (first_branch p')) h) = CalRoot (GenerateCalendarTree M aggs)"
proof -
  let ?leaves = "map (leaf_of cr drand) items" and ?ca = "GenerateCalendarTree M aggs"
  have "items \<noteq> []" using agg(3) by auto
  then have r: "AggRoot (aggs ! j) = hex_encode (mt_root M ?leaves)"
    using agg by (simp add: ProcessAggregation_def Let_def)
  obtain os aos where s: "as_AggState (AggStates (aggs ! j) ! i) = OpsState_marshal os"
    "cso_CalState (CreateCalStateMessage baseUri tx ?ca ! j) = AnchorOpsState_marshal aos" "OpsState_ok os" "AnchorOpsState_ok aos"
    "os_Ops os = proof_ops drand (mt_proof M ?leaves i)" "aos_Ops aos = cpd_Proof (ca_ProofData ?ca ! j)"
    using calendar_segments [OF agg nd asc, of tx] by blast
  obtain p' where p': "AddCalendarBranch (AggStates (aggs ! j) ! i)
      (cso_CalState (CreateCalStateMessage baseUri tx ?ca ! j)) t p = Inr p'" "map_of p' ''branches'' = Some (JArr [JObj (first_branch p')])"
    "\<And>v. run_json_ops cr (branch_ops (first_branch p')) v = run_ops cr (aos_Ops aos) (run_ops cr (os_Ops os) v)"
    using AddCalendarBranch_ok [OF s(1-4), of t p] by blast
  moreover have "run_ops cr (os_Ops os) h = mt_root M ?leaves"
    using run_proof_ops [OF mk agg(3) nd h] s(5) by simp
  moreover have "run_ops cr (aos_Ops aos) (mt_root M ?leaves) = mt_root M (agg_leaves aggs)"
    using calendar_tree_sound [OF mk roots agg(1) r] s(6) by simp
  ultimately show ?thesis by (simp add: calendar_tree_fields)
qed

text \<open>What the handlers rely on: a document whose texts are ASCII and whose members are in the order
  of their keys, on every level.\<close>

fun json_sorted :: "json \<Rightarrow> bool" where
  "json_sorted (JObj ms) \<longleftrightarrow> sorted_wrt (<) (map fst ms) \<and> list_all (\<lambda>(k, v). json_sorted v) ms"
| "json_sorted (JArr xs) \<longleftrightarrow> list_all json_sorted xs"
| "json_sorted _ \<longleftrightarrow> True"

definition doc_ok :: "doc \<Rightarrow> bool" where
  "doc_ok p \<longleftrightarrow> json_wf (JObj p) \<and> json_sorted (JObj p)"

lemma set_obj_set: "set (map fst (obj_set k v ms)) = insert k (set (map fst ms))"
  using dom_map_of_conv_image_fst [of ms] dom_map_of_conv_image_fst [of "obj_set k v ms"] by (simp add: map_of_obj_set)

lemma sorted_obj_set: "sorted_wrt (<) (map fst ms) \<Longrightarrow> sorted_wrt (<) (map fst (obj_set k v ms))"
proof (induction ms)
  case (Cons p ms)
  then show ?case using set_obj_set [of k v ms] by (cases p) (auto simp: set_map [symmetric] simp del: set_map)
qed simp

lemma list_all_obj_set: "list_all P ms \<Longrightarrow> P (k, v) \<Longrightarrow> list_all P (obj_set k v ms)"
  by (induction ms) auto

lemma doc_ok_set: "doc_ok p \<Longrightarrow> ascii k \<Longrightarrow> json_wf v \<Longrightarrow> json_sorted v \<Longrightarrow> doc_ok (obj_set k v p)"
  by (simp add: doc_ok_def sorted_obj_set list_all_obj_set)

lemma doc_ok_header:
  assumes "ascii ctxt" "ascii ty" "ascii hash" "ascii i" "\<And>t. ascii (rfc3339 L t)"
  shows "doc_ok (fst (AddChainpointHeader L ctxt ty hash i Proof))"
proof -
  have "doc_ok Proof" by (simp add: doc_ok_def Proof_def)
  then show ?thesis using assms by (simp add: AddChainpointHeader_def Let_def doc_ok_set split: sum.split)
qed

lemma convert_ok:
  "list_all ProofLineItem_ok its \<Longrightarrow> list_all (\<lambda>j. json_wf j \<and> json_sorted j) (ConvertGoOpsToJsonMap its)"
  by (induction its) (auto simp: ConvertGoOpsToJsonMap_def convert_item_def ProofLineItem_ok_def)

lemma branch_ok:
  assumes "list_all ProofLineItem_ok its" "AnchorObj_ok x" "ascii t" "ascii label"
  shows "json_wf (JArr [JObj [(''label'', JStr label), (''ops'', JArr (ConvertGoOpsToJsonMap its @ [anchors_entry t x]))]])"
    "json_sorted (JArr [JObj [(''label'', JStr label), (''ops'', JArr (ConvertGoOpsToJsonMap its @ [anchors_entry t x]))]])"
proof -
  have "json_wf (anchors_entry t x) \<and> json_sorted (anchors_entry t x)"
    using assms(2,3) by (auto simp: anchors_entry_def AnchorObj_ok_def list_all_iff)
  with convert_ok [OF assms(1)] assms(4)
  show "json_wf (JArr [JObj [(''label'', JStr label), (''ops'', JArr (ConvertGoOpsToJsonMap its @ [anchors_entry t x]))]])"
    "json_sorted (JArr [JObj [(''label'', JStr label), (''ops'', JArr (ConvertGoOpsToJsonMap its @ [anchors_entry t x]))]])"
    by (auto simp: list_all_iff)
qed

lemma AddCalendarBranch_doc_ok:
  assumes "AddCalendarBranch agg calState t p = Inr doc" "doc_ok p" "ascii t"
    "as_AggState agg = OpsState_marshal os" "calState = AnchorOpsState_marshal aos" "OpsState_ok os" "AnchorOpsState_ok aos"
  shows "doc_ok doc"
proof -
  have "doc = obj_set ''branches'' (JArr [JObj [(''label'', JStr ''cal_anchor_branch''),
      (''ops'', JArr (ConvertGoOpsToJsonMap (os_Ops os @ aos_Ops aos) @ [anchors_entry t (Anchor aos)]))]]) p"
    using assms(1,4-7) by (simp add: AddCalendarBranch_def unmarshal_ok_def codec_simps Let_def)
  moreover have "list_all ProofLineItem_ok (os_Ops os @ aos_Ops aos)" "AnchorObj_ok (Anchor aos)"
    using assms(6,7) by (simp_all add: OpsState_ok_def AnchorOpsState_ok_def)
  ultimately show ?thesis using branch_ok [of "os_Ops os @ aos_Ops aos" "Anchor aos" t] doc_ok_set [OF assms(2), of "''branches''"] assms(3)
    by simp
qed

lemma AddChainBranch_doc_ok:
  assumes "AddChainBranch a t h ty p = Inr doc" "doc_ok p" "ascii ty"
    "aba_AnchorBtcAggState a = OpsState_marshal os" "abt_BtcTxState t = OpsState_marshal ts" "abh_BtcHeadState h = AnchorOpsState_marshal hs"
    "OpsState_ok os" "OpsState_ok ts" "AnchorOpsState_ok hs" "map_of p ''branches'' = Some (JArr (JObj b # bs))"
  shows "doc_ok doc"
proof -
  define br where "br = JArr [JObj [(''label'', JStr ''btc_anchor_branch''),
      (''ops'', JArr (ConvertGoOpsToJsonMap (os_Ops os @ os_Ops ts @ aos_Ops hs) @ [anchors_entry ty (Anchor hs)]))]]"
  have "list_all ProofLineItem_ok (os_Ops os @ os_Ops ts @ aos_Ops hs)" "AnchorObj_ok (Anchor hs)"
    using assms(7-9) by (simp_all add: OpsState_ok_def AnchorOpsState_ok_def)
  then have br: "json_wf br" "json_sorted br" unfolding br_def by (intro branch_ok; simp add: assms(3))+
  have "(''branches'', v) \<in> set p \<Longrightarrow> json_wf v \<and> json_sorted v" for v
    using assms(2) by (auto simp: doc_ok_def list_all_iff)
  from this [OF map_of_SomeD [OF assms(10)]]
  have "json_wf (JArr (JObj b # bs)) \<and> json_sorted (JArr (JObj b # bs))" .
  then have bs: "doc_ok b" "json_wf (JArr bs)" "json_sorted (JArr bs)" by (simp_all add: doc_ok_def)
  have "doc_ok (obj_set ''branches'' br b)" using doc_ok_set [OF bs(1) _ br, of "''branches''"] by simp
  moreover have "doc = obj_set ''branches'' (JArr (JObj (obj_set ''branches'' br b) # bs)) p"
    using assms(1,4-10) by (simp add: AddChainBranch_def unmarshal_ok_def codec_simps Let_def br_def)
  ultimately show ?thesis using doc_ok_set [OF assms(2), of "''branches''"] bs by (simp add: doc_ok_def)
qed

lemma AddChainBranch_keeps:
  "AddChainBranch a t h ty p = Inr p' \<Longrightarrow> k \<noteq> ''branches'' \<Longrightarrow> map_of p' k = map_of p k"
  by (auto simp: AddChainBranch_def Let_def store_simps split: option.splits json.splits list.splits)

text \<open>C11. The published calendar proof of a hash is sound: for every hash of a batch, running the
  steps of its calendar branch on the hash gives the calendar root that covers its aggregation,
  with or without a beacon value. (No sibling in its tree proof contains the bytes "drand",
  which would be taken for the beacon value.)\<close>

theorem calendar_proof_sound:
  assumes mk: "merkle_ok (sha256 cr) M"
    and agg: "j < length aggs" "aggs ! j = ProcessAggregation cr M (Some u) items drand" "i < length items"
    and roots: "\<forall>a \<in> set aggs. \<exists>r. AggRoot a = hex_encode r"
    and nd: "\<forall>p \<in> set (mt_proof M (map (leaf_of cr drand) items) i). \<not> contains (snd p) ''drand''"
    and asc: "ascii drand" "ascii baseUri"
    and h: "hex_decode_ok (hi_Hash (items ! i)) = Some h" "drand = [] \<longrightarrow> length h = 32"
  shows "\<exists>p'. AddCalendarBranch (AggStates (aggs ! j) ! i)
      (cso_CalState (CreateCalStateMessage baseUri tx (GenerateCalendarTree M aggs) ! j)) t p = Inr p' \<and>
    hex_encode (run_json_ops cr (branch_ops (first_branch p')) h) = CalRoot (GenerateCalendarTree M aggs)"
  using calendar_branch_value [OF assms] by blast

definition toy_hash :: "char \<Rightarrow> bytes" where
  "toy_hash c = replicate 32 c"

definition toy_items :: "HashItem list" where
  "toy_items = map (\<lambda>n. \<lparr>hi_ProofID = ''p'', hi_Hash = hex_encode (toy_hash n)\<rparr>) ''123''"

lemma toy_leaves: "map (leaf_of toy_crypto []) toy_items = [toy_hash (CHR ''1''), toy_hash (CHR ''2''), toy_hash (CHR ''3'')]"
  by (simp add: toy_items_def leaf_of_def toy_hash_def codec_simps Let_def)

lemma toy_no_drand: "\<not> contains (toy_hash (CHR ''1'')) ''drand''" "\<not> contains (toy_hash (CHR ''3'')) ''drand''"
  by (auto simp: toy_hash_def dest!: contains_char)

theorem calendar_proof_sound_witness:
  "\<exists>p'. AddCalendarBranch (AggStates (ProcessAggregation toy_crypto (ref_merkle (\<lambda>b. b)) (Some ''u'') toy_items []) ! 1)
      (cso_CalState (CreateCalStateMessage ''http://core'' \<lparr>tm_Hash = ''H'', tm_Data = []\<rparr>
        (GenerateCalendarTree (ref_merkle (\<lambda>b. b))
          [ProcessAggregation toy_crypto (ref_merkle (\<lambda>b. b)) (Some ''u'') toy_items []]) ! 0)) ''cal'' Proof = Inr p' \<and>
    hex_encode (run_json_ops toy_crypto (branch_ops (first_branch p')) (toy_hash (CHR ''2''))) =
      CalRoot (GenerateCalendarTree (ref_merkle (\<lambda>b. b))
        [ProcessAggregation toy_crypto (ref_merkle (\<lambda>b. b)) (Some ''u'') toy_items []])"
proof -
  let ?agg = "ProcessAggregation toy_crypto (ref_merkle (\<lambda>b. b)) (Some ''u'') toy_items []"
  have mk: "merkle_ok (sha256 toy_crypto) (ref_merkle (\<lambda>b. b))"
    using ref_merkle_ok [of "\<lambda>b. b"] by (simp add: toy_crypto_def)
  have r: "\<exists>r. AggRoot ?agg = hex_encode r"
    by (auto simp: ProcessAggregation_def Let_def toy_items_def)
  have s: "\<forall>p \<in> set (mt_proof (ref_merkle (\<lambda>b. b)) (map (leaf_of toy_crypto []) toy_items) 1). \<not> contains (snd p) ''drand''"
    unfolding toy_leaves using toy_no_drand
    by (simp add: ref_merkle_def ref_proof.simps sibling_def)
  show ?thesis
    using calendar_proof_sound [OF mk _ _ _ _ s, of 0 "[?agg]" "''u''" "''http://core''" "toy_hash (CHR ''2'')"
        "\<lparr>tm_Hash = ''H'', tm_Data = []\<rparr>" "''cal''" Proof] r
    by (simp add: toy_items_def codec_simps toy_hash_def)
qed

text \<open>The Bitcoin stage leaves the calendar branch as it is; its branch leads from the data of the
  calendar transaction to what the path gives from the double hash of the transaction. (The anchor
  root stands at a byte boundary of the body.)\<close>

lemma bitcoin_branch_value:
  assumes mk: "merkle_ok (sha256 cr) M"
    and anchor: "AggregateAnchorTx M uuid txs = Inr agg" "List.map_filter cal_leaf txs = cals" "n < length cals"
    and tx: "btm_BtcTxBody m = hex_encode body" "btm_AnchorBtcAggRoot m = ba_AggRoot agg"
      "go_index (btm_BtcTxBody m) (ba_AggRoot agg) = int (2 * k)" "GenerateAnchorBtcTxState m = Inr txState"
    and head: "\<forall>p \<in> set (bmm_Path mon). ascii (JLeft p) \<and> ascii (JRight p)" "ascii uri"
    and doc: "map_of p ''branches'' = Some (JArr (JObj b # bs))"
  shows "\<exists>p'. AddChainBranch (PrepareBtcaStateData agg ! n) txState (GenerateHeadStateObject uri hash mon) t p = Inr p' \<and>
    branch_ops (first_branch p') = branch_ops b \<and>
    run_json_ops cr (branch_ops (first_branch (first_branch p'))) (fst (cals ! n)) =
      foldl (\<lambda>v s. sha256 cr (sha256 cr (operand (JLeft s) @ v @ operand (JRight s))))
        (sha256 cr (sha256 cr body)) (bmm_Path mon) \<and>
    (doc_ok p \<and> ascii t \<longrightarrow> doc_ok p')"
proof -
  note a = anchor_tree_sound [OF mk anchor]
  let ?root = "mt_root M (map fst cals)"
  let ?os = "\<lparr>os_Ops = bpd_Proof (ba_ProofData agg ! n)\<rparr>"
  let ?hs = "\<lparr>aos_Ops = concat (map head_steps (bmm_Path mon)),
      Anchor = \<lparr>AnchorID = format_int (bmm_BtcHeadHeight mon), Uris = [to_lower (data_uri uri hash)]\<rparr>\<rparr>"
  obtain its where its: "abt_BtcTxState txState = OpsState_marshal \<lparr>os_Ops = its\<rparr>" "list_all ProofLineItem_ok its"
    "run_ops cr its ?root = sha256 cr (sha256 cr body)"
    using tx_segment_sound [OF tx(4,1), of ?root k cr] tx(1-3) a(2) by auto
  have st: "aba_AnchorBtcAggState (PrepareBtcaStateData agg ! n) = OpsState_marshal ?os"
    "abh_BtcHeadState (GenerateHeadStateObject uri hash mon) = AnchorOpsState_marshal ?hs"
    using anchor(3) a(4) by (simp_all add: PrepareBtcaStateData_def GenerateHeadStateObject_def Let_def)
  have ok: "OpsState_ok ?os" "OpsState_ok \<lparr>os_Ops = its\<rparr>" "AnchorOpsState_ok ?hs"
    using a(5) its(2) head by (auto simp: OpsState_ok_def AnchorOpsState_ok_def AnchorObj_ok_def ascii_format_int head_steps_def list_all_iff)
  obtain p' where p': "AddChainBranch (PrepareBtcaStateData agg ! n) txState (GenerateHeadStateObject uri hash mon) t p = Inr p'"
    "branch_ops (first_branch p') = branch_ops b"
    "\<And>v. run_json_ops cr (branch_ops (first_branch (first_branch p'))) v =
      run_ops cr (aos_Ops ?hs) (run_ops cr its (run_ops cr (os_Ops ?os) v))"
    using AddChainBranch_ok [OF st(1) its(1) st(2) ok doc] by fastforce
  moreover have "doc_ok p \<and> ascii t \<longrightarrow> doc_ok p'"
    using AddChainBranch_doc_ok [OF p'(1) _ _ st(1) its(1) st(2) ok doc] by blast
  ultimately show ?thesis using a(1) its(3) by (simp add: hex_path_sound)
qed

definition toy_cal_tx :: ResultTx where
  "toy_cal_tx = \<lparr>rtx_Hash = ''H'', rtx_Height = 7,
     rtx_Tx = EncodeTx (Tx_zero\<lparr>TxType := ''CAL'', Data := hex_encode (toy_hash (CHR ''1''))\<rparr>),
     rtx_Events = []\<rparr>"

definition toy_btc_msg :: BtcTxMsg where
  "toy_btc_msg = BtcTxMsg_zero\<lparr>btm_AnchorBtcAggRoot := hex_encode (toy_hash (CHR ''1'')),
     btm_BtcTxBody := hex_encode (''AA'' @ toy_hash (CHR ''1'') @ ''B'')\<rparr>"

definition toy_mon :: BtcMonMsg where
  "toy_mon = BtcMonMsg_zero\<lparr>bmm_Path := [\<lparr>JLeft = ''aa'', JRight = []\<rparr>, \<lparr>JLeft = [], JRight = ''bb''\<rparr>]\<rparr>"

lemma toy_leaf: "cal_leaf toy_cal_tx = Some (toy_hash (CHR ''1''), toy_cal_tx)"
proof -
  let ?t = "Tx_zero\<lparr>TxType := ''CAL'', Data := hex_encode (toy_hash (CHR ''1''))\<rparr>"
  have "Tx_ok ?t" by (simp add: Tx_ok_def Tx_zero_def is_i64_def)
  then have "DecodeTx (rtx_Tx toy_cal_tx) = (?t, False)"
    unfolding toy_cal_tx_def by (simp add: Tx_marshal_decode)
  then show ?thesis by (simp add: cal_leaf_def codec_simps)
qed

lemma toy_cals: "List.map_filter cal_leaf [toy_cal_tx] = [(toy_hash (CHR ''1''), toy_cal_tx)]"
  by (simp add: toy_leaf)

lemma toy_root: "mt_root (ref_merkle (\<lambda>b. b)) [toy_hash (CHR ''1'')] = toy_hash (CHR ''1'')"
  by (simp add: ref_merkle_def ref_root.simps)

lemma toy_index: "go_index (btm_BtcTxBody toy_btc_msg) (hex_encode (toy_hash (CHR ''1''))) = int (2 * 2)"
  by code_simp

end
