(* ===== verification/Tx_Rate_Limiter.thy ===== *)
theory Tx_Rate_Limiter
  imports Chp_Util
begin

text \<open>
  The rate limiter, \<open>src/txratelimiter/validation.go\<close>: the token bucket, the validation records
  of the Cores (keyed by the hex form of their public key), and \<open>Validate\<close>, the check of a
  transaction that enters the mempool.

  The lemmas show that a bucket never exceeds its rate, that a record stays with its key, and
  how each kind of transaction changes the submitter's record; the properties bound the
  transactions accepted at one height and record what the limiter does not limit.
\<close>

subsection \<open>Token buckets\<close>

definition rate :: "int \<Rightarrow> int \<Rightarrow> RateLimit" where
  "rate allowed per = \<lparr>AllowedRate = allowed, PerBlocks = per, LastCheck = 0, Bucket = Fin 0\<rparr>"

definition NewTxValidation :: TxValidation where
  "NewTxValidation = TxValidation_zero
     \<lparr>JWKAllowedRate := rate 6 1440,
      CalAllowedRate := rate 80 60,
      BtcaAllowedRate := rate 2 60,
      BtccAllowedRate := rate 1 60,
      NISTAllowedRate := rate 80 60,
      FeeAllowedRate := rate 4 60\<rparr>"

definition NewTxValidationMap :: "string \<rightharpoonup> TxValidation" where
  "NewTxValidationMap = Map.empty"

definition RateLimitUpdate :: "int \<Rightarrow> RateLimit \<Rightarrow> RateLimit" where
  "RateLimitUpdate currHeight limit =
     (let delta = i64 (currHeight - LastCheck limit);
          bucket = f_add (Bucket limit)
            (f_mul (f_of_int delta) (f_div (f_of_int (AllowedRate limit)) (f_of_int (PerBlocks limit))));
          bucket = (if f_lt (f_of_int (AllowedRate limit)) bucket then f_of_int (AllowedRate limit) else bucket)
      in limit\<lparr>LastCheck := currHeight, Bucket := bucket\<rparr>)"

definition IsHabitualViolator :: "RateLimit \<Rightarrow> bool" where
  "IsHabitualViolator limit = f_lt (Bucket limit) (Fin 1)"

definition UpdateAcceptTx :: "RateLimit \<Rightarrow> RateLimit" where
  "UpdateAcceptTx limit = limit\<lparr>Bucket := f_add (Bucket limit) (Fin (-1))\<rparr>"

subsection \<open>Records\<close>

text \<open>\<open>elliptic.Marshal\<close> of a P-256 point: the uncompressed form.\<close>

fun be_bytes :: "nat \<Rightarrow> nat \<Rightarrow> bytes" where
  "be_bytes 0 x = []"
| "be_bytes (Suc n) x = be_bytes n (x div 256) @ [char_of (x mod 256)]"

definition elliptic_marshal :: "PublicKey \<Rightarrow> bytes" where
  "elliptic_marshal k = CHR 0x04 # be_bytes 32 (pk_X k) @ be_bytes 32 (pk_Y k)"

definition GetPubKeyHex :: "string \<Rightarrow> AnchorState \<Rightarrow> string" where
  "GetPubKeyHex coreID state =
     (case CoreKeys state coreID of
        None \<Rightarrow> []
      | Some k \<Rightarrow> hex_encode (elliptic_marshal k))"

definition IsValidBtcc :: "Tx \<Rightarrow> AnchorState \<Rightarrow> bool" where
  "IsValidBtcc tx state =
     (let meta = split_on (CHR ''|'') (Meta tx); (btcaTx, err) = DecodeTx (LatestBtcaTx state)
      in err \<and> length meta > 0 \<and> hd meta = CoreID btcaTx)"

definition GetLastNSubmitters :: "int \<Rightarrow> AnchorState \<Rightarrow> string \<rightharpoonup> int" where
  "GetLastNSubmitters n state = (\<lambda>i.
     if CoreKeys state i = None then None
     else
       (case TxValidations state (GetPubKeyHex i state) of
          None \<Rightarrow> None
        | Some r \<Rightarrow>
            (let lim = i64 (Height state - n);
                 c = (if LastCalTxHeight r > lim then Some (LastCalTxHeight r) else None);
                 c = (if LastFeeTxHeight r > lim then Some (LastFeeTxHeight r) else c);
                 c = (if LastBtcaTxHeight r > lim then Some (LastBtcaTxHeight r) else c)
             in if LastBtccTxHeight r > lim then Some (LastBtccTxHeight r) else c)))"

text \<open>A missing record is read as the zero value of the map's element type: the fresh record
  assigned just before is overwritten.\<close>

definition GetValidationRecord :: "string \<Rightarrow> AnchorState \<Rightarrow> string \<times> TxValidation \<times> err option" where
  "GetValidationRecord coreID state =
     (let pubKeyHex = GetPubKeyHex coreID state in
      if pubKeyHex = [] then ([], NewTxValidation, Some (Err ''no pubkey for core id''))
      else (pubKeyHex,
            (case TxValidations state pubKeyHex of None \<Rightarrow> TxValidation_zero | Some r \<Rightarrow> r),
            None))"

definition SetValidationRecord :: "string \<Rightarrow> TxValidation \<Rightarrow> AnchorState \<Rightarrow> AnchorState \<times> err option" where
  "SetValidationRecord coreID r state =
     (let pubKeyHex = GetPubKeyHex coreID state in
      if pubKeyHex = [] then (state, Some (Err ''no pubkey for core id''))
      else (state\<lparr>TxValidations := (TxValidations state)(pubKeyHex \<mapsto> r)\<rparr>, None))"

definition IncrementSuccessAnchor :: "string \<Rightarrow> AnchorState \<Rightarrow> AnchorState \<times> err option" where
  "IncrementSuccessAnchor coreID state =
     (case GetValidationRecord coreID state of
        (_, r, Some e) \<Rightarrow> (state, Some e)
      | (_, r, None) \<Rightarrow>
          SetValidationRecord coreID (r\<lparr>ConfirmedAnchors := i64 (ConfirmedAnchors r + 1)\<rparr>) state)"

definition IncrementFailedAnchor :: "string \<Rightarrow> AnchorState \<Rightarrow> AnchorState \<times> err option" where
  "IncrementFailedAnchor coreID state =
     (case GetValidationRecord coreID state of
        (_, r, Some e) \<Rightarrow> (state, Some e)
      | (_, r, None) \<Rightarrow>
          SetValidationRecord coreID (r\<lparr>FailedAnchors := i64 (FailedAnchors r + 1)\<rparr>) state)"

definition GetJWKChanges :: "string \<Rightarrow> AnchorState \<Rightarrow> int \<times> err option" where
  "GetJWKChanges coreID state =
     (case GetValidationRecord coreID state of
        (_, r, Some e) \<Rightarrow> (0, Some e)
      | (_, r, None) \<Rightarrow> (JWKSubmissions r, None))"

definition IsValidator :: "string \<Rightarrow> AnchorState \<Rightarrow> bool" where
  "IsValidator i state = list_ex (\<lambda>v. val_Address v = i) (Validators state)"

subsection \<open>Validation of a transaction\<close>

text \<open>The change of the record in each case of the switch, with the verdict and the error.\<close>

definition validate_record ::
  "Tx \<Rightarrow> AnchorState \<Rightarrow> TxValidation \<Rightarrow> TxValidation \<times> bool \<times> err option" where
  "validate_record tx state r =
     (let h = Height state; coreID = CoreID tx in
      if TxType tx = ''VAL'' then (r, True, None)
      else if TxType tx = ''CAL'' then
        (let r = r\<lparr>CalValidationSuccess := i64 (CalValidationSuccess r + 1), LastCalTxHeight := h\<rparr>;
             r = r\<lparr>CalAllowedRate := RateLimitUpdate h (CalAllowedRate r)\<rparr>
         in if \<not> IsHabitualViolator (CalAllowedRate r) then
              (r\<lparr>CalAllowedRate := UpdateAcceptTx (CalAllowedRate r),
                 CalValidationSuccess := i64 (CalValidationSuccess r + 1), LastCalTxHeight := h\<rparr>, True, None)
            else (r\<lparr>CalValidationFailures := i64 (CalValidationFailures r + 1)\<rparr>, True, None))
      else if TxType tx = ''BTC-E'' then (r, True, None)
      else if TxType tx = ''BTC-A'' then
        (let r = r\<lparr>BtcaAllowedRate := RateLimitUpdate h (BtcaAllowedRate r)\<rparr>
         in if \<not> IsHabitualViolator (BtcaAllowedRate r) \<or> IsValidator coreID state then
              (r\<lparr>BtcaAllowedRate := UpdateAcceptTx (BtcaAllowedRate r), LastBtcaTxHeight := h\<rparr>, True, None)
            else (r, False, None))
      else if TxType tx = ''BTC-C'' then
        (let r = r\<lparr>BtccAllowedRate := RateLimitUpdate h (BtccAllowedRate r)\<rparr>
         in if \<not> (IsHabitualViolator (BtccAllowedRate r) \<or> IsValidator coreID state) then
              (r\<lparr>BtccAllowedRate := UpdateAcceptTx (BtccAllowedRate r), LastBtccTxHeight := h\<rparr>, True, None)
            else (r, True, None))
      else if TxType tx = ''FEE'' then
        (let i = parse_int (Data tx);
             r = r\<lparr>FeeAllowedRate := RateLimitUpdate h (FeeAllowedRate r)\<rparr>
         in if \<not> IsHabitualViolator (FeeAllowedRate r) \<and> snd i = None \<and> fst i \<ge> 50 then
              (r\<lparr>FeeAllowedRate := UpdateAcceptTx (FeeAllowedRate r), LastFeeTxHeight := h\<rparr>, True, None)
            else (r, False, None))
      else if TxType tx = ''JWK'' then
        (case LnUris state coreID of
           None \<Rightarrow> (r\<lparr>LastJWKTxHeight := h\<rparr>, True, None)
         | Some lnUri \<Rightarrow>
             (let (lnID, e) = unmarshal jd_LnIdentity LnIdentity_zero (Meta tx);
                  r = (if lnUri \<noteq> lnID then r\<lparr>JWKSubmissions := i64 (JWKSubmissions r + 1)\<rparr> else r)
              in (r\<lparr>LastJWKTxHeight := h\<rparr>, True, if e then Some (Err ''json'') else None)))
      else (r, False, None))"

definition Validate :: "Crypto \<Rightarrow> bytes \<Rightarrow> AnchorState \<Rightarrow> AnchorState \<times> Tx \<times> bool \<times> err option" where
  "Validate cr incoming state =
     (case DecodeTxAndVerifySig cr (CoreKeys state) incoming of
        Inl e \<Rightarrow> (state, Tx_zero, False, Some e)
      | Inr tx \<Rightarrow>
          if CoreKeys state (CoreID tx) = None then
            (if TxType tx = ''JWK'' then (state, tx, True, None)
             else (state, tx, False, Some (Err ''Transmitting Core has not yet declared its keys'')))
          else
            (let (pubKeyHex, r, _) = GetValidationRecord (CoreID tx) state;
                 (r', validated, e) = validate_record tx state r
             in (state\<lparr>TxValidations := (TxValidations state)(pubKeyHex \<mapsto> r')\<rparr>, tx, validated, e)))"

subsection \<open>Bounds on buckets\<close>

definition f_le :: "f32 \<Rightarrow> int \<Rightarrow> bool" where
  "f_le b k = (case b of NInf \<Rightarrow> True | Fin q \<Rightarrow> q \<le> of_int k | _ \<Rightarrow> False)"

definition small :: "int \<Rightarrow> bool" where
  "small n \<longleftrightarrow> \<bar>n\<bar> < 16777216"

lemma mk32_le: "q \<le> of_int k \<Longrightarrow> small k \<Longrightarrow> f_le (mk32 q) k"
proof -
  assume q: "q \<le> of_int k" and k: "small k"
  have "rnd q \<le> rnd (of_int k)" using q by (rule rnd_mono)
  then have r: "rnd q \<le> of_int k" using k by (simp add: small_def)
  have "(of_int k :: rat) < of_int (2 ^ 128)" unfolding of_int_less_iff using k by (simp add: small_def)
  with r have "\<not> 2 ^ 128 \<le> rnd q" by simp
  with r show ?thesis by (simp add: f_le_def mk32_def)
qed

lemma mk32_Fin:
  assumes "of_int m \<le> q" "q \<le> of_int k" "small m" "small k"
  shows "mk32 q = Fin (rnd q)"
proof -
  have "rnd q \<le> rnd (of_int k)" "rnd (of_int m) \<le> rnd q" using assms by (auto intro: rnd_mono)
  then have r: "rnd q \<le> of_int k" "of_int m \<le> rnd q" using assms by (simp_all add: small_def)
  have "(of_int k :: rat) < of_int (2 ^ 128)" "of_int (- (2 ^ 128)) < (of_int m :: rat)"
    unfolding of_int_less_iff using assms by (simp_all add: small_def)
  with r show ?thesis by (simp add: mk32_def)
qed

lemma f_of_int_small [simp]: "small n \<Longrightarrow> f_of_int n = Fin (of_int n)"
  using mk32_Fin [of n "of_int n" n] by (simp add: f_of_int_def small_def)

lemma mk32_not_NaN [simp]: "mk32 q \<noteq> NaN32"
  by (simp add: mk32_def)

lemma f_add_le: "f_le b k \<Longrightarrow> small (k + m) \<Longrightarrow> f_le (f_add b (Fin (of_int m))) (k + m)"
  by (cases b) (auto simp: f_le_def [of NInf] f_le_def [of "Fin _"] f_le_def [of PInf] f_le_def [of NaN32]
    intro: mk32_le)

lemma f_le_not_violator: "f_le b k \<Longrightarrow> \<not> f_lt b (Fin 1) \<Longrightarrow> 1 \<le> k"
proof (cases b)
  case (Fin q)
  assume "f_le b k" "\<not> f_lt b (Fin 1)"
  with Fin have "1 \<le> q" "q \<le> of_int k" by (simp_all add: f_le_def)
  then have "of_int 1 \<le> (of_int k :: rat)" by simp
  then show ?thesis unfolding of_int_le_iff .
qed (simp_all add: f_le_def)

lemma f_of_int_i64: "is_i64 n \<Longrightarrow> \<exists>q. f_of_int n = Fin q"
proof -
  assume n: "is_i64 n"
  have v: "rnd (2 ^ 63) = 2 ^ 63" by code_simp
  have "(of_int n :: rat) \<le> of_int (2 ^ 63 :: int)" "of_int (- (2 ^ 63) :: int) \<le> (of_int n :: rat)"
    unfolding of_int_le_iff using n by (simp_all add: is_i64_def)
  then have "rnd (of_int n) \<le> rnd (2 ^ 63)" "rnd (- (2 ^ 63)) \<le> rnd (of_int n)"
    by (auto intro!: rnd_mono)
  then have "rnd (of_int n) \<le> 2 ^ 63" "- (2 ^ 63) \<le> rnd (of_int n)"
    unfolding rnd_minus v by simp_all
  then show ?thesis by (simp add: f_of_int_def mk32_def)
qed

text \<open>Limits whose division is finite.\<close>

definition limit_ok :: "RateLimit \<Rightarrow> bool" where
  "limit_ok l \<longleftrightarrow> 0 \<le> AllowedRate l \<and> AllowedRate l < 16777216 \<and> 0 < PerBlocks l \<and> PerBlocks l < 16777216"

lemma limit_ratio: "limit_ok l \<Longrightarrow>
  \<exists>q. f_div (f_of_int (AllowedRate l)) (f_of_int (PerBlocks l)) = Fin q"
proof -
  assume ok: "limit_ok l"
  let ?a = "AllowedRate l" and ?p = "PerBlocks l"
  have s: "small ?a" "small ?p" and p: "1 \<le> ?p" and a: "0 \<le> ?a"
    using ok by (auto simp: limit_ok_def small_def)
  have p1: "(1 :: rat) \<le> of_int ?p" using p by simp
  have a0: "(0 :: rat) \<le> of_int ?a" using a by simp
  have "of_int ?a / of_int ?p \<le> (of_int ?a / 1 :: rat)" using p1 a0 by (intro divide_left_mono) simp_all
  moreover have "0 \<le> (of_int ?a / of_int ?p :: rat)" using p1 a0 by simp
  ultimately have "mk32 (of_int ?a / of_int ?p) = Fin (rnd (of_int ?a / of_int ?p))"
    using s mk32_Fin [of 0 _ ?a] by (simp add: small_def)
  then show ?thesis using s p by (simp add: f_div_fin_def)
qed

lemma RateLimitUpdate_cap:
  assumes "limit_ok l" "Bucket l = Fin b"
  shows "f_le (Bucket (RateLimitUpdate h l)) (AllowedRate l)"
proof -
  obtain q where q: "f_div (f_of_int (AllowedRate l)) (f_of_int (PerBlocks l)) = Fin q"
    using limit_ratio [OF assms(1)] by blast
  obtain d where d: "f_of_int (i64 (h - LastCheck l)) = Fin d" using f_of_int_i64 by force
  let ?b = "f_add (Fin b) (mk32 (d * q))"
  have s: "small (AllowedRate l)" using assms(1) by (auto simp: limit_ok_def small_def)
  have "?b \<noteq> NaN32" by (cases "mk32 (d * q)") auto
  then have "\<not> f_lt (Fin (of_int (AllowedRate l))) ?b \<Longrightarrow> f_le ?b (AllowedRate l)"
    by (cases ?b) (auto simp: f_le_def)
  moreover have "f_div (Fin (of_int (AllowedRate l))) (f_of_int (PerBlocks l)) = Fin q" using q s by simp
  ultimately show ?thesis
    using s by (auto simp: RateLimitUpdate_def Let_def d assms(2) f_le_def [of "Fin _"])
qed

lemma RateLimitUpdate_same_height:
  assumes "limit_ok l" "LastCheck l = h" "f_le (Bucket l) k" "small k"
  shows "f_le (Bucket (RateLimitUpdate h l)) k"
proof -
  obtain q where q: "f_div (f_of_int (AllowedRate l)) (f_of_int (PerBlocks l)) = Fin q"
    using limit_ratio [OF assms(1)] by blast
  have s: "small (AllowedRate l)" "small 0" using assms(1) by (auto simp: limit_ok_def small_def)
  have z: "mk32 0 = Fin (of_int 0)" "i64 0 = 0" by (simp_all add: mk32_def i64_def)
  let ?b = "f_add (Bucket l) (Fin (of_int 0))"
  have b: "f_le ?b k" using f_add_le [OF assms(3), of 0] assms(4) by simp
  then have "f_lt (Fin (of_int (AllowedRate l))) ?b \<Longrightarrow> AllowedRate l \<le> k"
    by (cases ?b) (auto simp: f_le_def dest: order.strict_trans2 order.strict_implies_order)
  moreover have "f_div (Fin (of_int (AllowedRate l))) (f_of_int (PerBlocks l)) = Fin q" using q s by simp
  moreover have "f_mul (Fin 0) (Fin q) = Fin 0" using z(1) by simp
  ultimately show ?thesis
    using b s by (auto simp: RateLimitUpdate_def Let_def assms(2) z f_le_def [of "Fin _"])
qed

lemma RateLimitUpdate_fields [simp]:
  "AllowedRate (RateLimitUpdate h l) = AllowedRate l" "PerBlocks (RateLimitUpdate h l) = PerBlocks l"
  "LastCheck (RateLimitUpdate h l) = h"
  by (simp_all add: RateLimitUpdate_def Let_def)

lemma UpdateAcceptTx_fields [simp]:
  "AllowedRate (UpdateAcceptTx l) = AllowedRate l" "PerBlocks (UpdateAcceptTx l) = PerBlocks l"
  "LastCheck (UpdateAcceptTx l) = LastCheck l"
  by (simp_all add: UpdateAcceptTx_def)

lemma limit_ok_fields [simp]:
  "limit_ok (RateLimitUpdate h l) = limit_ok l" "limit_ok (UpdateAcceptTx l) = limit_ok l"
  by (simp_all add: limit_ok_def)

text \<open>\<open>tokens h l k\<close>: at height \<open>h\<close> the limit has at most \<open>k\<close> tokens.\<close>

definition tokens :: "int \<Rightarrow> RateLimit \<Rightarrow> int \<Rightarrow> bool" where
  "tokens h l k \<longleftrightarrow> limit_ok l \<and> f_le (Bucket (RateLimitUpdate h l)) k \<and> 0 \<le> k \<and> small k"

lemma tokens_update: "tokens h l k \<Longrightarrow> tokens h (RateLimitUpdate h l) k"
  using RateLimitUpdate_same_height [of "RateLimitUpdate h l" h k] by (simp add: tokens_def)

lemma tokens_accept:
  assumes "tokens h l k"
  shows "tokens h (UpdateAcceptTx (RateLimitUpdate h l)) k"
    and "\<not> IsHabitualViolator (RateLimitUpdate h l) \<Longrightarrow>
      1 \<le> k \<and> tokens h (UpdateAcceptTx (RateLimitUpdate h l)) (k - 1)"
proof -
  let ?l = "RateLimitUpdate h l"
  have t: "limit_ok l" "f_le (Bucket ?l) k" "0 \<le> k" "small k" using assms by (simp_all add: tokens_def)
  have s: "small (k + -1)" "f_le b (k + -1) \<Longrightarrow> f_le b k" for b
    using t(3,4) by (auto simp: small_def f_le_def split: f32.splits)
  have b: "f_le (Bucket (UpdateAcceptTx ?l)) (k + -1)"
    using f_add_le [OF t(2) s(1)] by (simp add: UpdateAcceptTx_def)
  have r: "f_le (Bucket (RateLimitUpdate h (UpdateAcceptTx ?l))) (k + -1)"
    using t(1) b s(1) by (intro RateLimitUpdate_same_height) simp_all
  then show "tokens h (UpdateAcceptTx ?l) k" using t s(2) by (simp add: tokens_def)
  assume "\<not> IsHabitualViolator ?l"
  then have "1 \<le> k" using f_le_not_violator [OF t(2)] by (simp add: IsHabitualViolator_def)
  with r t s show "1 \<le> k \<and> tokens h (UpdateAcceptTx ?l) (k - 1)" by (simp add: tokens_def)
qed

subsection \<open>What validation does to the state\<close>

lemma GetPubKeyHex_empty_iff [simp]: "GetPubKeyHex c st = [] \<longleftrightarrow> CoreKeys st c = None"
  by (simp add: GetPubKeyHex_def elliptic_marshal_def split: option.splits)

lemma GetPubKeyHex_cong: "CoreKeys st = CoreKeys st' \<Longrightarrow> GetPubKeyHex c st = GetPubKeyHex c st'"
  by (simp add: GetPubKeyHex_def)

text \<open>Validation touches nothing but one validation record: the one of the submitter's key.\<close>

lemma Validate_frame:
  assumes "Validate cr b st = (st', tx, ok, e)"
  shows "st' = st\<lparr>TxValidations := TxValidations st'\<rparr>"
    and "k \<noteq> GetPubKeyHex (CoreID tx) st \<Longrightarrow> TxValidations st' k = TxValidations st k"
proof -
  let ?P = "\<lambda>s t. s = st\<lparr>TxValidations := TxValidations s\<rparr> \<and>
    (k \<noteq> GetPubKeyHex (CoreID t) st \<longrightarrow> TxValidations s k = TxValidations st k)"
  have 0: "?P st t" for t by simp
  have 1: "?P (st\<lparr>TxValidations := (TxValidations st)(GetPubKeyHex (CoreID t) st \<mapsto> r)\<rparr>) t" for t r by simp
  have "?P (fst (Validate cr b st)) (fst (snd (Validate cr b st)))"
  proof (cases "DecodeTxAndVerifySig cr (CoreKeys st) b")
    case (Inl e) with 0 show ?thesis by (simp add: Validate_def)
  next
    case (Inr t)
    show ?thesis
    proof (cases "CoreKeys st (CoreID t) = None")
      case True with Inr 0 show ?thesis by (simp add: Validate_def)
    next
      case False
      then obtain r where "GetValidationRecord (CoreID t) st = (GetPubKeyHex (CoreID t) st, r, None)"
        by (auto simp: GetValidationRecord_def Let_def)
      with Inr False 1 show ?thesis by (simp add: Validate_def split: prod.split)
    qed
  qed
  with assms show "st' = st\<lparr>TxValidations := TxValidations st'\<rparr>"
    "k \<noteq> GetPubKeyHex (CoreID tx) st \<Longrightarrow> TxValidations st' k = TxValidations st k" by simp_all
qed

lemma Validate_keys:
  assumes "Validate cr b st = (st', tx, ok, e)"
  shows "CoreKeys st' = CoreKeys st" "Validators st' = Validators st" "Height st' = Height st"
    "LnUris st' = LnUris st"
  using arg_cong [OF Validate_frame(1) [OF assms], of CoreKeys]
    arg_cong [OF Validate_frame(1) [OF assms], of Validators]
    arg_cong [OF Validate_frame(1) [OF assms], of Height]
    arg_cong [OF Validate_frame(1) [OF assms], of LnUris] by simp_all

lemma Validate_known:
  assumes "DecodeTxAndVerifySig cr (CoreKeys st) b = Inr tx" "CoreKeys st (CoreID tx) = Some pk"
    "TxValidations st (GetPubKeyHex (CoreID tx) st) = Some r"
  shows "Validate cr b st =
    (st\<lparr>TxValidations := (TxValidations st)(GetPubKeyHex (CoreID tx) st \<mapsto> fst (validate_record tx st r))\<rparr>,
     tx, fst (snd (validate_record tx st r)), snd (snd (validate_record tx st r)))"
  using assms by (simp add: Validate_def GetValidationRecord_def split: prod.splits)

fun validate_all :: "Crypto \<Rightarrow> bytes list \<Rightarrow> AnchorState \<Rightarrow> AnchorState \<times> (Tx \<times> bool) list" where
  "validate_all cr [] st = (st, [])"
| "validate_all cr (b # bs) st =
     (let (st1, tx, ok, e) = Validate cr b st; (st2, rs) = validate_all cr bs st1
      in (st2, (tx, ok) # rs))"

text \<open>The accepted anchor transactions of a key, other than from a validator.\<close>

definition accepted_btca :: "AnchorState \<Rightarrow> string \<Rightarrow> (Tx \<times> bool) list \<Rightarrow> nat" where
  "accepted_btca st key rs = length (filter (\<lambda>(tx, ok). ok \<and> TxType tx = ''BTC-A'' \<and>
     GetPubKeyHex (CoreID tx) st = key \<and> \<not> IsValidator (CoreID tx) st) rs)"

definition has_tokens :: "string \<Rightarrow> int \<Rightarrow> AnchorState \<Rightarrow> bool" where
  "has_tokens key k st \<longleftrightarrow>
     (\<exists>r. TxValidations st key = Some r \<and> tokens (Height st) (BtcaAllowedRate r) k)"

lemma validate_record_btca_other:
  "TxType tx \<noteq> ''BTC-A'' \<Longrightarrow> BtcaAllowedRate (fst (validate_record tx st r)) = BtcaAllowedRate r"
  by (simp add: validate_record_def Let_def split: option.splits prod.splits)

lemma validate_record_btca:
  assumes "TxType tx = ''BTC-A''" "tokens (Height st) (BtcaAllowedRate r) k"
  defines "r' \<equiv> fst (validate_record tx st r)" and "ok \<equiv> fst (snd (validate_record tx st r))"
  shows "\<exists>k'. tokens (Height st) (BtcaAllowedRate r') k' \<and>
    k' + (if ok \<and> \<not> IsValidator (CoreID tx) st then 1 else 0) \<le> k"
proof (cases "IsHabitualViolator (RateLimitUpdate (Height st) (BtcaAllowedRate r))")
  case True
  then show ?thesis
    using assms(1,2) tokens_update tokens_accept(1)
    by (intro exI [of _ k]) (auto simp: r'_def ok_def validate_record_def Let_def)
next
  case False
  then show ?thesis
    using assms(1,2) tokens_accept(2) [OF assms(2) False]
    by (intro exI [of _ "k - 1"]) (auto simp: r'_def ok_def validate_record_def Let_def)
qed

lemma Validate_accepts:
  assumes "Validate cr b st = (st', tx, ok, e)" "ok" "TxType tx = ''BTC-A''"
  shows "DecodeTxAndVerifySig cr (CoreKeys st) b = Inr tx" "CoreKeys st (CoreID tx) \<noteq> None"
  using assms by (auto simp: Validate_def Let_def split: sum.splits if_splits prod.splits)

lemma Validate_unknown:
  assumes "Validate cr b st = (st', tx, ok, e)"
    and "\<not> (DecodeTxAndVerifySig cr (CoreKeys st) b = Inr tx \<and> CoreKeys st (CoreID tx) \<noteq> None)"
  shows "st' = st"
  using assms by (auto simp: Validate_def Let_def split: sum.splits if_splits prod.splits)

lemma Validate_tokens:
  assumes "Validate cr b st = (st', tx, ok, e)" "has_tokens key k st"
  shows "\<exists>k'. has_tokens key k' st' \<and> k' + int (accepted_btca st key [(tx, ok)]) \<le> k"
proof -
  obtain r where r: "TxValidations st key = Some r" "tokens (Height st) (BtcaAllowedRate r) k"
    using assms(2) by (auto simp: has_tokens_def)
  have h: "Height st' = Height st" using Validate_keys [OF assms(1)] by simp
  show ?thesis
  proof (cases "DecodeTxAndVerifySig cr (CoreKeys st) b = Inr tx \<and> CoreKeys st (CoreID tx) \<noteq> None \<and>
      GetPubKeyHex (CoreID tx) st = key")
    case True
    then obtain pk where pk: "CoreKeys st (CoreID tx) = Some pk" by blast
    let ?v = "validate_record tx st r"
    have "st' = st\<lparr>TxValidations := (TxValidations st)(key \<mapsto> fst ?v)\<rparr>" "(ok, e) = snd ?v"
      using Validate_known [of cr st b tx pk r] True pk r assms(1) by simp_all
    then have v: "st' = st\<lparr>TxValidations := (TxValidations st)(key \<mapsto> fst ?v)\<rparr>" "ok = fst (snd ?v)"
      by (auto dest: arg_cong [where f = fst])
    show ?thesis
    proof (cases "TxType tx = ''BTC-A''")
      case btca: True
      from validate_record_btca [OF btca r(2)] obtain k' where
        "tokens (Height st) (BtcaAllowedRate (fst ?v)) k'"
        "k' + (if ok \<and> \<not> IsValidator (CoreID tx) st then 1 else 0) \<le> k" using v by auto
      with v h True btca show ?thesis
        by (intro exI [of _ k']) (auto simp: has_tokens_def accepted_btca_def split: if_splits)
    next
      case False
      with v r h show ?thesis
        by (intro exI [of _ k]) (simp add: has_tokens_def accepted_btca_def validate_record_btca_other)
    qed
  next
    case False
    have "\<not> (ok \<and> TxType tx = ''BTC-A'' \<and> GetPubKeyHex (CoreID tx) st = key)"
      using False Validate_accepts [OF assms(1)] by auto
    moreover have "TxValidations st' key = TxValidations st key"
    proof (cases "GetPubKeyHex (CoreID tx) st = key")
      case True
      with False have "st' = st" by (intro Validate_unknown [OF assms(1)]) simp
      then show ?thesis by simp
    qed (simp add: Validate_frame(2) [OF assms(1)])
    ultimately show ?thesis using r h
      by (intro exI [of _ k]) (auto simp: has_tokens_def accepted_btca_def)
  qed
qed

lemma accepted_btca_simps:
  "accepted_btca st key [] = 0"
  "accepted_btca st key (x # rs) = accepted_btca st key [x] + accepted_btca st key rs"
  by (simp_all add: accepted_btca_def)

lemma accepted_btca_cong:
  "CoreKeys st = CoreKeys st' \<Longrightarrow> Validators st = Validators st' \<Longrightarrow>
    accepted_btca st key rs = accepted_btca st' key rs"
  by (simp add: accepted_btca_def GetPubKeyHex_def IsValidator_def)

lemma validate_all_tokens:
  "has_tokens key k st \<Longrightarrow> validate_all cr bs st = (st', rs) \<Longrightarrow> int (accepted_btca st key rs) \<le> k"
proof (induction bs arbitrary: st k st' rs)
  case Nil
  then show ?case by (auto simp: accepted_btca_simps has_tokens_def tokens_def)
next
  case (Cons b bs)
  obtain st1 tx ok e where v: "Validate cr b st = (st1, tx, ok, e)" by (metis prod_cases4)
  obtain st2 rs2 where a: "validate_all cr bs st1 = (st2, rs2)" by fastforce
  from Validate_tokens [OF v Cons.prems(1)] obtain k' where
    k': "has_tokens key k' st1" "k' + int (accepted_btca st key [(tx, ok)]) \<le> k" by blast
  have "accepted_btca st1 key rs2 = accepted_btca st key rs2"
    using Validate_keys [OF v] by (intro accepted_btca_cong) simp_all
  moreover have "int (accepted_btca st1 key rs2) \<le> k'" using Cons.IH [OF k'(1) a] .
  moreover have "rs = (tx, ok) # rs2" using Cons.prems(2) v a by simp
  ultimately show ?case
    using k'(2) accepted_btca_simps(2) [of st key "(tx, ok)" rs2] by simp
qed

lemma zero_rate_NaN:
  "AllowedRate l = 0 \<Longrightarrow> PerBlocks l = 0 \<Longrightarrow> \<not> IsHabitualViolator (RateLimitUpdate h l)"
proof -
  assume z: "AllowedRate l = 0" "PerBlocks l = 0"
  have s: "small 0" by (simp add: small_def)
  have "f_mul x NaN32 = NaN32" "f_add x NaN32 = NaN32" for x by (cases x; simp)+
  with z s show ?thesis
    by (simp add: IsHabitualViolator_def RateLimitUpdate_def Let_def f_div_fin_def)
qed

subsection \<open>Properties\<close>


definition toy_key :: PublicKey where
  "toy_key = \<lparr>pk_X = 5, pk_Y = 7\<rparr>"

definition toy_state :: AnchorState where
  "toy_state = AnchorState_zero
     \<lparr>CoreKeys := [''A'' \<mapsto> toy_key],
      TxValidations := [hex_encode (elliptic_marshal toy_key) \<mapsto> NewTxValidation], Height := 100\<rparr>"

definition toy_btca :: Tx where
  "toy_btca = Tx_zero\<lparr>TxType := ''BTC-A'', CoreID := ''A''\<rparr>"

lemma toy_decode:
  "DecodeTxAndVerifySig toy_crypto [''A'' \<mapsto> toy_key] (EncodeTxWithKey toy_crypto Some toy_btca)
    = Inr (toy_btca\<lparr>Sig := b64_encode (Tx_marshal toy_btca)\<rparr>)"
  by (rule EncodeTxWithKey_verifies)
    (simp_all add: toy_btca_def Tx_zero_def Tx_ok_def signer_for_def toy_crypto_def is_i64_def)


text \<open>A calendar transaction of a known Core is validated whatever its record says: the
  limit of 80 transactions in 60 blocks is counted but never enforced.\<close>

theorem cal_never_limited:
  assumes "DecodeTxAndVerifySig cr (CoreKeys st) b = Inr tx" "TxType tx = ''CAL''"
    "CoreKeys st (CoreID tx) = Some pk"
  shows "\<exists>st'. Validate cr b st = (st', tx, True, None)"
  using assms
  by (auto simp: Validate_def validate_record_def Let_def GetValidationRecord_def split: option.splits)

lemma toy_decode_kind:
  "ascii k \<Longrightarrow> k \<noteq> ''JWK'' \<Longrightarrow>
    DecodeTxAndVerifySig toy_crypto [''A'' \<mapsto> toy_key] (EncodeTxWithKey toy_crypto Some (toy_btca\<lparr>TxType := k\<rparr>))
    = Inr (toy_btca\<lparr>TxType := k, Sig := b64_encode (Tx_marshal (toy_btca\<lparr>TxType := k\<rparr>))\<rparr>)"
  by (rule EncodeTxWithKey_verifies)
    (simp_all add: toy_btca_def Tx_zero_def Tx_ok_def signer_for_def toy_crypto_def is_i64_def)

theorem cal_never_limited_witness:
  "\<exists>st'. Validate toy_crypto (EncodeTxWithKey toy_crypto Some (toy_btca\<lparr>TxType := ''CAL''\<rparr>))
     (toy_state\<lparr>TxValidations := [hex_encode (elliptic_marshal toy_key) \<mapsto> TxValidation_zero
        \<lparr>CalAllowedRate := \<lparr>AllowedRate = 80, PerBlocks = 60, LastCheck = 100, Bucket = Fin 0\<rparr>\<rparr>]\<rparr>)
     = (st', toy_btca\<lparr>TxType := ''CAL'', Sig := b64_encode (Tx_marshal (toy_btca\<lparr>TxType := ''CAL''\<rparr>))\<rparr>, True, None)"
  using toy_decode_kind [of "''CAL''"]
  by (intro cal_never_limited [where pk = toy_key]) (simp_all add: toy_state_def toy_btca_def)

text \<open>A known Core without a record is read as the zero record, whose bucket becomes 0/0:
  all of its anchor transactions are validated, at any height.\<close>

theorem missing_record_unlimited:
  assumes "CoreKeys st c = Some pk" "TxValidations st (GetPubKeyHex c st) = None"
    "\<forall>b \<in> set bs. \<exists>tx. DecodeTxAndVerifySig cr (CoreKeys st) b = Inr tx \<and> TxType tx = ''BTC-A'' \<and> CoreID tx = c"
  shows "list_all snd (snd (validate_all cr bs st))"
proof -
  have "(case TxValidations st (GetPubKeyHex c st) of None \<Rightarrow> True
      | Some r \<Rightarrow> AllowedRate (BtcaAllowedRate r) = 0 \<and> PerBlocks (BtcaAllowedRate r) = 0) \<Longrightarrow> ?thesis"
    using assms(1,3)
  proof (induction bs arbitrary: st)
    case (Cons b bs)
    let ?key = "GetPubKeyHex c st" and ?z = "\<lambda>r. AllowedRate (BtcaAllowedRate r) = 0 \<and> PerBlocks (BtcaAllowedRate r) = 0"
    obtain tx where tx: "DecodeTxAndVerifySig cr (CoreKeys st) b = Inr tx" "TxType tx = ''BTC-A''" "CoreID tx = c"
      using Cons.prems(3) by auto
    obtain r where r: "GetValidationRecord c st = (?key, r, None)" "?z r"
      using Cons.prems(1,2)
      by (auto simp: GetValidationRecord_def Let_def TxValidation_zero_def RateLimit_zero_def split: option.splits)
    obtain r' where r': "validate_record tx st r = (r', True, None)" "?z r'"
      using tx(2) r(2) zero_rate_NaN [of "BtcaAllowedRate r"] by (auto simp: validate_record_def Let_def)
    define st1 where "st1 = st\<lparr>TxValidations := (TxValidations st)(?key \<mapsto> r')\<rparr>"
    have v: "Validate cr b st = (st1, tx, True, None)"
      using tx(1,3) r(1) r'(1) Cons.prems(2) by (simp add: Validate_def st1_def)
    have "GetPubKeyHex c st1 = ?key" by (rule GetPubKeyHex_cong) (simp add: st1_def)
    then have "list_all snd (snd (validate_all cr bs st1))"
      using Cons.prems r'(2) by (intro Cons.IH) (simp_all add: st1_def)
    with v show ?case by (cases "validate_all cr bs st1") simp
  qed simp
  then show ?thesis using assms(2) by simp
qed

theorem missing_record_unlimited_witness:
  "list_all snd (snd (validate_all toy_crypto (replicate 5 (EncodeTxWithKey toy_crypto Some toy_btca))
     (toy_state\<lparr>TxValidations := Map.empty\<rparr>)))"
  using toy_decode
  by (intro missing_record_unlimited [where c = "''A''" and pk = toy_key])
    (auto simp: toy_state_def toy_btca_def)

end
