(* ===== verification/Leader_Election.thy ===== *)
theory Leader_Election
  imports Tx_Rate_Limiter "HOL-Library.Multiset" "HOL-Library.List_Lexorder" "HOL-Library.Char_ord"
begin

text \<open>
  Leader election, \<open>src/leaderelection/tmleader.go\<close>: the candidates (Cores that contributed to
  the chain lately, validators, or peers) are put in a canonical order, and a seeded choice,
  outside the repository and a parameter here (\<open>elect\<close>), picks the leaders with the latest block
  hash as seed. \<open>None\<close> is its nil result.

  The locale \<open>candidates\<close> states what every canonical order promises, that it depends on the
  set of candidates only; it is interpreted on the three orders of the code. The properties say
  that nodes with the same chain state elect the same leaders whatever the order in which each
  ranges over its maps, and who can be elected.
\<close>

type_synonym 'a elect = "'a list \<Rightarrow> int \<Rightarrow> string \<Rightarrow> 'a list option"

subsection \<open>Canonical orders\<close>

definition sort_desc :: "('a \<Rightarrow> string) \<Rightarrow> 'a list \<Rightarrow> 'a list" where
  "sort_desc name xs = rev (sort_key name xs)"

locale candidates =
  fixes canon :: "'a list \<Rightarrow> 'a list" and name :: "'a \<Rightarrow> string"
  assumes canon_set: "set (canon xs) = set xs"
    and canon_agree: "set xs = set ys \<Longrightarrow> distinct (map name xs) \<Longrightarrow> distinct (map name ys) \<Longrightarrow>
      canon xs = canon ys"
begin

lemma canon_filter_agree:
  "set xs = set ys \<Longrightarrow> distinct (map name xs) \<Longrightarrow> distinct (map name ys) \<Longrightarrow>
    canon (filter P xs) = canon (filter P ys)"
  by (rule canon_agree) (auto simp: distinct_map_filter)

lemma canon_Nil_iff: "canon xs = [] \<longleftrightarrow> xs = []"
  using canon_set [of xs] by (metis set_empty)

text \<open>A choice among the candidates that are not on the blacklist.\<close>

lemma chosen:
  assumes "set ls \<subseteq> set (canon (filter (\<lambda>x. name x \<notin> B) xs))" "l \<in> set ls"
  shows "l \<in> set xs \<and> name l \<notin> B"
  using assms canon_set by auto

end

lemma sort_key_agree:
  assumes "set xs = set ys" "distinct (map name xs)" "distinct (map name ys)"
  shows "sort_key name xs = sort_key name ys"
proof (rule map_sorted_distinct_set_unique [where f = name])
  show "inj_on name (set (sort_key name xs) \<union> set (sort_key name ys))"
    using assms by (simp add: distinct_map)
  show "distinct (map name (sort_key name xs))" "distinct (map name (sort_key name ys))"
    using assms by (simp_all add: distinct_map)
qed (use assms in simp_all)

lemma sort_desc_simps [simp]:
  "set (sort_desc name xs) = set xs" "sort_desc name xs = [] \<longleftrightarrow> xs = []"
  by (simp_all add: sort_desc_def) (metis set_empty set_sort)

interpretation core_order: candidates "sort" "\<lambda>k :: string. k"
  by unfold_locales (auto intro: sort_key_agree)

subsection \<open>The election of the anchoring Core\<close>

definition run_election ::
  "'a elect \<Rightarrow> ('a \<Rightarrow> string) \<Rightarrow> 'a list \<Rightarrow> int \<Rightarrow> string \<Rightarrow> string \<Rightarrow> bool \<Rightarrow> bool \<times> string list" where
  "run_election elect name cands numLeaders seed me catchingUp =
     (case elect cands numLeaders seed of
        None \<Rightarrow> (False, [])
      | Some leaders \<Rightarrow> (list_ex (\<lambda>l. name l = me \<and> \<not> catchingUp) leaders, map name leaders))"

text \<open>\<open>iter\<close> is the order in which this run ranges over the map of candidates.\<close>

definition elect_keys ::
  "string elect \<Rightarrow> string list \<Rightarrow> int \<Rightarrow> string list \<Rightarrow> AnchorState \<Rightarrow> bool \<times> string list" where
  "elect_keys elect ks numLeaders blacklistedIDs state =
     (let keys = sort (filter (\<lambda>k. k \<notin> set blacklistedIDs) ks) in
      if length keys = 0 then (False, [])
      else run_election elect (\<lambda>k. k) keys numLeaders (LatestBlockHash (TMState state)) (ID state)
        (CatchingUp (TMState state)))"

definition ElectChainContributorAsLeaderNaive ::
  "string elect \<Rightarrow> ((string \<rightharpoonup> PublicKey) \<Rightarrow> string list) \<Rightarrow> int \<Rightarrow> string list \<Rightarrow> AnchorState \<Rightarrow> bool \<times> string list" where
  "ElectChainContributorAsLeaderNaive elect iter numLeaders blacklistedIDs state =
     (if ID state = [] then (False, [])
      else elect_keys elect (iter (CoreKeys state)) numLeaders blacklistedIDs state)"

definition ElectChainContributorAsLeader ::
  "string elect \<Rightarrow> ((string \<rightharpoonup> int) \<Rightarrow> string list) \<Rightarrow> int \<Rightarrow> string list \<Rightarrow> AnchorState \<Rightarrow> bool \<times> string list" where
  "ElectChainContributorAsLeader elect iter numLeaders blacklistedIDs state =
     (if ID state = [] then (False, [])
      else elect_keys elect (iter (GetLastNSubmitters 128 state)) numLeaders blacklistedIDs state)"

subsection \<open>Validators and peers\<close>

definition GetSortedValidatorList :: "Validator list \<Rightarrow> Validator list" where
  "GetSortedValidatorList validators = sort_desc val_Address validators"

interpretation validator_order: candidates GetSortedValidatorList val_Address
  by unfold_locales (auto simp: GetSortedValidatorList_def sort_desc_def intro: sort_key_agree)

definition determineValidatorLeader ::
  "Validator elect \<Rightarrow> int \<Rightarrow> string list \<Rightarrow> ResultStatus \<Rightarrow> Validator list \<Rightarrow> string \<Rightarrow> string \<Rightarrow> bool \<times> string list" where
  "determineValidatorLeader elect numLeaders blacklistedIDs status validators seed address =
     (let validatorList = GetSortedValidatorList validators in
      if length validatorList = 0 then (False, [])
      else
        (let filtered = filter (\<lambda>v. val_Address v \<notin> set blacklistedIDs) validatorList in
         if length filtered = 0 then (False, [])
         else run_election elect val_Address filtered numLeaders seed address (CatchingUp status)))"

text \<open>\<open>address\<close> is the validator address of this node's key.\<close>

definition ElectValidatorAsLeader ::
  "Validator elect \<Rightarrow> int \<Rightarrow> string list \<Rightarrow> AnchorState \<Rightarrow> string \<Rightarrow> bool \<times> string list" where
  "ElectValidatorAsLeader elect numLeaders blacklistedIDs state address =
     (if ID state = [] then (False, [])
      else determineValidatorLeader elect numLeaders blacklistedIDs (TMState state) (Validators state)
        (LatestBlockHash (TMState state)) address)"

definition peer_ID :: "NetPeer \<Rightarrow> string" where
  "peer_ID p = node_ID (peer_NodeInfo p)"

text \<open>The peers with their addresses determined, and this node, by descending id. The addresses
  are written back into the peers of the state: the second component.\<close>

definition GetSortedPeerList :: "ResultStatus \<Rightarrow> NetPeer list \<Rightarrow> err + NetPeer list \<times> NetPeer list" where
  "GetSortedPeerList status peers =
     bind_err (map_err (\<lambda>p. bind_err (DetermineIP p) (\<lambda>ip. Inr (p\<lparr>RemoteIP := ip\<rparr>))) peers) (\<lambda>ps.
       Inr (sort_desc peer_ID (ps @ [\<lparr>peer_NodeInfo = ts_NodeInfo status, RemoteIP = ''127.0.0.1''\<rparr>]), ps))"

interpretation peer_order: candidates "sort_desc peer_ID" peer_ID
  by unfold_locales (auto simp: sort_desc_def intro: sort_key_agree)

definition GetPeers :: "AnchorState \<Rightarrow> ResultStatus \<Rightarrow> NetPeer list \<Rightarrow> err + NetPeer list" where
  "GetPeers state tmState peers =
     (if ID state = [] then Inr [] else bind_err (GetSortedPeerList tmState peers) (\<lambda>r. Inr (fst r)))"

definition determineLeader ::
  "NetPeer elect \<Rightarrow> int \<Rightarrow> string list \<Rightarrow> ResultStatus \<Rightarrow> NetPeer list \<Rightarrow> err + bool \<times> string list" where
  "determineLeader elect numLeaders blacklistedIDs status peers =
     (let currentNodeID = node_ID (ts_NodeInfo status) in
      if length peers > 0 then
        bind_err (GetSortedPeerList status peers) (\<lambda>r.
          let filtered = filter (\<lambda>p. peer_ID p \<notin> set blacklistedIDs) (fst r)
          in Inr (run_election elect peer_ID filtered numLeaders (LatestBlockHash status) currentNodeID (CatchingUp status)))
      else Inr (True, [currentNodeID]))"

definition ElectPeerAsLeader :: "NetPeer elect \<Rightarrow> int \<Rightarrow> string list \<Rightarrow> AnchorState \<Rightarrow> err + bool \<times> string list" where
  "ElectPeerAsLeader elect numLeaders blacklistedIDs state =
     (if ID state = [] then Inr (False, [])
      else determineLeader elect numLeaders blacklistedIDs (TMState state) (TMNetInfo state))"

definition am_validator :: "AnchorState \<Rightarrow> bool \<times> err option" where
  "am_validator state =
     (if ID state = [] then (False, Some (Err ''status unintialized''))
      else (list_ex (\<lambda>v. val_Address v = ValidatorAddress (TMState state)) (Validators state), None))"

definition le_IsValidator :: "AnchorState \<Rightarrow> string \<Rightarrow> bool" where
  "le_IsValidator state i = list_ex (\<lambda>v. val_Address v = i) (Validators state)"

subsection \<open>Agreement\<close>

lemma GetLastNSubmitters_dom: "dom (GetLastNSubmitters n st) \<subseteq> dom (CoreKeys st)"
  by (auto simp: GetLastNSubmitters_def dom_def split: if_splits)

text \<open>Who counts as a recent contributor.\<close>

lemma GetLastNSubmitters_iff:
  "GetLastNSubmitters n st c \<noteq> None \<longleftrightarrow>
    CoreKeys st c \<noteq> None \<and> (\<exists>r. TxValidations st (GetPubKeyHex c st) = Some r \<and>
      (\<exists>h \<in> {LastCalTxHeight r, LastFeeTxHeight r, LastBtcaTxHeight r, LastBtccTxHeight r}. i64 (Height st - n) < h))"
  by (auto simp: GetLastNSubmitters_def Let_def split: option.splits if_splits)

lemma elect_keys_agree:
  assumes "set ks = set ks'" "distinct ks" "distinct ks'"
    and "LatestBlockHash (TMState s) = LatestBlockHash (TMState s')"
  shows "snd (elect_keys elect ks n bl s) = snd (elect_keys elect ks' n bl s')"
proof -
  have "sort (filter (\<lambda>k. k \<notin> set bl) ks) = sort (filter (\<lambda>k. k \<notin> set bl) ks')"
    using assms(1-3) by (intro core_order.canon_filter_agree) simp_all
  with assms(4) show ?thesis by (simp add: elect_keys_def run_election_def Let_def split: option.split)
qed

lemma elect_keys_leader:
  "fst (elect_keys elect ks n bl s) \<longleftrightarrow> ID s \<in> set (snd (elect_keys elect ks n bl s)) \<and> \<not> CatchingUp (TMState s)"
  by (auto simp: elect_keys_def run_election_def Let_def list_ex_iff split: option.split)

lemma elect_keys_chosen:
  assumes "\<And>cs n seed ls. elect cs n seed = Some ls \<Longrightarrow> set ls \<subseteq> set cs" "l \<in> set (snd (elect_keys elect ks n bl s))"
  shows "l \<in> set ks" "l \<notin> set bl"
  using assms(2) core_order.chosen [of _ "set bl" ks l]
  by (auto simp: elect_keys_def run_election_def Let_def split: option.splits if_splits dest!: assms(1))

text \<open>C16. Two nodes with the same chain state (keys, validation records, height, latest block) elect
  the same leaders, whatever the order in which each ranges over its map of candidates; each
  considers itself leader iff it is elected and not catching up; and every leader is a known
  Core that contributed within the last 128 blocks and is not on the blacklist.\<close>

theorem contributor_election_agrees:
  assumes "map_order iter" "map_order iter'" "finite (dom (CoreKeys s))"
    and "ID s \<noteq> []" "ID s' \<noteq> []"
    and "CoreKeys s' = CoreKeys s" "TxValidations s' = TxValidations s" "Height s' = Height s"
      "LatestBlockHash (TMState s') = LatestBlockHash (TMState s)"
    and el: "\<And>cs n seed ls. elect cs n seed = Some ls \<Longrightarrow> set ls \<subseteq> set cs"
    and leaders: "leaders = snd (ElectChainContributorAsLeader elect iter n bl s)"
  shows "snd (ElectChainContributorAsLeader elect iter' n bl s') = leaders \<and>
    (fst (ElectChainContributorAsLeader elect iter n bl s) \<longleftrightarrow> ID s \<in> set leaders \<and> \<not> CatchingUp (TMState s)) \<and>
    set leaders \<inter> set bl = {} \<and> set leaders \<subseteq> dom (GetLastNSubmitters 128 s)"
proof -
  let ?m = "GetLastNSubmitters 128 s"
  have m: "GetLastNSubmitters 128 s' = ?m"
    unfolding GetLastNSubmitters_def GetPubKeyHex_def assms(6-8) by (rule refl)
  have fin: "finite (dom ?m)" using GetLastNSubmitters_dom assms(3) by (rule finite_subset)
  have it: "set (iter ?m) = dom ?m" "distinct (iter ?m)" "set (iter' ?m) = dom ?m" "distinct (iter' ?m)"
    using assms(1,2) fin by (auto simp: map_order_def)
  have l: "leaders = snd (elect_keys elect (iter ?m) n bl s)"
    using assms(4) by (simp add: leaders ElectChainContributorAsLeader_def)
  have "snd (elect_keys elect (iter' ?m) n bl s') = leaders"
    unfolding l using it assms(9) by (intro elect_keys_agree) simp_all
  moreover have "x \<in> set leaders \<Longrightarrow> x \<in> dom ?m \<and> x \<notin> set bl" for x
    unfolding l using elect_keys_chosen [of elect x "iter ?m" n bl s] el it(1) by blast
  ultimately show ?thesis
    using assms(4,5) elect_keys_leader [of elect "iter ?m" n bl s]
    by (auto simp: ElectChainContributorAsLeader_def m l)
qed

definition toy_elect :: "'a elect" where
  "toy_elect cs n seed = (if cs = [] then None else Some (take (nat n) (rotate (length seed) cs)))"

lemma toy_elect_subset: "toy_elect cs n seed = Some ls \<Longrightarrow> set ls \<subseteq> set cs"
  by (auto simp: toy_elect_def dest: in_set_takeD split: if_splits)

definition toy_core :: "string \<Rightarrow> AnchorState" where
  "toy_core me = AnchorState_zero\<lparr>ID := me, CoreKeys := [''A'' \<mapsto> toy_key, ''B'' \<mapsto> toy_key, ''C'' \<mapsto> toy_key],
     TxValidations := [hex_encode (elliptic_marshal toy_key) \<mapsto> TxValidation_zero\<lparr>LastCalTxHeight := 90\<rparr>],
     Height := 100, TMState := ResultStatus_zero\<lparr>LatestBlockHash := ''seed''\<rparr>\<rparr>"

theorem contributor_election_agrees_witness:
  "snd (ElectChainContributorAsLeader toy_elect (\<lambda>m. rev (sorted_list_of_set (dom m))) 1 [''B''] (toy_core ''C'')) =
    snd (ElectChainContributorAsLeader toy_elect (\<lambda>m. sorted_list_of_set (dom m)) 1 [''B''] (toy_core ''A''))"
proof -
  have "map_order (\<lambda>m. rev (sorted_list_of_set (dom m :: string set)))"
    using map_order_sorted by (simp add: map_order_def)
  then show ?thesis
    by (rule contributor_election_agrees [OF map_order_sorted _ _ _ _ _ _ _ _ toy_elect_subset refl, THEN conjunct1])
      (simp_all add: toy_core_def)
qed



end
