(* ===== verification/Tendermint_Rpc.thy ===== *)
theory Tendermint_Rpc
  imports Calendar
begin

text \<open>
  The queries and broadcasts of \<open>src/tendermintrpc/rpc.go\<close>. The Tendermint node is outside the
  repository: the record \<open>Rpc\<close> holds its answers at the time of a call. \<open>search_ok\<close> states what
  the code relies on of a search: over the chain, a list of transactions, it returns a page of
  those with a matching event attribute, and their number.
\<close>

record BcastResult =
  br_Code :: int
  br_Data :: bytes
  br_Hash :: bytes

type_synonym 'a result = "err + 'a"

text \<open>\<open>tx_search query page perPage order\<close>.\<close>

record Rpc =
  tx_search :: "string \<Rightarrow> int \<Rightarrow> int \<Rightarrow> string \<Rightarrow> (ResultTx list \<times> int) result"
  rpc_tx :: "bytes \<Rightarrow> ResultTx result"
  rpc_status :: "ResultStatus result"
  rpc_net_info :: "NetPeer list result"
  broadcast_sync :: "bytes \<Rightarrow> BcastResult result"
  broadcast_commit :: "bytes \<Rightarrow> BcastResult result"
  rpc_validators :: "int \<Rightarrow> Validator list result"

subsection \<open>Broadcasts\<close>

text \<open>What is sent, and the answer.\<close>

definition new_tx :: "string \<Rightarrow> string \<Rightarrow> int \<Rightarrow> int \<Rightarrow> string \<Rightarrow> Tx" where
  "new_tx txType d version time stackID =
     Tx_zero\<lparr>TxType := txType, Data := d, Version := version, Time := time, CoreID := stackID\<rparr>"

definition BroadcastTx ::
  "Crypto \<Rightarrow> signer \<Rightarrow> Rpc \<Rightarrow> string \<Rightarrow> string \<Rightarrow> int \<Rightarrow> int \<Rightarrow> string \<Rightarrow> bytes \<times> BcastResult result" where
  "BroadcastTx cr sign R txType d version time stackID =
     (let b = EncodeTxWithKey cr sign (new_tx txType d version time stackID)
      in (b, broadcast_sync R b))"

definition BroadcastTxWithMeta ::
  "Crypto \<Rightarrow> signer \<Rightarrow> Rpc \<Rightarrow> string \<Rightarrow> string \<Rightarrow> int \<Rightarrow> int \<Rightarrow> string \<Rightarrow> string \<Rightarrow> bytes \<times> BcastResult result" where
  "BroadcastTxWithMeta cr sign R txType d version time stackID meta =
     (let b = EncodeTxWithKey cr sign ((new_tx txType d version time stackID)\<lparr>Meta := meta\<rparr>)
      in (b, broadcast_sync R b))"

definition BroadcastTxCommit ::
  "Crypto \<Rightarrow> signer \<Rightarrow> Rpc \<Rightarrow> string \<Rightarrow> string \<Rightarrow> int \<Rightarrow> int \<Rightarrow> string \<Rightarrow> bytes \<times> BcastResult result" where
  "BroadcastTxCommit cr sign R txType d version time stackID =
     (let b = EncodeTxWithKey cr sign (new_tx txType d version time stackID)
      in (b, broadcast_commit R b))"

subsection \<open>Queries\<close>

definition cal_query :: "int \<Rightarrow> string" where
  "cal_query i = ''CAL.TxInt='' @ format_int i"

definition GetTxByInt :: "Rpc \<Rightarrow> int \<Rightarrow> (ResultTx list \<times> int) result" where
  "GetTxByInt R txInt = tx_search R (cal_query txInt) 1 1 []"

definition GetTxByHash :: "Rpc \<Rightarrow> string \<Rightarrow> ResultTx result" where
  "GetTxByHash R txid =
     (case hex_decode_ok txid of None \<Rightarrow> Inl (Err ''hex'') | Some hash \<Rightarrow> rpc_tx R hash)"

function cal_range_loop :: "Rpc \<Rightarrow> int \<Rightarrow> int \<Rightarrow> ResultTx list \<Rightarrow> ResultTx list result" where
  "cal_range_loop R i maxTxInt Txs =
     (if i < maxTxInt then
        (case tx_search R (cal_query i) 1 1 [] of
           Inl e \<Rightarrow> Inl e
         | Inr (txs, count) \<Rightarrow> cal_range_loop R (i + 1) maxTxInt (if count > 0 then Txs @ txs else Txs))
      else Inr Txs)"
  by pat_completeness auto
termination by (relation "measure (\<lambda>(_, i, m, _). nat (m - i))") auto

declare cal_range_loop.simps [simp del]

definition GetCalTxRange :: "Rpc \<Rightarrow> int \<Rightarrow> int \<Rightarrow> ResultTx list result" where
  "GetCalTxRange R minTxInt maxTxInt =
     (if maxTxInt \<le> minTxInt then Inl (Err ''max of tx range is less than or equal to min'')
      else cal_range_loop R minTxInt maxTxInt [])"

text \<open>The value of the first attribute with a key, over the events in order.\<close>

definition first_attr :: "bytes \<Rightarrow> ResultTx \<Rightarrow> bytes option" where
  "first_attr k t = map_of (concat (map snd (rtx_Events t))) k"

definition GetIndexForCalTx :: "Rpc \<Rightarrow> string \<Rightarrow> int result" where
  "GetIndexForCalTx R txid =
     (case GetTxByHash R txid of
        Inl e \<Rightarrow> Inl e
      | Inr calResult \<Rightarrow>
          (case first_attr ''TxInt'' calResult of
             Some v \<Rightarrow> Inr (ByteToInt64 v)
           | None \<Rightarrow> Inl (Err ''no txInt index found'')))"

definition btca_matches :: "int \<Rightarrow> ResultTx \<Rightarrow> BtcTxMsg option" where
  "btca_matches idx res =
     (case DecodeTx (rtx_Tx res) of
        (tx, True) \<Rightarrow> None
      | (tx, False) \<Rightarrow>
          (case unmarshal jd_BtcTxMsg BtcTxMsg_zero (Data tx) of
             (m, e) \<Rightarrow> if \<not> e \<and> idx \<ge> btm_BeginCalTxInt m \<and> idx < btm_EndCalTxInt m then Some m else None))"

definition first_some :: "('a \<Rightarrow> 'b option) \<Rightarrow> 'a list \<Rightarrow> 'b option" where
  "first_some f xs = (case List.map_filter f xs of [] \<Rightarrow> None | y # _ \<Rightarrow> Some y)"

definition GetBtcaForCalTx :: "Rpc \<Rightarrow> string \<Rightarrow> BtcTxMsg result" where
  "GetBtcaForCalTx R txid =
     bind_err (GetIndexForCalTx R txid) (\<lambda>idx.
     bind_err (tx_search R (''BTC-A.TxInt>'' @ format_int idx) 1 5 ''asc'') (\<lambda>(txs, _).
       case first_some (btca_matches idx) txs of
         Some m \<Rightarrow> Inr m
       | None \<Rightarrow> Inl (Err ''No matches'')))"

text \<open>The Core of the first transaction that decodes; the error is that of the search.\<close>

definition decoded_core :: "ResultTx \<Rightarrow> string option" where
  "decoded_core t = (case DecodeTx (rtx_Tx t) of (tx, err) \<Rightarrow> if err then None else Some (CoreID tx))"

definition GetAnchoringCore :: "Rpc \<Rightarrow> string \<Rightarrow> string \<times> err option" where
  "GetAnchoringCore R queryLine =
     (case tx_search R queryLine 1 1 [] of
        Inl e \<Rightarrow> ([], Some e)
      | Inr (txs, _) \<Rightarrow> (case first_some decoded_core txs of Some c \<Rightarrow> (c, None) | None \<Rightarrow> ([], None)))"

definition GetBTCCForBtcRoot :: "Rpc \<Rightarrow> BtcMonMsg \<Rightarrow> bytes" where
  "GetBTCCForBtcRoot R m =
     (case tx_search R (''BTC-C.BTCC='' @ [CHR 0x27] @ bmm_BtcHeadRoot m @ [CHR 0x27]) 1 1 [] of
        Inl _ \<Rightarrow> []
      | Inr (txs, _) \<Rightarrow> (if txs = [] then [] else rtx_Hash (last txs)))"

definition GetAnchorHeight :: "Rpc \<Rightarrow> BtcTxMsg \<Rightarrow> bytes \<times> int" where
  "GetAnchorHeight R m =
     (case tx_search R (''BTC-C.BTCCTX='' @ [CHR 0x27] @ btm_BtcTxID m @ [CHR 0x27]) 1 1 [] of
        Inl _ \<Rightarrow> ([], 0)
      | Inr (txs, _) \<Rightarrow>
          (case first_some (\<lambda>t. map_option (\<lambda>v. (rtx_Hash t, ByteToInt64 v)) (first_attr ''BTCCBH'' t)) txs of
             Some r \<Rightarrow> r
           | None \<Rightarrow> ([], 0)))"

definition decoded_tx :: "ResultTx \<Rightarrow> Tx option" where
  "decoded_tx t = (case DecodeTx (rtx_Tx t) of (tx, err) \<Rightarrow> if err then None else Some tx)"

text \<open>All pages of a search, decoded; \<open>fuel\<close> bounds the number of pages, \<open>None\<close> is running out
  of it.\<close>

fun pages_loop :: "Rpc \<Rightarrow> string \<Rightarrow> string \<Rightarrow> nat \<Rightarrow> int \<Rightarrow> int \<Rightarrow> Tx list \<Rightarrow> Tx list result option" where
  "pages_loop R q order 0 i endPage Txs = None"
| "pages_loop R q order (Suc fuel) i endPage Txs =
     (if i \<le> endPage then
        (case tx_search R q i 100 order of
           Inl e \<Rightarrow> Some (Inl e)
         | Inr (txs, count) \<Rightarrow>
             pages_loop R q order fuel (i + 1) (count div 100 + 1)
               (if count > 0 then
                  Txs @ List.map_filter decoded_tx txs else Txs))
      else Some (Inr Txs))"

definition GetAllJWKs :: "Rpc \<Rightarrow> nat \<Rightarrow> Tx list result option" where
  "GetAllJWKs R fuel = pages_loop R (''JWK.CORE='' @ [CHR 0x27] @ ''NEW'' @ [CHR 0x27]) ''asc'' fuel 1 2 []"

definition GetAllCHNGSTK :: "Rpc \<Rightarrow> nat \<Rightarrow> Tx list result option" where
  "GetAllCHNGSTK R fuel = pages_loop R (''CHNGSTK.CHANGE='' @ [CHR 0x27] @ ''STAKE'' @ [CHR 0x27]) [] fuel 1 2 []"

subsection \<open>What the queries return\<close>

definition event_matches :: "string \<Rightarrow> bytes \<Rightarrow> bytes \<Rightarrow> ResultTx \<Rightarrow> bool" where
  "event_matches ty k v t \<longleftrightarrow> (\<exists>as. (ty, as) \<in> set (rtx_Events t) \<and> (k, v) \<in> set as)"

abbreviation cal_int :: "int \<Rightarrow> ResultTx \<Rightarrow> bool" where
  "cal_int i \<equiv> event_matches ''CAL'' ''TxInt'' (format_int i)"

definition search_ok :: "Rpc \<Rightarrow> ResultTx list \<Rightarrow> bool" where
  "search_ok R chain \<longleftrightarrow>
     (\<forall>i txs n. tx_search R (cal_query i) 1 1 [] = Inr (txs, n) \<longrightarrow>
        txs = take 1 (filter (cal_int i) chain) \<and> n = int (length (filter (cal_int i) chain)))"

lemma cal_range_loop_spec:
  "search_ok R chain \<Longrightarrow> \<forall>i. length (filter (cal_int i) chain) \<le> 1 \<Longrightarrow>
    cal_range_loop R i m acc = Inr txs \<Longrightarrow>
    txs = acc @ concat (map (\<lambda>j. filter (cal_int j) chain) [i..m - 1])"
proof (induction R i m acc rule: cal_range_loop.induct)
  case (1 R i m acc)
  show ?case
  proof (cases "i < m")
    case True
    then obtain ts n where s: "tx_search R (cal_query i) 1 1 [] = Inr (ts, n)"
      and r: "cal_range_loop R (i + 1) m (if n > 0 then acc @ ts else acc) = Inr txs"
      using 1(4) by (auto simp: cal_range_loop.simps [of R i m acc] split: sum.splits)
    have "ts = take 1 (filter (cal_int i) chain)" "n = int (length (filter (cal_int i) chain))"
      using 1(2) s by (auto simp: search_ok_def)
    then have a: "(if n > 0 then acc @ ts else acc) = acc @ filter (cal_int i) chain"
      using 1(3) by (simp add: take_all)
    have "txs = (if n > 0 then acc @ ts else acc) @ concat (map (\<lambda>j. filter (cal_int j) chain) [i + 1..m - 1])"
      by (rule 1(1) [OF True s refl 1(2,3) r])
    then show ?thesis unfolding a using True by (simp add: upto_rec1)
  qed (use 1(4) in \<open>simp add: cal_range_loop.simps [of R i m acc]\<close>)
qed

text \<open>C24. The calendar range query returns exactly the calendar transactions of the chain whose index
  is in the half-open range, in the order of their indices.\<close>

theorem GetCalTxRange_exact:
  assumes "search_ok R chain" "\<forall>i. length (filter (cal_int i) chain) \<le> 1"
    and "GetCalTxRange R lo hi = Inr txs"
  shows "txs = concat (map (\<lambda>i. filter (cal_int i) chain) [lo..hi - 1]) \<and>
    set txs = {t \<in> set chain. \<exists>i. lo \<le> i \<and> i < hi \<and> cal_int i t}"
proof -
  have "txs = concat (map (\<lambda>i. filter (cal_int i) chain) [lo..hi - 1])"
    using assms(3) cal_range_loop_spec [OF assms(1,2), of lo hi "[]" txs]
    by (auto simp: GetCalTxRange_def split: if_splits)
  then show ?thesis by auto
qed

text \<open>A chain of three transactions and a node that answers from it.\<close>

definition toy_chain :: "ResultTx list" where
  "toy_chain = map (\<lambda>i. \<lparr>rtx_Hash = format_int i, rtx_Height = i, rtx_Tx = [],
     rtx_Events = [(if i = 2 then ''BTC-A'' else ''CAL'', [(''TxInt'', format_int i)])]\<rparr>) [1, 2, 3]"

definition toy_rpc :: "ResultTx list \<Rightarrow> Rpc" where
  "toy_rpc chain = \<lparr>tx_search = (\<lambda>q page per order.
       let ms = filter (event_matches ''CAL'' ''TxInt'' (drop (length ''CAL.TxInt='') q)) chain
       in Inr (take 1 ms, int (length ms))),
     rpc_tx = (\<lambda>_. Inl (Err ''not found'')), rpc_status = Inl (Err ''down''), rpc_net_info = Inl (Err ''down''),
     broadcast_sync = (\<lambda>_. Inr \<lparr>br_Code = 0, br_Data = [], br_Hash = []\<rparr>),
     broadcast_commit = (\<lambda>_. Inr \<lparr>br_Code = 0, br_Data = [], br_Hash = []\<rparr>),
     rpc_validators = (\<lambda>_. Inl (Err ''down''))\<rparr>"

lemma toy_rpc_ok: "search_ok (toy_rpc chain) chain"
  by (simp add: search_ok_def toy_rpc_def cal_query_def Let_def)

lemma format_int_inj: "is_i64 a \<Longrightarrow> is_i64 b \<Longrightarrow> format_int a = format_int b \<longleftrightarrow> a = b"
  by (rule dec_int.enc_eq_iff)

lemma toy_chain_unique: "length (filter (cal_int i) toy_chain) \<le> 1"
proof -
  have "format_int 1 \<noteq> format_int 3" by (simp add: format_int_inj is_i64_def)
  then show ?thesis by (auto simp: toy_chain_def event_matches_def)
qed

theorem GetCalTxRange_exact_witness:
  "GetCalTxRange (toy_rpc toy_chain) 1 3 = Inr (concat (map (\<lambda>i. filter (cal_int i) toy_chain) [1..3 - 1]))"
proof -
  obtain txs where t: "GetCalTxRange (toy_rpc toy_chain) 1 3 = Inr txs"
    by (simp add: GetCalTxRange_def cal_range_loop.simps toy_rpc_def Let_def)
  have "txs = concat (map (\<lambda>i. filter (cal_int i) toy_chain) [1..3 - 1])"
    using GetCalTxRange_exact [OF toy_rpc_ok _ t] toy_chain_unique by blast
  with t show ?thesis by (simp only:)
qed

definition jwk_query :: string where
  "jwk_query = ''JWK.CORE='' @ [CHR 0x27] @ ''NEW'' @ [CHR 0x27]"

lemma pages_loop_prefix:
  assumes "\<And>j. i \<le> j \<Longrightarrow> j \<le> m \<Longrightarrow> tx_search R q j 100 ord = Inr (page j, n)" "0 < n" "i \<le> m + 1" "m \<le> n div 100 + 1"
    "i \<le> e" "e = n div 100 + 1 \<or> m < i \<or> i = 1 \<and> e = 2"
  shows "pages_loop R q ord (nat (m + 1 - i) + fuel) i e acc =
    pages_loop R q ord fuel (m + 1) (if m < i then e else n div 100 + 1) (acc @ concat (map (\<lambda>j. List.map_filter decoded_tx (page j)) [i..m]))"
  using assms
proof (induction "nat (m + 1 - i)" arbitrary: i acc e)
  case (Suc k)
  then have i: "i \<le> m" "nat (m + 1 - i) + fuel = Suc (nat (m + 1 - (i + 1)) + fuel)" "[i..m] = i # [i + 1..m]" by (auto simp: upto_rec1)
  have "pages_loop R q ord (nat (m + 1 - (i + 1)) + fuel) (i + 1) (n div 100 + 1) (acc @ List.map_filter decoded_tx (page i)) =
    pages_loop R q ord fuel (m + 1) (n div 100 + 1)
      ((acc @ List.map_filter decoded_tx (page i)) @ concat (map (\<lambda>j. List.map_filter decoded_tx (page j)) [i + 1..m]))"
  proof (cases "m < i + 1")
    case True
    then show ?thesis using i(1) by simp
  next
    case False
    show ?thesis
      by (subst Suc.hyps(1)) (use Suc.hyps(2) Suc.prems False in auto)
  qed
  then show ?case using i Suc.prems(1) [of i] Suc.prems(2,5) by simp
qed simp


text \<open>When the number of transactions is a multiple of the page size the loop asks for a page more than
  there are, which a node that refuses such a page answers with an error: nothing is returned.\<close>

lemma GetAllJWKs_past_end:
  assumes "\<And>i. 1 \<le> i \<Longrightarrow> i \<le> n div 100 \<Longrightarrow> tx_search R jwk_query i 100 ''asc'' = Inr (page i, n)" "0 < n" "100 dvd n"
    "tx_search R jwk_query (n div 100 + 1) 100 ''asc'' = Inl e"
  shows "GetAllJWKs R (nat (n div 100) + 2) = Some (Inl e)"
proof -
  have d: "1 \<le> n div 100" using assms(2,3) by (auto elim!: dvdE)
  then have "nat (n div 100) + 2 = nat (n div 100 + 1 - 1) + 2" by linarith
  then show ?thesis
    using pages_loop_prefix [of 1 "n div 100" R jwk_query "''asc''" page n 2 2 "[]"] assms d
    by (simp add: GetAllJWKs_def jwk_query_def numeral_2_eq_2)
qed


end
