(* ===== verification/Bitcoin_Anchor.thy ===== *)
theory Bitcoin_Anchor
  imports Config Level_DB Proof_Doc Leader_Election Tendermint_Rpc
begin

text \<open>
  The Bitcoin anchoring engine, \<open>src/anchor/bitcoin/bitcoinanchor.go\<close>, the implementation of
  the interface of \<open>src/anchor/anchorinterface.go\<close>. An operation takes the application state and
  the database and returns them updated, with what it sets in motion (broadcast transactions,
  goroutines, payments) as a list of effects and its error.

  The record \<open>Env\<close> collects what lies outside: cryptography, the Merkle trees, the Tendermint
  node, the Lightning node, the database, the Bitcoin transaction format and the clock. A
  goroutine is an effect here; its body is an operation of its own.
\<close>

subsection \<open>The environment and the effects\<close>

record BlockDetails =
  MerkleRoot :: bytes
  Transactions :: "string list"

text \<open>The Lightning node: \<open>send_op_return\<close> answers with the id and the body of the transaction,
  \<open>get_transaction\<close> with the block heights of the matches.\<close>

record Ln =
  send_op_return :: "bytes \<Rightarrow> (string \<times> string) result"
  ln_get_info :: "LnInfo result"
  get_block :: "int \<Rightarrow> BlockDetails result"
  get_transaction :: "bytes \<Rightarrow> int list result"
  send_coins :: "string \<Rightarrow> int \<Rightarrow> int \<Rightarrow> string result"
  ip_from_uri :: "string \<Rightarrow> string"
  is_ln_uri :: "string \<Rightarrow> bool"
  peer_exists :: "string \<Rightarrow> bool \<times> err option"
  add_peer :: "string \<Rightarrow> err option"
  channel_exists :: "string \<Rightarrow> int \<Rightarrow> bool \<times> err option"
  create_channel :: "string \<Rightarrow> int \<Rightarrow> err option"
  lightning_address :: "string \<Rightarrow> string"
  lnd_fee :: int

text \<open>\<open>parse_tx\<close> reads a transaction without witness: its output scripts, as far as it could be
  read, and its id; \<open>op_return_script\<close> builds the script that carries data. \<open>e_btc_tree\<close> is the
  Merkle tree of a Bitcoin block.\<close>

record 'd Env =
  e_crypto :: Crypto
  e_merkle :: Merkle
  e_btc_tree :: Merkle
  e_uuid :: "bytes \<Rightarrow> string"
  e_ids :: IdLib
  e_rpc :: Rpc
  e_ln :: Ln
  e_db :: "'d DB"
  e_elect :: "string elect"
  e_elect_val :: "Validator elect"
  e_iter :: "(string \<rightharpoonup> int) \<Rightarrow> string list"
  e_address :: string
  parse_tx :: "bytes \<Rightarrow> bytes list \<times> string"
  op_return_script :: "bytes \<Rightarrow> err + bytes"
  e_now :: int

datatype effect =
    Send bytes
  | Pay string int
  | GoAnchorToChain int int
  | GoBeginTxMonitor bytes
  | GoConfirmAnchor BtcMonMsg
  | GoAnchorReward string
  | GoAnchorCalendar int
  | GoForgetCal string
  | GoBeaconMonitor
  | GoFeeMonitor
  | GoBlockMonitors bool
  | GoPruneOldState
  | GoSendLater string string
  | GoEvent string string

definition CONFIRMED_BTC_TX_IDS_KEY :: string where
  "CONFIRMED_BTC_TX_IDS_KEY = ''BTC_Mon:ConfirmedBTCTxIds''"

definition CHECK_BTC_TX_IDS_KEY :: string where
  "CHECK_BTC_TX_IDS_KEY = ''BTC_Mon:CheckNewBTCTxIds''"

definition unix_now :: "'d Env \<Rightarrow> int" where
  "unix_now E = e_now E div 10 ^ 9"

definition send_tx :: "'d Env \<Rightarrow> AnchorConfig \<Rightarrow> string \<Rightarrow> string \<Rightarrow> string \<Rightarrow> bytes \<times> BcastResult result" where
  "send_tx E cfg txType d i = BroadcastTx (e_crypto E) (ECPrivateKey cfg) (e_rpc E) txType d 2 (unix_now E) i"

subsection \<open>Anchoring\<close>

definition GetTreeFromCalRange :: "'d Env \<Rightarrow> int \<Rightarrow> int \<Rightarrow> err + BtcAgg" where
  "GetTreeFromCalRange E startTxRange endTxRange =
     bind_err (GetCalTxRange (e_rpc E) startTxRange endTxRange) (AggregateAnchorTx (e_merkle E) (e_uuid E))"

definition SendBtcTx :: "'d Env \<Rightarrow> BtcAgg \<Rightarrow> int \<Rightarrow> int \<Rightarrow> int \<Rightarrow> string \<times> bytes \<times> err option" where
  "SendBtcTx E agg height start end =
     (case hex_decode_ok (ba_AggRoot agg) of
        None \<Rightarrow> ([], [], Some (Err ''hex''))
      | Some hexRoot \<Rightarrow>
          (case send_op_return (e_ln E) hexRoot of
             Inl e \<Rightarrow> ([], [], Some e)
           | Inr (txid, rawtx) \<Rightarrow>
               (txid, BtcTxMsg_marshal
                 \<lparr>btm_AnchorBtcAggID = ba_AnchorBtcAggID agg, btm_AnchorBtcAggRoot = ba_AggRoot agg,
                  btm_BtcTxID = txid, btm_BtcTxBody = rawtx, btm_BtcTxHeight = 0, btm_CalBlockHeight = height,
                  btm_BeginCalTxInt = start, btm_EndCalTxInt = end\<rparr>, None)))"

text \<open>What the leader does: it sends the transaction, reports a failure as BTC-E, and broadcasts
  BTC-A in either case.\<close>

definition lead_anchor ::
  "'d Env \<Rightarrow> AnchorConfig \<Rightarrow> BtcAgg \<Rightarrow> int \<Rightarrow> int \<Rightarrow> AnchorState \<Rightarrow> effect list \<times> err option" where
  "lead_anchor E cfg agg start end st =
     (let (txid, btca, err) = SendBtcTx E agg (Height st) start end;
          (b_e, res_e) = send_tx E cfg ''BTC-E'' (ba_AggRoot agg) (ID st);
          effs = (if err = None then [] else [Send b_e])
      in if err \<noteq> None \<and> \<not> is_ok res_e then (effs, Some (Panic ''BTC-E''))
         else
           (let (b_a, res_a) = send_tx E cfg ''BTC-A'' btca (ID st) in
            if \<not> is_ok res_a then (effs @ [Send b_a], Some (Panic ''BTC-A''))
            else (effs @ [Send b_a, GoEvent ''CreateAnchorTx'' txid], None)))"

definition AnchorToChain ::
  "'d Env \<Rightarrow> AnchorConfig \<Rightarrow> int \<Rightarrow> int \<Rightarrow> AnchorState \<Rightarrow> 'd \<Rightarrow> AnchorState \<times> 'd \<times> effect list \<times> err option" where
  "AnchorToChain E cfg start end st d =
     (let st = (if ElectionMode cfg = ''test'' then st\<lparr>LastErrorCoreID := []\<rparr> else st);
          (iAmLeader, leaderIDs) = ElectChainContributorAsLeader (e_elect E) (e_iter E) 1 [LastErrorCoreID st] st
      in if length leaderIDs = 0 then (st, d, [], Some (Err ''Leader election error''))
         else case GetTreeFromCalRange E start end of
           Inl e \<Rightarrow> (st, d, [], Some e)
         | Inr agg \<Rightarrow>
             if ba_AggRoot agg \<noteq> [] then
               (let st = st\<lparr>LastElectedCoreID := hd leaderIDs\<rparr>;
                    st = (if ba_AggRoot agg = LatestErrRoot st then st\<lparr>LatestErrRoot := []\<rparr> else st);
                    (effs, err) = (if iAmLeader then lead_anchor E cfg agg start end st else ([], None))
                in if err \<noteq> None then (st, d, effs, err)
                   else
                     (let check = \<lparr>ar_AnchorBtcAggRoot = ba_AggRoot agg, ar_CalBlockHeight = Height st,
                            ar_BtcBlockHeight = ln_BlockHeight (LNState st), ar_BeginCalTxInt = start,
                            ar_EndCalTxInt = end, ar_AmLeader = iAmLeader\<rparr>;
                          (d, err) = kv_Append (e_db E) d CHECK_BTC_TX_IDS_KEY (AnchorRange_marshal check)
                      in if err \<noteq> None then (st, d, effs, err)
                         else (st\<lparr>BeginCalTxInt := end, EndCalTxInt := end, LatestBtcaHeight := Height st\<rparr>,
                           d, effs, None)))
             else (st, d, [], Some (Err ''no transactions to aggregate'')))"

definition AnchorReward :: "'d Env \<Rightarrow> AnchorConfig \<Rightarrow> AnchorState \<Rightarrow> string \<Rightarrow> effect list \<times> err" where
  "AnchorReward E cfg st i =
     (case LnUris st i of
        Some val \<Rightarrow>
          (if cfg_AnchorReward cfg > 0 then
             (if \<not> ChainSynced st then ([], Err ''Reward not sent; Chain not yet synced'')
              else
                (let ip = ip_from_uri (e_ln E) (Peer val); address = lightning_address (e_ln E) ip in
                 if length ip = 0 then ([], Err ''Reward not sent; Can't obtain IP for peer'')
                 else if length address = 0 then ([], Err ''Reward not sent; Can't obtain status for peer'')
                 else (case send_coins (e_ln E) address (cfg_AnchorReward cfg) (MinConfs (cfg_Lightning cfg)) of
                         Inl e \<Rightarrow> ([], e)
                       | Inr txid \<Rightarrow> ([Pay address (cfg_AnchorReward cfg)],
                           Err (''Reward not sent; LnURI of CoreID '' @ i @ '' not found in local database'')))))
           else ([], Err (''Reward not sent; LnURI of CoreID '' @ i @ '' not found in local database'')))
      | None \<Rightarrow> ([], Err (''Reward not sent; LnURI of CoreID '' @ i @ '' not found in local database'')))"

subsection \<open>Monitoring a new Bitcoin transaction\<close>

fun remove_checks :: "'d DB \<Rightarrow> string \<Rightarrow> string list \<Rightarrow> 'd \<Rightarrow> 'd \<times> err option" where
  "remove_checks D aggRoot [] d = (d, None)"
| "remove_checks D aggRoot (s # ss) d =
     (case unmarshal_ok jd_AnchorRange AnchorRange_zero s of
        None \<Rightarrow> remove_checks D aggRoot ss d
      | Some a \<Rightarrow>
          (if ar_AnchorBtcAggRoot a \<noteq> aggRoot then remove_checks D aggRoot ss d
           else (case kv_Del D d CHECK_BTC_TX_IDS_KEY s of
                   (d', Some e) \<Rightarrow> (d', Some e)
                 | (d', None) \<Rightarrow> remove_checks D aggRoot ss d')))"

definition FindAndRemoveBtcCheck :: "'d DB \<Rightarrow> string \<Rightarrow> 'd \<Rightarrow> 'd \<times> err option" where
  "FindAndRemoveBtcCheck D aggRoot d =
     (case kv_GetArray D d CHECK_BTC_TX_IDS_KEY of
        Inl e \<Rightarrow> (d, Some e)
      | Inr checks \<Rightarrow> remove_checks D aggRoot checks d)"

definition BeginTxMonitor ::
  "'d Env \<Rightarrow> bytes \<Rightarrow> AnchorState \<Rightarrow> 'd \<Rightarrow> AnchorState \<times> 'd \<times> err option" where
  "BeginTxMonitor E msgBytes st d =
     (case unmarshal_ok jd_BtcTxMsg BtcTxMsg_zero msgBytes of
        None \<Rightarrow> (st, d, Some (Err ''json''))
      | Some m \<Rightarrow>
         (let st = st\<lparr>LatestBtcTx := btm_BtcTxID m, LatestBtcAggRoot := btm_AnchorBtcAggRoot m\<rparr> in
          case GenerateAnchorBtcTxState m of
            Inl e \<Rightarrow> (st, d, Some e)
          | Inr stateObj \<Rightarrow>
             (case BulkInsertBtcTxState (e_db E) (e_now E) [stateObj] d of
                (d, Some e) \<Rightarrow> (st, d, Some e)
              | (d, None) \<Rightarrow>
                 (case kv_Append (e_db E) d CONFIRMED_BTC_TX_IDS_KEY (TxID_marshal
                        \<lparr>tid_TxID = btm_BtcTxID m, tid_BlockHeight = 0, tid_AnchorBtcAggRoot = btm_AnchorBtcAggRoot m\<rparr>) of
                    (d, Some e) \<Rightarrow> (st, d, Some e)
                  | (d, None) \<Rightarrow>
                     (let d = fst (FindAndRemoveBtcCheck (e_db E) (btm_AnchorBtcAggRoot m) d) in
                      case GetTreeFromCalRange E (btm_BeginCalTxInt m) (btm_EndCalTxInt m) of
                        Inl e \<Rightarrow> (st, d, Some e)
                      | Inr agg \<Rightarrow>
                          if ba_AggRoot agg \<noteq> btm_AnchorBtcAggRoot m then
                            (st, d, Some (Err ''StartAnchoring failure, AggRoot mismatch''))
                          else (case BulkInsertBtcAggState (e_db E) (e_now E) (PrepareBtcaStateData agg) d of
                                  (d, err) \<Rightarrow> (st, d, err)))))))"

text \<open>\<open>None\<close> is the nil error: the transaction carries the root and has the id it claims.\<close>

definition CheckAnchor :: "'d Env \<Rightarrow> BtcTxMsg \<Rightarrow> err option" where
  "CheckAnchor E m =
     (let body = fst (hex_decode (btm_BtcTxBody m));
          (scripts, txHash) = parse_tx E body;
          rootBytes = fst (hex_decode (btm_AnchorBtcAggRoot m))
      in case op_return_script E rootBytes of
           Inl e \<Rightarrow> Some e
         | Inr outputScript \<Rightarrow>
             (if list_ex (\<lambda>script. script = outputScript \<and> txHash = btm_BtcTxID m) scripts then None
              else Some (Err ''unable to verify BTC-A'')))"

definition ResetAnchor :: "int \<Rightarrow> AnchorState \<Rightarrow> AnchorState" where
  "ResetAnchor startTxRange st = st\<lparr>BeginCalTxInt := startTxRange, LatestBtcaHeight := -1\<rparr>"

subsection \<open>Watching for failed anchors\<close>

definition check_failed ::
  "'d DB \<Rightarrow> int \<Rightarrow> AnchorState \<times> 'd \<times> effect list \<Rightarrow> string \<Rightarrow> AnchorState \<times> 'd \<times> effect list" where
  "check_failed D btcHeight = (\<lambda>(st, d, effs) s.
     case unmarshal_ok jd_AnchorRange AnchorRange_zero s of
       None \<Rightarrow> (st, d, effs)
     | Some a \<Rightarrow>
         (if ar_AnchorBtcAggRoot a = LastErrorCoreID st then
            (case kv_Del D d CHECK_BTC_TX_IDS_KEY s of
               (d', Some e) \<Rightarrow> (st, d', effs)
             | (d', None) \<Rightarrow> (ResetAnchor (ar_BeginCalTxInt a) st, d', effs))
          else
            (let hasBeen10CalBlocks = i64 (Height st - ar_CalBlockHeight a) > 10;
                 hasBeen144BtcBlocks = ar_BtcBlockHeight a \<noteq> 0 \<and> i64 (btcHeight - ar_BtcBlockHeight a) \<ge> 144;
                 (st, d, effs) =
                   (if hasBeen10CalBlocks then
                      (if BeginCalTxInt st \<ge> ar_EndCalTxInt a
                       then (st, fst (kv_Del D d CHECK_BTC_TX_IDS_KEY s),
                         effs @ [GoAnchorToChain (ar_BeginCalTxInt a) (ar_EndCalTxInt a)])
                       else (ResetAnchor (ar_BeginCalTxInt a) st, fst (kv_Del D d CHECK_BTC_TX_IDS_KEY s), effs))
                    else (st, d, effs))
             in (st, if hasBeen144BtcBlocks then fst (kv_Del D d CHECK_BTC_TX_IDS_KEY s) else d, effs))))"

definition MonitorFailedAnchor :: "'d DB \<Rightarrow> AnchorState \<Rightarrow> 'd \<Rightarrow> AnchorState \<times> 'd \<times> effect list" where
  "MonitorFailedAnchor D st d =
     (if ln_BlockHeight (LNState st) = 0 then (st, d, [])
      else case kv_GetArray D d CHECK_BTC_TX_IDS_KEY of
        Inl e \<Rightarrow> (st, d, [])
      | Inr checks \<Rightarrow> foldl (check_failed D (ln_BlockHeight (LNState st))) (st, d, []) checks)"

subsection \<open>Confirmation of a transaction in a block\<close>

definition IsInConfirmedTxs :: "'d DB \<Rightarrow> 'd \<Rightarrow> string \<Rightarrow> bool \<times> TxID" where
  "IsInConfirmedTxs D d anchorRoot =
     (case kv_GetArray D d CONFIRMED_BTC_TX_IDS_KEY of
        Inl e \<Rightarrow> (False, TxID_zero)
      | Inr results \<Rightarrow>
          (case filter (\<lambda>tx. tid_AnchorBtcAggRoot tx = anchorRoot) (decoded jd_TxID TxID_zero results) of
             [] \<Rightarrow> (False, TxID_zero)
           | tx # _ \<Rightarrow> (True, tx)))"

text \<open>The leaves of the block tree, and the last index of the transaction (-1 for none).\<close>

definition tx_leaf :: "string \<Rightarrow> bytes" where
  "tx_leaf t = fst (hex_decode (ReverseTxHex t))"

fun last_index_from :: "int \<Rightarrow> string list \<Rightarrow> string \<Rightarrow> int \<Rightarrow> int" where
  "last_index_from i [] t acc = acc"
| "last_index_from i (x # xs) t acc = last_index_from (i + 1) xs t (if x = t then i else acc)"

definition reversed_bytes :: "bytes \<Rightarrow> bytes" where
  "reversed_bytes b = fst (hex_decode (ReverseTxHex (hex_encode b)))"

definition GetBlockTree :: "'d Env \<Rightarrow> TxID \<Rightarrow> err + BlockDetails \<times> bytes list \<times> int" where
  "GetBlockTree E tx =
     bind_err (get_block (e_ln E) (tid_BlockHeight tx)) (\<lambda>block.
       let leaves = map tx_leaf (Transactions block);
           txIndex = last_index_from 0 (Transactions block) (tid_TxID tx) (-1)
       in if txIndex = -1 then
            Inl (Err (''Transaction '' @ tid_TxID tx @ '' not found in block '' @ format_int (tid_BlockHeight tx)))
          else if reversed_bytes (mt_root (e_btc_tree E) leaves) \<noteq> reversed_bytes (MerkleRoot block) then
            Inl (Err (hex_encode (reversed_bytes (mt_root (e_btc_tree E) leaves)) @
              '' does not equal block merkle root '' @ hex_encode (MerkleRoot block)))
          else Inr (block, leaves, txIndex))"

definition js_step :: "proof_step \<Rightarrow> JSProof" where
  "js_step p = (case p of (left, v) \<Rightarrow>
     if left then JSProof_zero\<lparr>JLeft := hex_encode v\<rparr> else JSProof_zero\<lparr>JRight := hex_encode v\<rparr>)"

definition GenerateBtcHeaderProof :: "'d Env \<Rightarrow> TxID \<Rightarrow> err + BtcMonMsg" where
  "GenerateBtcHeaderProof E tx =
     bind_err (GetBlockTree E tx) (\<lambda>(block, leaves, txIndex).
       Inr \<lparr>bmm_BtcTxID = tid_TxID tx, bmm_BtcHeadHeight = tid_BlockHeight tx,
            bmm_BtcHeadRoot = ReverseTxHex (hex_encode (MerkleRoot block)),
            bmm_Path = map js_step (mt_proof (e_btc_tree E) leaves (nat txIndex))\<rparr>)"

fun err_text :: "err \<Rightarrow> string" where
  "err_text (Err s) = s"
| "err_text (Panic s) = s"

definition check_confirmed :: "'d Env \<Rightarrow> AnchorState \<Rightarrow> 'd \<times> effect list \<Rightarrow> string \<Rightarrow> 'd \<times> effect list" where
  "check_confirmed E st = (\<lambda>(d, effs) s.
     case unmarshal_ok jd_TxID TxID_zero s of
       None \<Rightarrow> (d, effs)
     | Some tx \<Rightarrow>
         (if tid_BlockHeight tx = 0 then (d, effs)
          else if i64 (i64 (BtcHeight st - tid_BlockHeight tx) + 1) < 6 then (d, effs)
          else
            (let r = GenerateBtcHeaderProof E tx;
                 btcmsg = (case r of Inr m \<Rightarrow> m | Inl _ \<Rightarrow> BtcMonMsg_zero);
                 d = (case r of
                        Inl e \<Rightarrow> if contains (err_text e) ''not found in block''
                          then fst (kv_Del (e_db E) d CONFIRMED_BTC_TX_IDS_KEY s) else d
                      | Inr _ \<Rightarrow> d)
             in (fst (kv_Del (e_db E) d CONFIRMED_BTC_TX_IDS_KEY s), effs @ [GoConfirmAnchor btcmsg]))))"

definition MonitorConfirmedTx :: "'d Env \<Rightarrow> AnchorState \<Rightarrow> 'd \<Rightarrow> 'd \<times> effect list" where
  "MonitorConfirmedTx E st d =
     (case kv_GetArray (e_db E) d CONFIRMED_BTC_TX_IDS_KEY of
        Inl e \<Rightarrow> (d, [])
      | Inr results \<Rightarrow> foldl (check_confirmed E st) (d, []) results)"

text \<open>The entries not yet in a block, with the strings they are stored as.\<close>

definition pending_txs :: "string list \<Rightarrow> (TxID \<times> string) list" where
  "pending_txs results = List.map_filter (\<lambda>s.
     case unmarshal_ok jd_TxID TxID_zero s of
       None \<Rightarrow> None | Some tx \<Rightarrow> if tid_BlockHeight tx \<noteq> 0 then None else Some (tx, s)) results"

definition found_tx :: "'d DB \<Rightarrow> (TxID \<times> string) list \<Rightarrow> int \<Rightarrow> 'd \<Rightarrow> string \<Rightarrow> 'd" where
  "found_tx D pending i d t =
     (case ArrayContainsIndex (map (tid_TxID \<circ> fst) pending) t of
        (False, _) \<Rightarrow> d
      | (True, index) \<Rightarrow>
          (let (tx, s) = pending ! nat index; d = fst (kv_Del D d CONFIRMED_BTC_TX_IDS_KEY s)
           in fst (kv_Append D d CONFIRMED_BTC_TX_IDS_KEY (TxID_marshal (tx\<lparr>tid_BlockHeight := i\<rparr>)))))"

function scan_blocks :: "'d Env \<Rightarrow> (TxID \<times> string) list \<Rightarrow> int \<Rightarrow> int \<Rightarrow> 'd \<Rightarrow> 'd \<times> err option" where
  "scan_blocks E pending i endHeight d =
     (if i < endHeight + 1 then
        (case get_block (e_ln E) i of
           Inl e \<Rightarrow> (d, Some e)
         | Inr block \<Rightarrow>
             scan_blocks E pending (i + 1) endHeight (foldl (found_tx (e_db E) pending i) d (Transactions block)))
      else (d, None))"
  by pat_completeness auto
termination by (relation "measure (\<lambda>(_, _, i, h, _). nat (h + 1 - i))") auto

declare scan_blocks.simps [simp del]

definition MonitorBlocksForConfirmation :: "'d Env \<Rightarrow> int \<Rightarrow> int \<Rightarrow> 'd \<Rightarrow> 'd \<times> err option" where
  "MonitorBlocksForConfirmation E startHeight endHeight d =
     (case kv_GetArray (e_db E) d CONFIRMED_BTC_TX_IDS_KEY of
        Inl e \<Rightarrow> (d, Some e)
      | Inr results \<Rightarrow> scan_blocks E (pending_txs results) startHeight endHeight d)"

definition BlockSyncMonitor :: "'d Env \<Rightarrow> AnchorState \<Rightarrow> 'd \<Rightarrow> AnchorState \<times> 'd" where
  "BlockSyncMonitor E st d =
     (case ln_get_info (e_ln E) of
        Inl e \<Rightarrow> (st, d)
      | Inr info \<Rightarrow>
         (let st = st\<lparr>LNState := info\<rparr>; curr = ln_BlockHeight info in
          if BtcHeight st \<noteq> curr then
            (let isSynced = i64 (curr - BtcHeight st) < 36;
                 (d, err) = (if curr \<noteq> 0 \<and> isSynced then MonitorBlocksForConfirmation E (BtcHeight st) curr d
                   else (d, None))
             in if err \<noteq> None then (st, d) else (st\<lparr>BtcHeight := curr\<rparr>, d))
          else (st, d)))"

subsection \<open>Proofs of a confirmed transaction\<close>

definition lookup_by :: "('a \<Rightarrow> string) \<Rightarrow> 'a list \<Rightarrow> string \<rightharpoonup> 'a" where
  "lookup_by key xs = map_of (rev (map (\<lambda>x. (key x, x)) xs))"

definition or_zero :: "'a \<Rightarrow> 'a option \<Rightarrow> 'a" where
  "or_zero z x = (case x of None \<Rightarrow> z | Some y \<Rightarrow> y)"

definition keep_on_error :: "'a \<Rightarrow> err + 'a \<Rightarrow> 'a" where
  "keep_on_error p r = (case r of Inl _ \<Rightarrow> p | Inr q \<Rightarrow> q)"

definition chainpoint_header :: "IdLib \<Rightarrow> AggState \<Rightarrow> doc" where
  "chainpoint_header L row =
     fst (AddChainpointHeader L ''https://w3id.org/chainpoint/v5'' ''Chainpoint'' (as_Hash row) (as_ProofID row) Proof)"

definition btc_proof ::
  "'d Env \<Rightarrow> AnchorConfig \<Rightarrow> (string \<rightharpoonup> CalStateObject) \<Rightarrow> (string \<rightharpoonup> AnchorBtcAggState) \<Rightarrow>
     AnchorBtcTxState \<Rightarrow> AnchorBtcHeadState \<Rightarrow> AggState \<Rightarrow> ProofState option" where
  "btc_proof E cfg cals anchors tx hst row =
     (let p = chainpoint_header (e_ids E) row;
          p = keep_on_error p (AddCalendarBranch row (cso_CalState (or_zero CalStateObject_zero (cals (as_AggID row))))
                (SetProofType (BitcoinNetwork cfg) ''cal'') p)
      in case cals (as_AggID row) of
           None \<Rightarrow> None
         | Some calVal \<Rightarrow>
             (case anchors (cso_CalId calVal) of
                None \<Rightarrow> None
              | Some a \<Rightarrow>
                  (let p = keep_on_error p (AddChainBranch a tx hst (SetProofType (BitcoinNetwork cfg) ''btc'') p)
                   in Some \<lparr>ps_ProofID = as_ProofID row, ps_Proof = json_print (JObj p)\<rparr>)))"

definition GenerateBtcBatch ::
  "'d Env \<Rightarrow> AnchorConfig \<Rightarrow> string list \<Rightarrow> AnchorBtcHeadState \<Rightarrow> 'd \<Rightarrow> 'd \<times> err option" where
  "GenerateBtcBatch E cfg proofIds hst d =
     (case GetAggStateObjectsByProofIds (e_db E) d proofIds of
        Inl e \<Rightarrow> (d, Some e)
      | Inr aggStates \<Rightarrow>
         (case GetCalStateObjectsByAggIds (e_db E) d (map as_AggID aggStates) of
            Inl e \<Rightarrow> (d, Some e)
          | Inr calStates \<Rightarrow>
             (let anchors = GetAnchorBTCAggStateObjectsByCalIds (e_db E) d (map cso_CalId calStates) in
              if length anchors = 0 then (d, Some (Err ''no anchorbtcggstate to retrieve''))
              else (case GetBTCTxStateObjectByBtcHeadState (e_db E) d (abh_BtcTxId hst) of
                      Inl e \<Rightarrow> (d, Some e)
                    | Inr tx \<Rightarrow>
                        if length (abt_BtcTxId tx) = 0 then
                          (d, Some (Err (''btcTxState cannot be located for '' @ abh_BtcTxId hst)))
                        else BulkInsertProofs (e_db E) (e_now E)
                          (List.map_filter (btc_proof E cfg (lookup_by cso_AggID calStates)
                             (lookup_by aba_CalId anchors) tx hst) aggStates) d))))"

text \<open>The confirmation rounds, 70 seconds each, within the five minutes of the deadline: each is
  given by the state and the node it finds.\<close>

fun confirm_rounds ::
  "'d Env \<Rightarrow> AnchorConfig \<Rightarrow> BtcMonMsg \<Rightarrow> string \<Rightarrow> (AnchorState \<times> Rpc) list \<Rightarrow> bytes \<Rightarrow> effect list \<times> bytes" where
  "confirm_rounds E cfg m core [] hash = ([], hash)"
| "confirm_rounds E cfg m core ((st, R) # rounds) hash =
     (let btcc = json_print (JObj [(''btctx_id'', JStr (bmm_BtcTxID m)), (''btchead_height'', jint (bmm_BtcHeadHeight m)),
                (''btchead_root'', JStr (bmm_BtcHeadRoot m)), (''path'', JNull)]);
          sent = (if bmm_BtcHeadRoot m \<noteq> LatestBtccTx st \<and>
                fst (ElectValidatorAsLeader (e_elect_val E) 1 [core] st (e_address E))
              then [Send (fst (BroadcastTxWithMeta (e_crypto E) (ECPrivateKey cfg) R ''BTC-C'' btcc 3 (unix_now E) (ID st) core))]
              else []);
          hash = GetBTCCForBtcRoot R m
      in if length hash > 0 then (sent, hash)
         else (case confirm_rounds E cfg m core rounds hash of (effs, hash) \<Rightarrow> (sent @ effs, hash)))"

definition ConfirmAnchor ::
  "'d Env \<Rightarrow> AnchorConfig \<Rightarrow> (AnchorState \<times> Rpc) list \<Rightarrow> BtcMonMsg \<Rightarrow> 'd \<Rightarrow> 'd \<times> effect list" where
  "ConfirmAnchor E cfg rounds m d =
     (let core = fst (GetAnchoringCore (e_rpc E) (''BTC-A.BTCTX='' @ [CHR 0x27] @ bmm_BtcTxID m @ [CHR 0x27]));
          core = (if length core > 0 \<and> ElectionMode cfg = ''test'' then [] else core);
          (effs, hash) = confirm_rounds E cfg m core rounds [];
          hst = GenerateHeadStateObject (CoreURI cfg) hash m;
          proofIds = (case GetProofIdsByBtcTxId (e_db E) d (bmm_BtcTxID m) of Inl _ \<Rightarrow> [] | Inr is \<Rightarrow> is);
          d = fst (GenerateBtcBatch E cfg proofIds hst d)
      in (d, effs @ [GoEvent ''CreateConfirmTx'' (bmm_BtcTxID m)]))"

text \<open>The block of the anchor: from the BTC-C transaction, or from the Lightning node.\<close>

definition anchor_block :: "'d Env \<Rightarrow> BtcTxMsg \<Rightarrow> err + bytes \<times> int" where
  "anchor_block E btca =
     (case GetAnchorHeight (e_rpc E) btca of (btccHash, blockHeight) \<Rightarrow>
        if blockHeight \<noteq> 0 then Inr (btccHash, blockHeight)
        else (case hex_decode_ok (btm_BtcTxID btca) of
                None \<Rightarrow> Inl (Err ''hex'')
              | Some txBytes \<Rightarrow>
                  bind_err (get_transaction (e_ln E) txBytes) (\<lambda>heights.
                  let blockHeight = (case heights of [] \<Rightarrow> 0 | h # _ \<Rightarrow> h) in
                  bind_err (get_block (e_ln E) blockHeight) (\<lambda>block.
                  let btccHash = GetBTCCForBtcRoot (e_rpc E)
                        (BtcMonMsg_zero\<lparr>bmm_BtcHeadRoot := ReverseTxHex (hex_encode (MerkleRoot block))\<rparr>)
                  in if length btccHash = 0 then Inl (Err ''Could not retrieve btcc'')
                     else Inr (btccHash, blockHeight)))))"

definition ConstructProof :: "'d Env \<Rightarrow> AnchorConfig \<Rightarrow> string \<Rightarrow> err + doc" where
  "ConstructProof E cfg txid =
     bind_err (GetBtcaForCalTx (e_rpc E) txid) (\<lambda>btca.
     bind_err (GetTreeFromCalRange E (btm_BeginCalTxInt btca) (btm_EndCalTxInt btca)) (\<lambda>agg.
       if ba_AggRoot agg \<noteq> btm_AnchorBtcAggRoot btca then
         Inl (Err ''StartAnchoring failure, AggRoot mismatch'')
       else
         bind_err (GenerateAnchorBtcTxState btca) (\<lambda>tx.
         bind_err (anchor_block E btca) (\<lambda>(btccHash, blockHeight).
         bind_err (GenerateBtcHeaderProof E
             \<lparr>tid_TxID = btm_BtcTxID btca, tid_BlockHeight = blockHeight, tid_AnchorBtcAggRoot = []\<rparr>) (\<lambda>m.
           AddChainBranch
             (or_zero AnchorBtcAggState_zero (lookup_by aba_CalId (PrepareBtcaStateData agg) txid))
             tx (GenerateHeadStateObject (CoreURI cfg) btccHash m)
             (SetProofType (BitcoinNetwork cfg) ''btc'') Proof)))))"

end
