(* ===== verification/Bitcoin_Anchor_Correct.thy ===== *)
theory Bitcoin_Anchor_Correct
  imports Bitcoin_Anchor
begin

text \<open>
  What the anchoring engine guarantees: the ranges of calendar transactions that are anchored
  follow one another without gap or overlap; the records of pending anchors and transactions are
  removed and updated one by one; a transaction is confirmed after six blocks; the Merkle path of
  the block leads to the root of the block, so that a finished proof leads from the submitted hash
  to it.
\<close>

subsection \<open>The Merkle path of the block\<close>

lemma reversed_bytes_rev [simp]: "reversed_bytes b = rev b"
  by (simp add: reversed_bytes_def ReverseTxHex_hex codec_simps)

lemma last_index_from_cases:
  "last_index_from i xs t acc = acc \<and> t \<notin> set xs \<or>
   (\<exists>k < length xs. last_index_from i xs t acc = i + int k \<and> xs ! k = t)"
proof (induction xs arbitrary: i acc)
  case (Cons x xs)
  from Cons.IH [of "i + 1" "if x = t then i else acc"] show ?case
  proof (elim disjE exE conjE)
    fix k assume "k < length xs" "last_index_from (i + 1) xs t (if x = t then i else acc) = i + 1 + int k" "xs ! k = t"
    then show ?thesis by (intro disjI2 exI [of _ "Suc k"]) simp
  qed auto
qed simp

lemma js_path_climb:
  "foldl (\<lambda>v s. h (operand (JLeft s) @ v @ operand (JRight s))) v (map js_step path) = climb h path v"
  by (induction path arbitrary: v) (auto simp: climb_def js_step_def JSProof_zero_def)

lemma js_step_ascii: "s = js_step p \<Longrightarrow> ascii (JLeft s) \<and> ascii (JRight s)"
  by (auto simp: js_step_def JSProof_zero_def split: prod.splits)

lemma header_proof_sound:
  assumes "merkle_ok (\<lambda>b. sha256 cr (sha256 cr b)) (e_btc_tree E)" "GenerateBtcHeaderProof E tx = Inr m"
  shows "\<exists>block. get_block (e_ln E) (tid_BlockHeight tx) = Inr block \<and> tid_TxID tx \<in> set (Transactions block) \<and>
    bmm_BtcHeadRoot m = hex_encode (rev (MerkleRoot block)) \<and> bmm_BtcHeadHeight m = tid_BlockHeight tx \<and>
    (\<forall>s \<in> set (bmm_Path m). ascii (JLeft s) \<and> ascii (JRight s)) \<and>
    foldl (\<lambda>v s. sha256 cr (sha256 cr (operand (JLeft s) @ v @ operand (JRight s))))
      (tx_leaf (tid_TxID tx)) (bmm_Path m) = MerkleRoot block"
proof -
  let ?h = "\<lambda>b. sha256 cr (sha256 cr b)"
  obtain block leaves i where b: "get_block (e_ln E) (tid_BlockHeight tx) = Inr block"
    "leaves = map tx_leaf (Transactions block)" "i = last_index_from 0 (Transactions block) (tid_TxID tx) (-1)" "i \<noteq> -1"
    "mt_root (e_btc_tree E) leaves = MerkleRoot block"
    "m = \<lparr>bmm_BtcTxID = tid_TxID tx, bmm_BtcHeadHeight = tid_BlockHeight tx,
       bmm_BtcHeadRoot = ReverseTxHex (hex_encode (MerkleRoot block)),
       bmm_Path = map js_step (mt_proof (e_btc_tree E) leaves (nat i))\<rparr>"
    using assms(2) by (auto simp: GenerateBtcHeaderProof_def GetBlockTree_def bind_err_Inr_iff Let_def split: if_splits)
  obtain k where k: "k < length (Transactions block)" "i = int k" "Transactions block ! k = tid_TxID tx"
    using last_index_from_cases [of 0 "Transactions block" "tid_TxID tx" "-1"] b(3,4) by auto
  have "climb ?h (mt_proof (e_btc_tree E) leaves k) (leaves ! k) = MerkleRoot block"
    using assms(1) k(1) b(2,5) unfolding merkle_ok_def by (metis length_map)
  moreover have "leaves ! k = tx_leaf (tid_TxID tx)" using b(2) k by simp
  ultimately show ?thesis
    using b(1) b(6) [unfolded k(2) nat_int] k(1,3) js_path_climb [of ?h "tx_leaf (tid_TxID tx)" "mt_proof (e_btc_tree E) leaves k"]
    by (auto simp: ReverseTxHex_hex js_step_ascii in_set_conv_nth)
qed

lemma tx_leaf_rev [simp]: "tx_leaf (hex_encode (rev b)) = b"
  by (simp add: tx_leaf_def ReverseTxHex_hex codec_simps)

text \<open>What the two stages make of a document, whatever names they give to the anchors.\<close>

lemma finished_proof:
  assumes mk: "merkle_ok (sha256 (e_crypto E)) (e_merkle E)"
    "merkle_ok (\<lambda>b. sha256 (e_crypto E) (sha256 (e_crypto E) b)) (e_btc_tree E)"
    and agg: "j < length aggs" "aggs ! j = ProcessAggregation (e_crypto E) (e_merkle E) (Some u) items drand" "i < length items"
    and roots: "\<forall>a \<in> set aggs. \<exists>r. AggRoot a = hex_encode r"
    and nd: "\<forall>p \<in> set (mt_proof (e_merkle E) (map (leaf_of (e_crypto E) drand) items) i). \<not> contains (snd p) ''drand''"
    and asc: "ascii drand" "ascii uri"
    and h: "hex_decode_ok (hi_Hash (items ! i)) = Some h" "drand = [] \<longrightarrow> length h = 32"
    and cal: "AggregateAnchorTx (e_merkle E) uuid txs = Inr btcAgg" "n < length (List.map_filter cal_leaf txs)"
      "hex_encode (fst (List.map_filter cal_leaf txs ! n)) = CalRoot (GenerateCalendarTree (e_merkle E) aggs)"
    and tx: "btm_BtcTxBody m = hex_encode body" "btm_AnchorBtcAggRoot m = ba_AggRoot btcAgg"
      "go_index (btm_BtcTxBody m) (ba_AggRoot btcAgg) = int (2 * k)" "GenerateAnchorBtcTxState m = Inr txState"
    and block: "tid_TxID t = hex_encode (rev (sha256 (e_crypto E) (sha256 (e_crypto E) body)))"
      "GenerateBtcHeaderProof E t = Inr mon"
  shows "\<exists>p p' b. AddCalendarBranch (AggStates (aggs ! j) ! i)
      (cso_CalState (CreateCalStateMessage uri calTx (GenerateCalendarTree (e_merkle E) aggs) ! j)) t1 doc = Inr p \<and>
    AddChainBranch (PrepareBtcaStateData btcAgg ! n) txState (GenerateHeadStateObject uri btcc mon) t2 p = Inr p' \<and>
    get_block (e_ln E) (tid_BlockHeight t) = Inr b \<and>
    run_json_ops (e_crypto E) (branch_ops (first_branch (first_branch p')))
      (run_json_ops (e_crypto E) (branch_ops (first_branch p')) h) = MerkleRoot b \<and>
    (doc_ok p \<and> ascii t2 \<longrightarrow> doc_ok p')"
proof -
  let ?cr = "e_crypto E" and ?cals = "List.map_filter cal_leaf txs"
  obtain p where p: "AddCalendarBranch (AggStates (aggs ! j) ! i)
      (cso_CalState (CreateCalStateMessage uri calTx (GenerateCalendarTree (e_merkle E) aggs) ! j)) t1 doc = Inr p"
    "map_of p ''branches'' = Some (JArr [JObj (first_branch p)])"
    "hex_encode (run_json_ops ?cr (branch_ops (first_branch p)) h) = CalRoot (GenerateCalendarTree (e_merkle E) aggs)"
    using calendar_branch_value [OF mk(1) agg roots nd asc h] by blast
  have v: "run_json_ops ?cr (branch_ops (first_branch p)) h = fst (?cals ! n)"
    using p(3) cal(3) by (metis hex_decode_encode fst_conv)
  obtain b where b: "get_block (e_ln E) (tid_BlockHeight t) = Inr b"
    "\<forall>s \<in> set (bmm_Path mon). ascii (JLeft s) \<and> ascii (JRight s)"
    "foldl (\<lambda>v s. sha256 ?cr (sha256 ?cr (operand (JLeft s) @ v @ operand (JRight s))))
      (sha256 ?cr (sha256 ?cr body)) (bmm_Path mon) = MerkleRoot b"
    using header_proof_sound [OF mk(2) block(2)] unfolding block(1) tx_leaf_rev by blast
  obtain p' where "AddChainBranch (PrepareBtcaStateData btcAgg ! n) txState (GenerateHeadStateObject uri btcc mon) t2 p = Inr p'"
    "branch_ops (first_branch p') = branch_ops (first_branch p)"
    "run_json_ops ?cr (branch_ops (first_branch (first_branch p'))) (fst (?cals ! n)) = MerkleRoot b"
    "doc_ok p \<and> ascii t2 \<longrightarrow> doc_ok p'"
    using bitcoin_branch_value [OF mk(1) cal(1) refl cal(2) tx b(2) asc(2) p(2)] unfolding b(3) by blast
  with p(1) v b(1) show ?thesis by metis
qed

text \<open>C1. A finished proof is sound from end to end. Take a hash of a batch, the calendar transaction
  that holds the calendar root, the Bitcoin transaction that holds the anchor root, and the block
  that holds that transaction. The document that the calendar stage makes and the Bitcoin stage
  completes has two branches; running the first on the hash and then the second on what it gave
  ends in the Merkle root of the Bitcoin block.\<close>

theorem timestamp_proof_sound:
  assumes mk: "merkle_ok (sha256 (e_crypto E)) (e_merkle E)"
    "merkle_ok (\<lambda>b. sha256 (e_crypto E) (sha256 (e_crypto E) b)) (e_btc_tree E)"
    and agg: "j < length aggs" "aggs ! j = ProcessAggregation (e_crypto E) (e_merkle E) (Some u) items drand" "i < length items"
    and roots: "\<forall>a \<in> set aggs. \<exists>r. AggRoot a = hex_encode r"
    and nd: "\<forall>p \<in> set (mt_proof (e_merkle E) (map (leaf_of (e_crypto E) drand) items) i). \<not> contains (snd p) ''drand''"
    and asc: "ascii drand" "ascii uri"
    and h: "hex_decode_ok (hi_Hash (items ! i)) = Some h" "drand = [] \<longrightarrow> length h = 32"
    and cal: "AggregateAnchorTx (e_merkle E) uuid txs = Inr btcAgg" "n < length (List.map_filter cal_leaf txs)"
      "hex_encode (fst (List.map_filter cal_leaf txs ! n)) = CalRoot (GenerateCalendarTree (e_merkle E) aggs)"
    and tx: "btm_BtcTxBody m = hex_encode body" "btm_AnchorBtcAggRoot m = ba_AggRoot btcAgg"
      "go_index (btm_BtcTxBody m) (ba_AggRoot btcAgg) = int (2 * k)" "GenerateAnchorBtcTxState m = Inr txState"
    and block: "tid_TxID t = hex_encode (rev (sha256 (e_crypto E) (sha256 (e_crypto E) body)))"
      "GenerateBtcHeaderProof E t = Inr mon"
  shows "\<exists>p p' b. AddCalendarBranch (AggStates (aggs ! j) ! i)
      (cso_CalState (CreateCalStateMessage uri calTx (GenerateCalendarTree (e_merkle E) aggs) ! j)) ''cal'' doc = Inr p \<and>
    AddChainBranch (PrepareBtcaStateData btcAgg ! n) txState (GenerateHeadStateObject uri btcc mon) ''btc'' p = Inr p' \<and>
    get_block (e_ln E) (tid_BlockHeight t) = Inr b \<and>
    run_json_ops (e_crypto E) (branch_ops (first_branch (first_branch p')))
      (run_json_ops (e_crypto E) (branch_ops (first_branch p')) h) = MerkleRoot b"
  using finished_proof [OF assms] by blast

text \<open>A small world: the identity as hash, trees over it, one block with two transactions.\<close>

definition toy_body :: bytes where
  "toy_body = ''AA'' @ toy_hash (CHR ''1'') @ ''B''"

definition toy_ln :: Ln where
  "toy_ln = \<lparr>send_op_return = (\<lambda>_. Inl (Err ''no balance'')), ln_get_info = Inr LnInfo_zero,
     get_block = (\<lambda>_. Inr \<lparr>MerkleRoot = CHR ''x'' # toy_body, Transactions = [hex_encode ''x'', hex_encode (rev toy_body)]\<rparr>),
     get_transaction = (\<lambda>_. Inr []), send_coins = (\<lambda>_ _ _. Inr ''tx''), ip_from_uri = (\<lambda>u. u),
     is_ln_uri = (\<lambda>u. u \<noteq> []), peer_exists = (\<lambda>_. (True, None)), add_peer = (\<lambda>_. None),
     channel_exists = (\<lambda>_ _. (True, None)), create_channel = (\<lambda>_ _. None),
     lightning_address = (\<lambda>_. ''addr''), lnd_fee = 0\<rparr>"

definition toy_world :: "(bytes \<times> bytes) list Env" where
  "toy_world = \<lparr>e_crypto = toy_crypto, e_merkle = ref_merkle (\<lambda>b. b), e_btc_tree = ref_merkle (\<lambda>b. b),
     e_uuid = (\<lambda>b. b), e_ids = \<lparr>uuid_unix = (\<lambda>_. Inr 0), ulid_unix = (\<lambda>_. Inr 0), rfc3339 = (\<lambda>_. [])\<rparr>,
     e_rpc = toy_rpc [], e_ln = toy_ln, e_db = mem_db, e_elect = toy_elect, e_elect_val = toy_elect,
     e_iter = (\<lambda>m. sorted_list_of_set (dom m)), e_address = ''A'', parse_tx = (\<lambda>b. ([b], hex_encode (rev b))),
     op_return_script = Inr, e_now = 0\<rparr>"

lemma toy_world_simps [simp]:
  "e_crypto toy_world = toy_crypto" "e_merkle toy_world = ref_merkle (\<lambda>b. b)"
  "e_btc_tree toy_world = ref_merkle (\<lambda>b. b)" "e_ln toy_world = toy_ln" "e_db toy_world = mem_db"
  "sha256 toy_crypto = (\<lambda>b. b)"
  by (simp_all add: toy_world_def toy_crypto_def)

definition toy_batch :: Aggregation where
  "toy_batch = ProcessAggregation toy_crypto (ref_merkle (\<lambda>b. b)) (Some ''u'') [\<lparr>hi_ProofID = ''p'', hi_Hash = hex_encode (toy_hash (CHR ''1''))\<rparr>] []"

lemma toy_batch_root: "AggRoot toy_batch = hex_encode (toy_hash (CHR ''1''))"
  by (simp add: toy_batch_def ProcessAggregation_def Let_def leaf_of_def codec_simps toy_hash_def
      ref_merkle_def ref_root.simps)

lemma toy_cal_root: "CalRoot (GenerateCalendarTree (ref_merkle (\<lambda>b. b)) [toy_batch]) = hex_encode (toy_hash (CHR ''1''))"
  by (simp add: calendar_tree_fields agg_leaves_def toy_batch_root codec_simps ref_merkle_def ref_root.simps)

lemma toy_header_proof:
  "\<exists>mon. GenerateBtcHeaderProof toy_world (TxID_zero\<lparr>tid_TxID := hex_encode (rev toy_body)\<rparr>) = Inr mon"
proof -
  have l: "tx_leaf (hex_encode ''x'') = ''x''" using tx_leaf_rev [of "''x''"] by (simp del: hex_encode.simps)
  have ne: "hex_encode ''x'' \<noteq> hex_encode (rev toy_body)"
    by (subst hex.enc_eq_iff) (simp_all add: toy_body_def)
  then show ?thesis
    by (simp add: GenerateBtcHeaderProof_def GetBlockTree_def toy_ln_def TxID_zero_def l Let_def
        ref_merkle_def ref_root.simps del: hex_encode.simps)
qed

theorem timestamp_proof_sound_witness:
  "\<exists>agg txState mon p p' b.
    AggregateAnchorTx (ref_merkle (\<lambda>b. b)) (\<lambda>b. b) [toy_cal_tx] = Inr agg \<and>
    AddCalendarBranch (AggStates toy_batch ! 0) (cso_CalState (CreateCalStateMessage ''u'' \<lparr>tm_Hash = ''H'', tm_Data = []\<rparr>
      (GenerateCalendarTree (ref_merkle (\<lambda>b. b)) [toy_batch]) ! 0)) ''cal'' Proof = Inr p \<and>
    AddChainBranch (PrepareBtcaStateData agg ! 0) txState (GenerateHeadStateObject ''u'' ''h'' mon) ''btc'' p = Inr p' \<and>
    run_json_ops toy_crypto (branch_ops (first_branch (first_branch p')))
      (run_json_ops toy_crypto (branch_ops (first_branch p')) (toy_hash (CHR ''1''))) = CHR ''x'' # toy_body"
proof -
  have mk: "merkle_ok (sha256 toy_crypto) (ref_merkle (\<lambda>b. b))"
    "merkle_ok (\<lambda>b. sha256 toy_crypto (sha256 toy_crypto b)) (ref_merkle (\<lambda>b. b))"
    using ref_merkle_ok [of "\<lambda>b. b"] by simp_all
  have len: "length (toy_hash (CHR ''1'')) = 32" by (simp add: toy_hash_def)
  obtain agg where agg: "AggregateAnchorTx (ref_merkle (\<lambda>b. b)) (\<lambda>b. b) [toy_cal_tx] = Inr agg"
    using len by (simp add: AggregateAnchorTx_def toy_leaf toy_root slice_def Let_def)
  have rt: "ba_AggRoot agg = hex_encode (toy_hash (CHR ''1''))"
    using anchor_tree_sound(2) [OF mk(1) agg toy_cals, of 0] by (simp add: toy_root)
  obtain txState where tx: "GenerateAnchorBtcTxState toy_btc_msg = Inr txState"
    using toy_index by (simp add: GenerateAnchorBtcTxState_def toy_btc_msg_def slice_to_def slice_from_def slice_def len Let_def)
  obtain mon where mon: "GenerateBtcHeaderProof toy_world (TxID_zero\<lparr>tid_TxID := hex_encode (rev toy_body)\<rparr>) = Inr mon"
    using toy_header_proof by blast
  have body: "btm_BtcTxBody toy_btc_msg = hex_encode toy_body" "btm_AnchorBtcAggRoot toy_btc_msg = ba_AggRoot agg"
    by (simp_all add: toy_btc_msg_def rt toy_body_def)
  have r: "\<exists>r. AggRoot toy_batch = hex_encode r" by (auto simp: toy_batch_root)
  have nd: "mt_proof (ref_merkle (\<lambda>b. b)) [x] 0 = []" for x by (simp add: ref_merkle_def ref_proof.simps)
  have "\<exists>p p' b. AddCalendarBranch (AggStates toy_batch ! 0) (cso_CalState (CreateCalStateMessage ''u'' \<lparr>tm_Hash = ''H'', tm_Data = []\<rparr>
        (GenerateCalendarTree (ref_merkle (\<lambda>b. b)) [toy_batch]) ! 0)) ''cal'' Proof = Inr p \<and>
      AddChainBranch (PrepareBtcaStateData agg ! 0) txState (GenerateHeadStateObject ''u'' ''h'' mon) ''btc'' p = Inr p' \<and>
      get_block toy_ln 0 = Inr b \<and>
      run_json_ops toy_crypto (branch_ops (first_branch (first_branch p')))
        (run_json_ops toy_crypto (branch_ops (first_branch p')) (toy_hash (CHR ''1''))) = MerkleRoot b"
    using timestamp_proof_sound [where E = toy_world and j = 0 and aggs = "[toy_batch]" and i = 0 and drand = "[]"
        and items = "[\<lparr>hi_ProofID = ''p'', hi_Hash = hex_encode (toy_hash (CHR ''1''))\<rparr>]" and uri = "''u''"
        and h = "toy_hash (CHR ''1'')" and txs = "[toy_cal_tx]" and n = 0 and uuid = "\<lambda>b. b" and m = toy_btc_msg
        and body = toy_body and k = 2 and txState = txState and mon = mon and btcAgg = agg
        and t = "TxID_zero\<lparr>tid_TxID := hex_encode (rev toy_body)\<rparr>"
        and u = "''u''" and calTx = "\<lparr>tm_Hash = ''H'', tm_Data = []\<rparr>" and doc = Proof and btcc = "''h''"]
    using mk agg rt tx mon body toy_index len toy_cal_root toy_cals r nd
    by (simp add: toy_batch_def [symmetric] toy_leaf codec_simps TxID_zero_def)
  with agg show ?thesis by (auto simp: toy_ln_def)
qed

subsection \<open>The anchored ranges\<close>

lemma AnchorToChain_range:
  assumes "AnchorToChain E cfg start end st d = (st', d', effs, r)"
  shows "r = None \<Longrightarrow> start < end \<and> BeginCalTxInt st' = end \<and> EndCalTxInt st' = end \<and> LatestBtcaHeight st' = Height st"
    and "r \<noteq> None \<Longrightarrow> BeginCalTxInt st' = BeginCalTxInt st \<and> EndCalTxInt st' = EndCalTxInt st \<and>
      LatestBtcaHeight st' = LatestBtcaHeight st"
  using assms
  by (auto simp: AnchorToChain_def Let_def GetTreeFromCalRange_def GetCalTxRange_def
      split: prod.splits if_splits sum.splits)

lemma upto_glue: "a \<le> b \<Longrightarrow> b \<le> c \<Longrightarrow> [a..b - 1] @ [b..c - 1] = [a..c - 1]" for a b c :: int
  by (cases "b = c") (simp_all add: upto_split1 [of a b "c - 1"])

text \<open>A history of anchoring attempts, each with the environment, configuration and end it has; an
  attempt starts where the state says.\<close>

fun anchor_run ::
  "('d Env \<times> AnchorConfig \<times> int) list \<Rightarrow> AnchorState \<Rightarrow> 'd \<Rightarrow> (int \<times> int) list \<times> AnchorState \<times> 'd" where
  "anchor_run [] st d = ([], st, d)"
| "anchor_run ((E, cfg, e) # cs) st d =
     (case AnchorToChain E cfg (BeginCalTxInt st) e st d of
        (st', d', _, r) \<Rightarrow>
          (case anchor_run cs st' d' of (rs, st'', d'') \<Rightarrow>
             (if r = None then (BeginCalTxInt st, e) # rs else rs, st'', d'')))"


text \<open>C37. When the Lightning node does not take the transaction, the leader reports the root as BTC-E
  and then still broadcasts a BTC-A, with empty data, and goes on as if the anchor was under way.\<close>

theorem failed_send_still_broadcasts:
  assumes "send_op_return (e_ln E) rt = Inl e" "ba_AggRoot agg = hex_encode rt"
    "is_ok (broadcast_sync (e_rpc E) (fst (send_tx E cfg ''BTC-E'' (ba_AggRoot agg) (ID st))))"
    "is_ok (broadcast_sync (e_rpc E) (fst (send_tx E cfg ''BTC-A'' [] (ID st))))"
  shows "lead_anchor E cfg agg start end st =
    ([Send (fst (send_tx E cfg ''BTC-E'' (ba_AggRoot agg) (ID st))),
      Send (fst (send_tx E cfg ''BTC-A'' [] (ID st))), GoEvent ''CreateAnchorTx'' []], None)"
  using assms
  by (simp add: lead_anchor_def SendBtcTx_def codec_simps send_tx_def BroadcastTx_def Let_def)

definition toy_cfg :: AnchorConfig where
  "toy_cfg = (case InitConfig toy_env toy_host ''h'' ((default_flags ''h'')\<lparr>fl_seeds := ''s@1.2.3.4:1'', fl_stake_per_core := 5\<rparr>) of Inr c \<Rightarrow> c)"

theorem failed_send_still_broadcasts_witness:
  "snd (lead_anchor toy_world toy_cfg (BtcAgg_zero\<lparr>ba_AggRoot := hex_encode ''R''\<rparr>) 1 2 AnchorState_zero) = None"
  using failed_send_still_broadcasts [of toy_world "''R''" "Err ''no balance''" "BtcAgg_zero\<lparr>ba_AggRoot := hex_encode ''R''\<rparr>"
      toy_cfg AnchorState_zero 1 2]
  by (simp add: toy_ln_def toy_world_def toy_rpc_def)

subsection \<open>The records of pending anchors\<close>

definition check_root :: "string \<Rightarrow> string option" where
  "check_root s = map_option ar_AnchorBtcAggRoot (unmarshal_ok jd_AnchorRange AnchorRange_zero s)"

lemma kv_Del_step:
  assumes "db_laws D view" "db_reliable D" "arr_of (view d) k = Some xs" "list_all ascii xs" "v \<noteq> []"
  shows "snd (kv_Del D d k v) = None \<and> arr_of (view (fst (kv_Del D d k v))) k = Some (remove1 v xs) \<and>
    (\<forall>k'. k' \<noteq> k \<longrightarrow> view (fst (kv_Del D d k v)) k' = view d k')"
proof -
  obtain d' where d': "db_set D d k (str_array (del_first xs v)) = (d', None)"
    using assms(2) unfolding db_reliable_def by (metis prod.collapse)
  have "list_all ascii (remove1 v xs)" using assms(4) by (auto simp: list_all_iff dest: notin_set_remove1)
  with d' assms db_set_view [OF assms(1) d'] show ?thesis
    by (auto simp: kv_Del_def kv_GetArray_reliable [OF assms(1-3)] del_first_remove1 store_simps)
qed

lemma check_root_nonempty: "check_root s \<noteq> None \<Longrightarrow> s \<noteq> []"
  by (auto simp: check_root_def unmarshal_ok_def unmarshal_def json_parse_def)

lemma remove_checks_exact:
  assumes "db_laws D view" "db_reliable D"
  shows "arr_of (view d) CHECK_BTC_TX_IDS_KEY = Some (keep @ ss) \<Longrightarrow> list_all ascii (keep @ ss) \<Longrightarrow>
    \<forall>s \<in> set keep. check_root s \<noteq> Some aggRoot \<Longrightarrow>
    snd (remove_checks D aggRoot ss d) = None \<and>
    arr_of (view (fst (remove_checks D aggRoot ss d))) CHECK_BTC_TX_IDS_KEY =
      Some (keep @ filter (\<lambda>s. check_root s \<noteq> Some aggRoot) ss)"
proof (induction ss arbitrary: keep d)
  case (Cons s ss)
  show ?case
  proof (cases "check_root s = Some aggRoot")
    case True
    then have ne: "s \<noteq> []" and out: "s \<notin> set keep" using check_root_nonempty [of s] Cons.prems(3) by auto
    note del = kv_Del_step [OF assms Cons.prems(1,2) ne]
    have "arr_of (view (fst (kv_Del D d CHECK_BTC_TX_IDS_KEY s))) CHECK_BTC_TX_IDS_KEY = Some (keep @ ss)"
      using del out by (simp add: remove1_append)
    with Cons.IH [of "fst (kv_Del D d CHECK_BTC_TX_IDS_KEY s)" keep] Cons.prems(2,3) del True show ?thesis
      by (auto simp: check_root_def split: prod.splits option.splits)
  next
    case False
    with Cons.IH [of d "keep @ [s]"] Cons.prems show ?thesis
      by (auto simp: check_root_def split: option.splits)
  qed
qed simp

text \<open>C34. When a BTC-A arrives, the monitor removes exactly the pending checks of its anchor root, all of
  them, and keeps the others in order.\<close>

theorem FindAndRemoveBtcCheck_exact:
  assumes "db_laws D view" "db_reliable D" "arr_of (view d) CHECK_BTC_TX_IDS_KEY = Some checks" "list_all ascii checks"
  shows "snd (FindAndRemoveBtcCheck D aggRoot d) = None \<and>
    arr_of (view (fst (FindAndRemoveBtcCheck D aggRoot d))) CHECK_BTC_TX_IDS_KEY =
      Some (filter (\<lambda>s. check_root s \<noteq> Some aggRoot) checks)"
  using remove_checks_exact [OF assms(1,2), of d "[]" checks aggRoot] assms(3,4) kv_GetArray_reliable [OF assms(1-3)]
  by (simp add: FindAndRemoveBtcCheck_def)

lemma check_root_marshal: "AnchorRange_ok a \<Longrightarrow> check_root (AnchorRange_marshal a) = Some (ar_AnchorBtcAggRoot a)"
  by (simp add: check_root_def codec_simps)

theorem FindAndRemoveBtcCheck_exact_witness:
  "let check = (\<lambda>r. AnchorRange_marshal (AnchorRange_zero\<lparr>ar_AnchorBtcAggRoot := r\<rparr>)) in
   arr_of (map_of (fst (FindAndRemoveBtcCheck mem_db ''R''
     [(CHECK_BTC_TX_IDS_KEY, str_array [check ''R'', check ''S'', check ''R''])]))) CHECK_BTC_TX_IDS_KEY = Some [check ''S'']"
proof -
  define check where "check = (\<lambda>r. AnchorRange_marshal (AnchorRange_zero\<lparr>ar_AnchorBtcAggRoot := r\<rparr>))"
  let ?d = "[(CHECK_BTC_TX_IDS_KEY, str_array [check ''R'', check ''S'', check ''R''])]"
  have ok: "AnchorRange_ok (AnchorRange_zero\<lparr>ar_AnchorBtcAggRoot := r\<rparr>)" if "ascii r" for r
    using that by (simp add: AnchorRange_ok_def AnchorRange_zero_def is_i64_def)
  have asc: "list_all ascii [check ''R'', check ''S'', check ''R'']"
    using ok by (simp add: check_def AnchorRange_codec.marshal_ascii)
  have r: "check_root (check ''R'') = Some ''R''" "check_root (check ''S'') = Some ''S''"
    using ok by (simp_all add: check_def check_root_marshal)
  have "arr_of (map_of ?d) CHECK_BTC_TX_IDS_KEY = Some [check ''R'', check ''S'', check ''R'']"
    using asc by (simp add: arr_of_def codec_simps)
  then have "arr_of (map_of (fst (FindAndRemoveBtcCheck mem_db ''R'' ?d))) CHECK_BTC_TX_IDS_KEY =
      Some (filter (\<lambda>s. check_root s \<noteq> Some ''R'') [check ''R'', check ''S'', check ''R''])"
    by (intro FindAndRemoveBtcCheck_exact [where view = map_of, THEN conjunct2] mem_db_laws mem_db_reliable asc)
  with r have "arr_of (map_of (fst (FindAndRemoveBtcCheck mem_db ''R'' ?d))) CHECK_BTC_TX_IDS_KEY = Some [check ''S'']" by simp
  then show ?thesis by (simp only: Let_def check_def)
qed

lemma check_failed_ignores_root:
  "check_failed D h (st\<lparr>LatestErrRoot := r\<rparr>, d, effs) s =
     (case check_failed D h (st, d, effs) s of (st', d', effs') \<Rightarrow> (st'\<lparr>LatestErrRoot := r\<rparr>, d', effs'))"
  by (auto simp: check_failed_def Let_def ResetAnchor_def split: option.splits prod.splits)

lemma foldl_check_failed_ignores_root:
  "foldl (check_failed D h) (st\<lparr>LatestErrRoot := r\<rparr>, d, effs) ss =
     (case foldl (check_failed D h) (st, d, effs) ss of (st', d', effs') \<Rightarrow> (st'\<lparr>LatestErrRoot := r\<rparr>, d', effs'))"
proof (induction ss arbitrary: st d effs)
  case (Cons s ss)
  obtain st' d' effs' where "check_failed D h (st, d, effs) s = (st', d', effs')"
    by (cases "check_failed D h (st, d, effs) s")
  with Cons.IH [of st' d' effs'] show ?case by (simp add: check_failed_ignores_root)
qed simp

text \<open>The monitor for failed anchors never looks at the root that a BTC-E reported: what it does is
  the same whatever \<open>LatestErrRoot\<close> is. (The code compares the root of a check with the id of the
  Core that reported the failure, which is no root.)\<close>

theorem reported_root_ignored:
  "MonitorFailedAnchor D (st\<lparr>LatestErrRoot := r\<rparr>) d =
     (case MonitorFailedAnchor D st d of (st', d', effs) \<Rightarrow> (st'\<lparr>LatestErrRoot := r\<rparr>, d', effs))"
  by (simp add: MonitorFailedAnchor_def foldl_check_failed_ignores_root split: sum.splits)

subsection \<open>Six confirmations\<close>

text \<open>What justifies starting a confirmation: a record with a block height at least six blocks deep;
  the message is its header proof, or the empty message when that cannot be made.\<close>

definition confirmable :: "'d Env \<Rightarrow> AnchorState \<Rightarrow> string list \<Rightarrow> BtcMonMsg \<Rightarrow> bool" where
  "confirmable E st results m \<longleftrightarrow> (\<exists>s \<in> set results. \<exists>tx. unmarshal_ok jd_TxID TxID_zero s = Some tx \<and>
     tid_BlockHeight tx \<noteq> 0 \<and> 6 \<le> i64 (i64 (BtcHeight st - tid_BlockHeight tx) + 1) \<and>
     (GenerateBtcHeaderProof E tx = Inr m \<or> \<not> is_ok (GenerateBtcHeaderProof E tx) \<and> m = BtcMonMsg_zero))"

lemma check_confirmed_effects:
  "snd (check_confirmed E st (d, effs) s) = effs \<or>
   (\<exists>m. snd (check_confirmed E st (d, effs) s) = effs @ [GoConfirmAnchor m] \<and> confirmable E st [s] m)"
  by (auto simp: check_confirmed_def confirmable_def Let_def is_ok_def split: option.splits sum.splits)

lemma confirmable_mono: "confirmable E st a m \<Longrightarrow> set a \<subseteq> set b \<Longrightarrow> confirmable E st b m"
  unfolding confirmable_def by blast

lemma foldl_check_confirmed:
  "GoConfirmAnchor m \<in> set (snd (foldl (check_confirmed E st) (d, effs) ss)) \<Longrightarrow>
    GoConfirmAnchor m \<in> set effs \<or> confirmable E st ss m"
proof (induction ss arbitrary: d effs)
  case (Cons s ss)
  obtain d' effs' where c: "check_confirmed E st (d, effs) s = (d', effs')" by (cases "check_confirmed E st (d, effs) s")
  from Cons.prems c have "GoConfirmAnchor m \<in> set effs' \<or> confirmable E st ss m" using Cons.IH [of d' effs'] by simp
  then show ?case
    using check_confirmed_effects [of E st d effs s] c confirmable_mono [of E st ss m "s # ss"]
      confirmable_mono [of E st "[s]" m "s # ss"] by auto
qed simp



subsection \<open>The block height of a transaction\<close>

text \<open>What the scan does to the list of records: a record found in a block is replaced, at the end,
  by one with the height.\<close>

definition record_tx :: "(TxID \<times> string) list \<Rightarrow> int \<Rightarrow> string list \<Rightarrow> string \<Rightarrow> string list" where
  "record_tx pending i xs t =
     (case ArrayContainsIndex (map (tid_TxID \<circ> fst) pending) t of
        (False, _) \<Rightarrow> xs
      | (True, k) \<Rightarrow> remove1 (snd (pending ! nat k)) xs @
          [TxID_marshal ((fst (pending ! nat k))\<lparr>tid_BlockHeight := i\<rparr>)])"

lemma pending_txs_iff:
  "(tx, s) \<in> set (pending_txs results) \<longleftrightarrow>
    s \<in> set results \<and> unmarshal_ok jd_TxID TxID_zero s = Some tx \<and> tid_BlockHeight tx = 0"
  by (induction results) (auto simp: pending_txs_def split: option.splits if_splits)

lemma unmarshal_ok_nonempty: "unmarshal_ok j z s = Some x \<Longrightarrow> s \<noteq> []"
  by (auto simp: unmarshal_ok_def unmarshal_def json_parse_def)

lemma index_pending:
  assumes "ArrayContainsIndex (map (tid_TxID \<circ> fst) pending) t = (True, k)"
  shows "nat k < length pending \<and> tid_TxID (fst (pending ! nat k)) = t"
proof -
  let ?ids = "map (tid_TxID \<circ> fst) pending"
  have t: "t \<in> set ?ids" and k: "nat k = length (takeWhile (\<lambda>v. v \<noteq> t) ?ids)"
    using assms by (auto simp: ArrayContainsIndex_def array_index_from_spec split: if_splits)
  have "takeWhile (\<lambda>v. v \<noteq> t) ?ids \<noteq> ?ids" using t by (auto simp: takeWhile_eq_all_conv)
  then have lt: "length (takeWhile (\<lambda>v. v \<noteq> t) ?ids) < length ?ids"
    by (metis length_takeWhile_le le_neq_implies_less takeWhile_eq_take take_all order_refl)
  from nth_length_takeWhile [OF this] lt show ?thesis by (simp add: k)
qed

lemma found_tx_refines:
  assumes "db_laws D view" "db_reliable D" "arr_of (view d) CONFIRMED_BTC_TX_IDS_KEY = Some xs" "list_all ascii xs"
    "\<forall>(tx, s) \<in> set pending. s \<noteq> [] \<and> TxID_ok tx" "is_i64 i"
  shows "arr_of (view (found_tx D pending i d t)) CONFIRMED_BTC_TX_IDS_KEY = Some (record_tx pending i xs t) \<and>
    list_all ascii (record_tx pending i xs t)"
proof (cases "ArrayContainsIndex (map (tid_TxID \<circ> fst) pending) t")
  case (Pair c k)
  show ?thesis
  proof (cases c)
    case True
    obtain tx s where p: "pending ! nat k = (tx, s)" by (cases "pending ! nat k")
    then have "(tx, s) \<in> set pending"
      using index_pending [of pending t k] nth_mem [of "nat k" pending] Pair True by simp
    with assms(5) have ok: "s \<noteq> []" "TxID_ok (tx\<lparr>tid_BlockHeight := i\<rparr>)" using assms(6) by (auto simp: TxID_ok_def)
    note asc = TxID_codec.marshal_ascii [OF ok(2)]
    let ?d = "fst (kv_Del D d CONFIRMED_BTC_TX_IDS_KEY s)" and ?v = "TxID_marshal (tx\<lparr>tid_BlockHeight := i\<rparr>)"
    have del: "arr_of (view ?d) CONFIRMED_BTC_TX_IDS_KEY = Some (remove1 s xs)"
      using kv_Del_step [OF assms(1-4) ok(1)] by simp
    have a: "list_all ascii (remove1 s xs)" using assms(4) by (auto simp: list_all_iff dest: notin_set_remove1)
    have "kv_Append D ?d CONFIRMED_BTC_TX_IDS_KEY ?v = (fst (kv_Append D ?d CONFIRMED_BTC_TX_IDS_KEY ?v), None)"
      using kv_Append_reliable [OF assms(1,2) del] by (metis prod.collapse)
    from kv_Append_ok [OF assms(1) this del a asc] asc a show ?thesis
      by (simp add: found_tx_def record_tx_def Pair True p Let_def)
  qed (use assms(3,4) Pair in \<open>simp add: found_tx_def record_tx_def\<close>)
qed

lemma foldl_found_tx_refines:
  assumes "db_laws D view" "db_reliable D" "\<forall>(tx, s) \<in> set pending. s \<noteq> [] \<and> TxID_ok tx" "is_i64 i"
  shows "arr_of (view d) CONFIRMED_BTC_TX_IDS_KEY = Some xs \<Longrightarrow> list_all ascii xs \<Longrightarrow>
    arr_of (view (foldl (found_tx D pending i) d ts)) CONFIRMED_BTC_TX_IDS_KEY = Some (foldl (record_tx pending i) xs ts) \<and>
    list_all ascii (foldl (record_tx pending i) xs ts)"
proof (induction ts arbitrary: d xs)
  case (Cons t ts)
  note step = found_tx_refines [OF assms(1,2) Cons.prems assms(3,4), of t]
  from Cons.IH [OF step [THEN conjunct1] step [THEN conjunct2]] show ?case by simp
qed simp

text \<open>The record with the height, once written, stays; the record without it, once removed, does
  not come back.\<close>

lemma record_tx_keeps:
  assumes "new \<notin> snd ` set pending" "new \<in> set xs"
  shows "new \<in> set (foldl (record_tx pending i) xs ts)"
  using assms(2)
proof (induction ts arbitrary: xs)
  case (Cons t ts)
  have "new \<in> set (record_tx pending i xs t)"
  proof (cases "ArrayContainsIndex (map (tid_TxID \<circ> fst) pending) t")
    case (Pair c k)
    have "snd (pending ! nat k) \<in> snd ` set pending" if c using index_pending [of pending t k] Pair that by simp
    then have "c \<Longrightarrow> new \<noteq> snd (pending ! nat k)" using assms(1) by metis
    with Cons.prems show ?thesis by (cases c) (simp_all add: record_tx_def Pair)
  qed
  then show ?case using Cons.IH by simp
qed simp

lemma index_of_pending:
  assumes "(tx, s) \<in> set pending" "distinct (map (tid_TxID \<circ> fst) pending)"
  obtains k where "ArrayContainsIndex (map (tid_TxID \<circ> fst) pending) (tid_TxID tx) = (True, k)"
    "pending ! nat k = (tx, s)"
proof -
  let ?ids = "map (tid_TxID \<circ> fst) pending"
  obtain n where n: "n < length pending" "pending ! n = (tx, s)" using assms(1) by (auto simp: in_set_conv_nth)
  have "tid_TxID tx \<in> set ?ids" using assms(1) by force
  then obtain k where k: "ArrayContainsIndex ?ids (tid_TxID tx) = (True, k)"
    by (simp add: ArrayContainsIndex_def array_index_from_spec)
  have "nat k < length pending" "?ids ! nat k = ?ids ! n" using index_pending [OF k] n by simp_all
  then have "nat k = n" using assms(2) n(1) by (metis length_map nth_eq_iff_index_eq)
  with k n(2) that show ?thesis by blast
qed

lemma record_block_height:
  assumes "(tx, s) \<in> set pending" "distinct (map (tid_TxID \<circ> fst) pending)" "tid_TxID tx \<in> set ts"
    "TxID_marshal (tx\<lparr>tid_BlockHeight := i\<rparr>) \<notin> snd ` set pending"
  shows "TxID_marshal (tx\<lparr>tid_BlockHeight := i\<rparr>) \<in> set (foldl (record_tx pending i) xs ts)"
proof -
  obtain us vs where ts: "ts = us @ tid_TxID tx # vs" using assms(3) by (metis split_list)
  obtain k where "ArrayContainsIndex (map (tid_TxID \<circ> fst) pending) (tid_TxID tx) = (True, k)" "pending ! nat k = (tx, s)"
    using index_of_pending [OF assms(1,2)] by blast
  then have "TxID_marshal (tx\<lparr>tid_BlockHeight := i\<rparr>) \<in> set (record_tx pending i (foldl (record_tx pending i) xs us) (tid_TxID tx))"
    by (simp add: record_tx_def)
  then show ?thesis using record_tx_keeps [OF assms(4)] by (simp add: ts)
qed

lemma scan_blocks_heights:
  assumes "db_laws (e_db E) view" "db_reliable (e_db E)" "\<forall>(tx, s) \<in> set pending. s \<noteq> [] \<and> TxID_ok tx"
    "distinct (map (tid_TxID \<circ> fst) pending)" "\<And>j. i0 \<le> j \<Longrightarrow> j \<le> h \<Longrightarrow> is_i64 j"
  shows "scan_blocks E pending i h d = (d', None) \<Longrightarrow> i0 \<le> i \<Longrightarrow>
    arr_of (view d) CONFIRMED_BTC_TX_IDS_KEY = Some xs \<Longrightarrow> list_all ascii xs \<Longrightarrow>
    \<exists>ys. arr_of (view d') CONFIRMED_BTC_TX_IDS_KEY = Some ys \<and>
      (\<forall>new. new \<in> set xs \<and> new \<notin> snd ` set pending \<longrightarrow> new \<in> set ys) \<and>
      (\<forall>j b tx s. i \<le> j \<and> j \<le> h \<and> get_block (e_ln E) j = Inr b \<and> (tx, s) \<in> set pending \<and>
        tid_TxID tx \<in> set (Transactions b) \<and> TxID_marshal (tx\<lparr>tid_BlockHeight := j\<rparr>) \<notin> snd ` set pending \<longrightarrow>
        TxID_marshal (tx\<lparr>tid_BlockHeight := j\<rparr>) \<in> set ys)"
proof (induction "nat (h + 1 - i)" arbitrary: i d xs)
  case 0
  then have "d' = d" "h < i" by (simp_all add: scan_blocks.simps [of E pending i h d])
  with "0.prems" show ?case by auto
next
  case (Suc n)
  then have le: "i \<le> h" by simp
  obtain b where b: "get_block (e_ln E) i = Inr b"
    "scan_blocks E pending (i + 1) h (foldl (found_tx (e_db E) pending i) d (Transactions b)) = (d', None)"
    using Suc.prems(1) le by (auto simp: scan_blocks.simps [of E pending i h d] split: sum.splits)
  let ?d = "foldl (found_tx (e_db E) pending i) d (Transactions b)"
    and ?xs = "foldl (record_tx pending i) xs (Transactions b)"
  have f: "arr_of (view ?d) CONFIRMED_BTC_TX_IDS_KEY = Some ?xs" "list_all ascii ?xs"
    using foldl_found_tx_refines [OF assms(1,2,3) assms(5) Suc.prems(3,4)] Suc.prems(2) le by blast+
  have n: "n = nat (h + 1 - (i + 1))" "i0 \<le> i + 1" using Suc.hyps(2) Suc.prems(2) by simp_all
  obtain ys where ys: "arr_of (view d') CONFIRMED_BTC_TX_IDS_KEY = Some ys"
    "\<And>new. new \<in> set ?xs \<Longrightarrow> new \<notin> snd ` set pending \<Longrightarrow> new \<in> set ys"
    "\<And>j b tx s. i + 1 \<le> j \<Longrightarrow> j \<le> h \<Longrightarrow> get_block (e_ln E) j = Inr b \<Longrightarrow> (tx, s) \<in> set pending \<Longrightarrow>
        tid_TxID tx \<in> set (Transactions b) \<Longrightarrow> TxID_marshal (tx\<lparr>tid_BlockHeight := j\<rparr>) \<notin> snd ` set pending \<Longrightarrow>
        TxID_marshal (tx\<lparr>tid_BlockHeight := j\<rparr>) \<in> set ys"
    using Suc.hyps(1) [OF n(1) b(2) n(2) f] by blast
  show ?case
  proof (intro exI [of _ ys] conjI allI impI ys(1); elim conjE)
    fix new assume "new \<in> set xs" "new \<notin> snd ` set pending"
    then show "new \<in> set ys" using ys(2) record_tx_keeps by blast
  next
    fix j c tx s
    assume j: "i \<le> j" "j \<le> h" "get_block (e_ln E) j = Inr c" "(tx, s) \<in> set pending"
      "tid_TxID tx \<in> set (Transactions c)" "TxID_marshal (tx\<lparr>tid_BlockHeight := j\<rparr>) \<notin> snd ` set pending"
    show "TxID_marshal (tx\<lparr>tid_BlockHeight := j\<rparr>) \<in> set ys"
    proof (cases "j = i")
      case True
      with j b(1) have "TxID_marshal (tx\<lparr>tid_BlockHeight := j\<rparr>) \<in> set ?xs"
        using record_block_height [OF j(4) assms(4)] by simp
      then show ?thesis using ys(2) j(6) by blast
    next
      case False
      with j ys(3) show ?thesis by simp
    qed
  qed
qed

text \<open>C26. When the scan over new Bitcoin blocks succeeds, every recorded transaction that is in one of
  them has a record with the height of that block, which is what the confirmation waits for.\<close>

theorem block_scan_records_height:
  assumes "db_laws (e_db E) view" "db_reliable (e_db E)"
    "kv_GetArray (e_db E) d CONFIRMED_BTC_TX_IDS_KEY = Inr results" "list_all ascii results"
    "\<forall>s \<in> set results. \<forall>tx. unmarshal_ok jd_TxID TxID_zero s = Some tx \<longrightarrow> TxID_ok tx"
    "distinct (map (tid_TxID \<circ> fst) (pending_txs results))"
    "MonitorBlocksForConfirmation E startHeight endHeight d = (d', None)"
    "0 < startHeight" "is_i64 endHeight" "startHeight \<le> h" "h \<le> endHeight" "get_block (e_ln E) h = Inr b"
    "s \<in> set results" "unmarshal_ok jd_TxID TxID_zero s = Some tx" "tid_BlockHeight tx = 0"
    "tid_TxID tx \<in> set (Transactions b)"
  shows "\<exists>xs. arr_of (view d') CONFIRMED_BTC_TX_IDS_KEY = Some xs \<and>
    TxID_marshal (tx\<lparr>tid_BlockHeight := h\<rparr>) \<in> set xs"
proof -
  let ?p = "pending_txs results"
  have p: "\<forall>(tx, s) \<in> set ?p. s \<noteq> [] \<and> TxID_ok tx" and tx: "(tx, s) \<in> set ?p"
    using assms(5,13-15) by (auto simp: pending_txs_iff dest: unmarshal_ok_nonempty)
  have j: "is_i64 j" if "startHeight \<le> j" "j \<le> endHeight" for j
    using that assms(8,9) by (simp add: is_i64_def)
  have "TxID_ok (tx\<lparr>tid_BlockHeight := h\<rparr>)" using assms(5,13,14) j [OF assms(10,11)] by (auto simp: TxID_ok_def)
  then have "unmarshal_ok jd_TxID TxID_zero (TxID_marshal (tx\<lparr>tid_BlockHeight := h\<rparr>)) = Some (tx\<lparr>tid_BlockHeight := h\<rparr>)"
    by (rule TxID_codec.unmarshal_ok_marshal)
  then have new: "TxID_marshal (tx\<lparr>tid_BlockHeight := h\<rparr>) \<notin> snd ` set ?p"
    using assms(8,10) by (auto simp: pending_txs_iff)
  have "scan_blocks E ?p startHeight endHeight d = (d', None)"
    using assms(7) by (simp add: MonitorBlocksForConfirmation_def assms(3))
  from scan_blocks_heights [OF assms(1,2) p assms(6) j this order_refl kv_GetArray_arr_of [OF assms(1,3)] assms(4)]
  show ?thesis using assms(10-12,16) tx new by blast
qed

theorem block_scan_records_height_witness:
  "\<exists>xs. arr_of (map_of (fst (MonitorBlocksForConfirmation toy_world 7 7
      [(CONFIRMED_BTC_TX_IDS_KEY, str_array [TxID_marshal (TxID_zero\<lparr>tid_TxID := hex_encode ''x''\<rparr>)])])))
      CONFIRMED_BTC_TX_IDS_KEY = Some xs \<and>
    TxID_marshal (TxID_zero\<lparr>tid_TxID := hex_encode ''x'', tid_BlockHeight := 7\<rparr>) \<in> set xs"
proof -
  define u where "u = hex_encode ''x''"
  let ?tx = "TxID_zero\<lparr>tid_TxID := u\<rparr>" and ?s = "TxID_marshal (TxID_zero\<lparr>tid_TxID := u\<rparr>)"
  let ?d = "[(CONFIRMED_BTC_TX_IDS_KEY, str_array [?s])]"
  have z: "tid_BlockHeight TxID_zero = 0" "ascii u" "tid_AnchorBtcAggRoot TxID_zero = []"
    by (simp_all add: TxID_zero_def u_def del: hex_encode.simps)
  then have ok: "TxID_ok ?tx" by (simp add: TxID_ok_def is_i64_def)
  then have dec: "unmarshal_ok jd_TxID TxID_zero ?s = Some ?tx" by (rule TxID_codec.unmarshal_ok_marshal)
  have arr: "kv_GetArray (e_db toy_world) ?d CONFIRMED_BTC_TX_IDS_KEY = Inr [?s]"
    using TxID_codec.marshal_ascii [OF ok] by (simp add: kv_GetArray_def mem_db_def parse_str_array)
  have p: "pending_txs [?s] = [(?tx, ?s)]" by (simp add: pending_txs_def dec z)
  have blk: "get_block (e_ln toy_world) j = Inr \<lparr>MerkleRoot = CHR ''x'' # toy_body, Transactions = [u, hex_encode (rev toy_body)]\<rparr>" for j
    by (simp add: toy_ln_def u_def)
  have "snd (MonitorBlocksForConfirmation toy_world 7 7 ?d) = None"
    unfolding MonitorBlocksForConfirmation_def arr sum.case
    by (simp only: scan_blocks.simps [of _ _ "7 :: int"] scan_blocks.simps [of _ _ "7 + 1 :: int"] blk sum.case) simp
  then have m: "MonitorBlocksForConfirmation toy_world 7 7 ?d = (fst (MonitorBlocksForConfirmation toy_world 7 7 ?d), None)"
    by (metis prod.collapse)
  have db: "db_laws (e_db toy_world) map_of" "db_reliable (e_db toy_world)" by (simp_all add: mem_db_laws mem_db_reliable)
  have "\<exists>xs. arr_of (map_of (fst (MonitorBlocksForConfirmation toy_world 7 7 ?d))) CONFIRMED_BTC_TX_IDS_KEY = Some xs \<and>
      TxID_marshal (?tx\<lparr>tid_BlockHeight := 7\<rparr>) \<in> set xs"
    by (rule block_scan_records_height [OF db arr _ _ _ m _ _ _ _ blk _ dec])
      (use TxID_codec.marshal_ascii [OF ok] dec ok p z in \<open>simp_all add: is_i64_def\<close>)
  then show ?thesis unfolding u_def .
qed

end
