(* ===== verification/Abci_Validators.thy ===== *)
theory Abci_Validators
  imports Bitcoin_Anchor_Correct "HOL-Library.Sublist"
begin

text \<open>
  The state of the ABCI application and its validator set, \<open>src/abci/validators.go\<close>. \<open>App\<close> holds
  the fields of \<open>AnchorApplication\<close> that change; its database is the one the cache and the proof
  store share. \<open>TmLib\<close> has the functions of the Tendermint libraries: the address of a key, the
  encoding of a validator update and the hash of a transaction.

  The properties give the reading of a validator transaction its inverse, name the transaction
  that crashes the node, and show that the address map, the database and the list of updates stay
  in step.
\<close>

subsection \<open>The application\<close>

record ValidatorUpdate =
  vu_PubKey :: bytes
  vu_Power :: int

record 'd App =
  Db :: 'd
  app_state :: AnchorState
  app_config :: AnchorConfig
  app_ID :: string
  JWK :: Jwk
  ValUpdates :: "ValidatorUpdate list"
  valAddrToPubKeyMap :: "string \<rightharpoonup> bytes"
  PendingValidator :: string
  PendingChangeStake :: int
  LastFee :: int
  LatestTime :: string
  agg_queue :: "HashItem list"

record TmLib =
  tm_address :: "bytes \<Rightarrow> string"
  tm_encode_validator :: "ValidatorUpdate \<Rightarrow> err + bytes"
  tm_hash :: "bytes \<Rightarrow> bytes"

datatype code = CodeTypeOK | CodeTypeEncodingError | CodeTypeUnauthorized

text \<open>The answer to a transaction; \<open>Events\<close> is its event type with the attributes.\<close>

record Response =
  Code :: code
  Log :: string
  Events :: "(string \<times> (bytes \<times> bytes) list) list"

definition respond :: "code \<Rightarrow> string \<Rightarrow> Response" where
  "respond c l = \<lparr>Code = c, Log = l, Events = []\<rparr>"

subsection \<open>Validator transactions\<close>

definition upper_char :: "char \<Rightarrow> char" where
  "upper_char c = (let n = (of_char c :: nat) in if 97 \<le> n \<and> n \<le> 122 then char_of (n - 32) else c)"

definition MakeValSetChangeTx :: "bytes \<Rightarrow> int \<Rightarrow> bytes" where
  "MakeValSetChangeTx pubkey pw = ''val:'' @ map upper_char (hex_encode pubkey) @ ''/'' @ format_int pw"

definition isValidatorTx :: "bytes \<Rightarrow> bool" where
  "isValidatorTx tx = has_prefix tx ''val:''"

text \<open>The parts of \<open>id!pubkey!pw!block\<close>; a value of two parts is indexed out of range.\<close>

definition val_parts :: "string \<Rightarrow> err + string \<times> string \<times> string \<times> string" where
  "val_parts val =
     (case split_on (CHR ''!'') val of
        [i, pubkey, pw, block] \<Rightarrow> Inr (i, pubkey, pw, block)
      | [i, pubkey, pw] \<Rightarrow> Inr (i, pubkey, pw, [])
      | [_, _] \<Rightarrow> Inl (Panic ''index out of range'')
      | _ \<Rightarrow> Inl (Err (''Expected 'val:id!pubkey!power'' @ [CHR 0x27])))"

definition ValidateValidatorTx :: "string \<Rightarrow> err + string \<times> bytes \<times> int \<times> int" where
  "ValidateValidatorTx val =
     bind_err (val_parts val) (\<lambda>(idS, pubkeyS, powerS, blockS).
       case b64_decode (trim_prefix pubkeyS ''val:'') of
         None \<Rightarrow> Inl (Err ''pubkey is invalid base64'')
       | Some pubkey \<Rightarrow>
           (case parse_int_ok powerS of
              None \<Rightarrow> Inl (Err ''power isn't an integer'')
            | Some pw \<Rightarrow>
                if blockS \<noteq> [] then
                  (case parse_int_ok blockS of
                     None \<Rightarrow> Inl (Err ''block height isn't an integer'')
                   | Some blockH \<Rightarrow> Inr (trim_prefix idS ''val:'', pubkey, pw, blockH))
                else Inr (trim_prefix idS ''val:'', pubkey, pw, 0)))"

text \<open>A key is copied into 32 bytes before its address is taken.\<close>

definition ed25519_key :: "bytes \<Rightarrow> bytes" where
  "ed25519_key b = take 32 (b @ replicate 32 (CHR 0x00))"

definition updateValidator :: "TmLib \<Rightarrow> 'd DB \<Rightarrow> ValidatorUpdate \<Rightarrow> 'd App \<Rightarrow> err + 'd App \<times> Response" where
  "updateValidator T D v app =
     (let key = ''val:'' @ vu_PubKey v; address = tm_address T (ed25519_key (vu_PubKey v)) in
      if vu_Power v = 0 then
        (case db_get D (Db app) key of
           Inl e \<Rightarrow> Inl (Panic ''db'')
         | Inr None \<Rightarrow> Inr (app, respond CodeTypeUnauthorized
             (''Cannot remove non-existent validator '' @ b64_encode (vu_PubKey v)))
         | Inr (Some _) \<Rightarrow> Inr (app\<lparr>Db := fst (db_delete D (Db app) key),
             valAddrToPubKeyMap := (valAddrToPubKeyMap app)(address := None),
             ValUpdates := ValUpdates app @ [v]\<rparr>, respond CodeTypeOK []))
      else
        (case tm_encode_validator T v of
           Inl e \<Rightarrow> Inr (app, respond CodeTypeEncodingError ''Error encoding validator'')
         | Inr value \<Rightarrow> Inr (app\<lparr>Db := fst (db_set D (Db app) key value),
             valAddrToPubKeyMap := (valAddrToPubKeyMap app)(address \<mapsto> vu_PubKey v),
             ValUpdates := ValUpdates app @ [v]\<rparr>, respond CodeTypeOK [])))"

definition execValidatorTx :: "TmLib \<Rightarrow> 'd DB \<Rightarrow> string \<Rightarrow> 'd App \<Rightarrow> err + 'd App \<times> Response" where
  "execValidatorTx T D tx app =
     (case ValidateValidatorTx tx of
        Inl (Panic s) \<Rightarrow> Inl (Panic s)
      | Inl (Err s) \<Rightarrow> Inr (app, respond CodeTypeEncodingError s)
      | Inr (_, pubkey, pw, _) \<Rightarrow> updateValidator T D \<lparr>vu_PubKey = pubkey, vu_Power = pw\<rparr> app)"

definition CheckVoteValidator :: "'d Env \<Rightarrow> 'd App \<Rightarrow> err + 'd App \<times> effect list" where
  "CheckVoteValidator E app =
     (let proposed = ProposedVal (app_config app) in
      if proposed \<noteq> [] then
        (case ValidateValidatorTx proposed of
           Inl (Panic s) \<Rightarrow> Inl (Panic s)
         | Inl (Err s) \<Rightarrow> Inr (app, [])
         | Inr (_, _, _, blockHeight) \<Rightarrow>
             if blockHeight = Height (app_state app) then
               Inr (app\<lparr>PendingValidator := proposed\<rparr>,
                 if fst (ElectValidatorAsLeader (e_elect_val E) 1 [] (app_state app) (e_address E))
                 then [GoSendLater ''VAL'' proposed] else [])
             else Inr (app, []))
      else Inr (app, []))"

subsection \<open>Reading a validator transaction\<close>

definition val_tx :: "string \<Rightarrow> bytes \<Rightarrow> int \<Rightarrow> int \<Rightarrow> string" where
  "val_tx i pubkey pw block = join ''!'' [''val:'' @ i, b64_encode pubkey, format_int pw, format_int block]"

lemma format_int_no_bang: "CHR ''!'' \<notin> set (format_int n)"
proof -
  have "digit_char d \<noteq> CHR ''!''" if "d < 10" for d
  proof -
    have "list_all (\<lambda>d. digit_char d \<noteq> CHR ''!'') [0..<10]" by code_simp
    with that show ?thesis by (simp add: list_all_iff)
  qed
  then have "CHR ''!'' \<notin> set (nat_digits m)" for m using \<open>\<And>d. d < 10 \<Longrightarrow> digit_char d \<noteq> CHR ''!''\<close> by (metis nat_digits_set)
  then show ?thesis by (simp add: format_int_def)
qed

lemma b64_char_plain: "n < 64 \<Longrightarrow> b64_char n \<noteq> CHR ''!'' \<and> b64_char n \<noteq> CHR '':''"
proof -
  have "list_all (\<lambda>c. c \<noteq> CHR ''!'' \<and> c \<noteq> CHR '':'') b64_alphabet" by code_simp
  then show "n < 64 \<Longrightarrow> b64_char n \<noteq> CHR ''!'' \<and> b64_char n \<noteq> CHR '':''"
    using length_b64_alphabet by (simp add: b64_char_def list_all_length)
qed

lemma b64_encode_plain: "CHR ''!'' \<notin> set (b64_encode s)" "CHR '':'' \<notin> set (b64_encode s)"
  by (induction s rule: b64_encode.induct) (simp_all add: Let_def b64_char_plain [THEN conjunct1, symmetric]
    b64_char_plain [THEN conjunct2, symmetric])

lemma trim_val_key: "trim_prefix (b64_encode s) ''val:'' = b64_encode s"
proof -
  have "\<not> has_prefix (b64_encode s) ''val:''"
  proof
    assume "has_prefix (b64_encode s) ''val:''"
    then have t: "take (length ''val:'') (b64_encode s) = ''val:''" by (simp only: has_prefix_def)
    have "CHR '':'' \<in> set (take (length ''val:'') (b64_encode s))" unfolding t by simp
    then show False using b64_encode_plain(2) in_set_takeD by fast
  qed
  then show ?thesis by (simp add: trim_prefix_def)
qed

lemma val_tx_read:
  assumes "CHR ''!'' \<notin> set i" "is_i64 pw" "is_i64 block"
  shows "ValidateValidatorTx (val_tx i pubkey pw block) = Inr (i, pubkey, pw, block)"
proof -
  have "split_on (CHR ''!'') (val_tx i pubkey pw block) =
      [''val:'' @ i, b64_encode pubkey, format_int pw, format_int block]"
    using split_on_append [of "CHR ''!''" "''val:'' @ i"] split_on_append [OF b64_encode_plain(1)]
      split_on_append [OF format_int_no_bang] split_on_no_sep [OF format_int_no_bang] assms(1)
    by (simp add: val_tx_def)
  moreover have "trim_prefix (''val:'' @ i) ''val:'' = i" by (rule trim_prefix_append)
  ultimately show ?thesis
    using assms(2,3) by (simp add: ValidateValidatorTx_def val_parts_def trim_val_key codec_simps del: append_Cons)
qed

text \<open>C30. A validator transaction written with an id, a key, a power and a block height is read back as
  these.\<close>

theorem ValidateValidatorTx_roundtrip:
  assumes "CHR ''!'' \<notin> set i" "is_i64 pw" "is_i64 block"
  shows "ValidateValidatorTx (val_tx i pubkey pw block) = Inr (i, pubkey, pw, block)"
  using assms by (rule val_tx_read)

theorem ValidateValidatorTx_roundtrip_witness:
  "ValidateValidatorTx (val_tx ''08AB'' ''key'' (- 3) 17) = Inr (''08AB'', ''key'', - 3, 17)"
  by (rule ValidateValidatorTx_roundtrip) (simp_all add: is_i64_def)

text \<open>A validator transaction of two parts crashes the node: the branch for two parts reads a third
  one.\<close>

theorem two_part_validator_tx_panics:
  assumes "CHR ''!'' \<notin> set a" "CHR ''!'' \<notin> set b"
  shows "execValidatorTx T D (a @ CHR ''!'' # b) app = Inl (Panic ''index out of range'')"
  using split_on_append [OF assms(1)] split_on_no_sep [OF assms(2)]
  by (simp add: execValidatorTx_def ValidateValidatorTx_def val_parts_def)

subsection \<open>The validator set\<close>

text \<open>The address map and the database agree on who is a validator.\<close>

definition validators_agree :: "TmLib \<Rightarrow> ('d \<Rightarrow> view) \<Rightarrow> 'd App \<Rightarrow> bool" where
  "validators_agree T view app \<longleftrightarrow> (\<forall>k. length k = 32 \<longrightarrow>
     (view (Db app) (''val:'' @ k) \<noteq> None \<longleftrightarrow> valAddrToPubKeyMap app (tm_address T k) = Some k))"

lemma ed25519_key_id: "length k = 32 \<Longrightarrow> ed25519_key k = k"
  by (simp add: ed25519_key_def)

lemma updateValidator_cases:
  assumes "db_laws D view" "db_reliable D" "updateValidator T D v app = Inr (app', r)"
  shows "(Code r \<noteq> CodeTypeOK \<and> app' = app) \<or>
    (Code r = CodeTypeOK \<and> ValUpdates app' = ValUpdates app @ [v] \<and>
     valAddrToPubKeyMap app' = (valAddrToPubKeyMap app)
       (tm_address T (ed25519_key (vu_PubKey v)) := if vu_Power v = 0 then None else Some (vu_PubKey v)) \<and>
     (\<exists>value. view (Db app') = (view (Db app))
       (''val:'' @ vu_PubKey v := if vu_Power v = 0 then None else Some value)))"
proof -
  note del = db_delete_reliable [OF assms(1,2)] and set = db_set_reliable [OF assms(1,2)]
  show ?thesis using assms(3)
    by (auto simp: updateValidator_def Let_def del set respond_def fun_eq_iff split: if_splits sum.splits option.splits)
qed

fun update_all :: "TmLib \<Rightarrow> 'd DB \<Rightarrow> ValidatorUpdate list \<Rightarrow> 'd App \<Rightarrow> err + 'd App" where
  "update_all T D [] app = Inr app"
| "update_all T D (v # vs) app = bind_err (updateValidator T D v app) (\<lambda>(app, _). update_all T D vs app)"

lemma validators_agree_step:
  assumes "db_laws D view" "db_reliable D"
    "\<And>a b. length a = 32 \<Longrightarrow> length b = 32 \<Longrightarrow> tm_address T a = tm_address T b \<Longrightarrow> a = b"
    "validators_agree T view app" "length (vu_PubKey v) = 32" "updateValidator T D v app = Inr (app', r)"
  shows "validators_agree T view app'"
  using updateValidator_cases [OF assms(1,2,6)]
proof (elim disjE conjE exE)
  fix x
  assume app': "valAddrToPubKeyMap app' = (valAddrToPubKeyMap app)
      (tm_address T (ed25519_key (vu_PubKey v)) := if vu_Power v = 0 then None else Some (vu_PubKey v))"
    "view (Db app') = (view (Db app)) (''val:'' @ vu_PubKey v := if vu_Power v = 0 then None else Some x)"
  have "tm_address T k = tm_address T (vu_PubKey v) \<longleftrightarrow> k = vu_PubKey v" if "length k = 32" for k
    using assms(3) [OF that assms(5)] by blast
  then show ?thesis
    using assms(4) by (auto simp: validators_agree_def app' ed25519_key_id [OF assms(5)])
qed (use assms(4) in simp)


definition toy_tm :: TmLib where
  "toy_tm = \<lparr>tm_address = (\<lambda>k. k), tm_encode_validator = (\<lambda>v. Inr (vu_PubKey v)), tm_hash = (\<lambda>b. b)\<rparr>"

definition toy_app :: "(bytes \<times> bytes) list App" where
  "toy_app = \<lparr>Db = [], app_state = AnchorState_zero, app_config = toy_cfg, app_ID = ''A'', JWK = Jwk_zero,
     ValUpdates = [], valAddrToPubKeyMap = Map.empty, PendingValidator = [], PendingChangeStake = 0,
     LastFee = 0, LatestTime = [], agg_queue = []\<rparr>"

theorem two_part_validator_tx_panics_witness:
  "execValidatorTx toy_tm mem_db ''pubkey!10'' toy_app = Inl (Panic ''index out of range'')"
  using two_part_validator_tx_panics [of "''pubkey''" "''10''" toy_tm mem_db toy_app] by simp


end
