(* ===== verification/Staking_Identity.thy ===== *)
theory Staking_Identity
  imports Abci_Validators
begin

text \<open>
  Staking and the identities of the Cores, \<open>src/abci/stakingidentity.go\<close>. The loops of the
  goroutines are given by one pass each, which says whether the loop goes on; what a pass does to
  the Lightning node is in its effects. A panic is the \<open>Inl\<close> result.

  The properties give the table of \<open>VerifyIdentity\<close>, the stake per validator and when its
  computation crashes. What declaring a key does is in \<open>Identity_Correct\<close>.
\<close>

subsection \<open>The stake\<close>

text \<open>Division of \<open>int64\<close> values, truncated; a zero divisor panics.\<close>

definition go_div :: "int \<Rightarrow> int \<Rightarrow> err + int" where
  "go_div a b =
     (if b = 0 then Inl (Panic ''integer divide by zero'')
      else Inr (i64 (sgn a * sgn b * (\<bar>a\<bar> div \<bar>b\<bar>))))"

definition STATIC_FEE_AMT :: int where
  "STATIC_FEE_AMT = 0"

text \<open>One pass of \<open>SetStake\<close>; the flag is true when the loop returns. \<open>fuel\<close> bounds the pages of
  the search (\<open>None\<close>: not enough).\<close>

definition set_stake_pass :: "'d Env \<Rightarrow> nat \<Rightarrow> 'd App \<Rightarrow> (err + 'd App \<times> bool) option" where
  "set_stake_pass E fuel app =
     (let st = app_state app in
      if \<not> AppReady st then Some (Inr (app, False))
      else (case rpc_validators (e_rpc E) (Height st) of
        Inl e \<Rightarrow> Some (Inr (app, False))
      | Inr validators \<Rightarrow>
         (let cores = e_iter E (GetLastNSubmitters 128 st) in
          case GetAllCHNGSTK (e_rpc E) fuel of
            None \<Rightarrow> None
          | Some (Inl e) \<Rightarrow> Some (Inr (app, False))
          | Some (Inr chngStakeTxs) \<Rightarrow>
             (let stakePerCore =
                (case chngStakeTxs of [] \<Rightarrow> StakePerCore (app_config app)
                 | tx # _ \<Rightarrow>
                     (case parse_int (Data tx) of (latest, err) \<Rightarrow>
                        if err \<noteq> None \<or> latest \<noteq> 0 \<and> latest \<noteq> StakePerCore (app_config app) then latest
                        else StakePerCore (app_config app)));
                  app = app\<lparr>app_config := (app_config app)\<lparr>StakePerCore := stakePerCore\<rparr>\<rparr>;
                  totalStake = i64 (int (length cores) * stakePerCore)
              in Some (bind_err (go_div totalStake (int (length validators))) (\<lambda>stakeAmt.
                   Inr (app\<lparr>app_state := st\<lparr>Validators := validators, LnStakePerVal := stakeAmt,
                     LnStakePrice := totalStake\<rparr>\<rparr>, True)))))))"

definition CheckVoteChangeStake :: "'d Env \<Rightarrow> 'd App \<Rightarrow> 'd App \<times> effect list" where
  "CheckVoteChangeStake E app =
     (let st = app_state app; cfg = app_config app in
      if AppReady st \<and> UpdateStake cfg \<noteq> [] then
        (case split_on (CHR '':'') (UpdateStake cfg) of
           [h, s] \<Rightarrow>
             (case (parse_int_ok h, parse_int_ok s) of
                (Some blockHeight, Some newStake) \<Rightarrow>
                  if newStake \<noteq> StakePerCore cfg \<and> blockHeight = Height st then
                    (app\<lparr>PendingChangeStake := newStake\<rparr>,
                     if fst (ElectValidatorAsLeader (e_elect_val E) 1 [] st (e_address E))
                     then [GoSendLater ''CHNGSTK'' (format_int newStake)] else [])
                  else (app, [])
              | _ \<Rightarrow> (app, []))
         | _ \<Rightarrow> (app, []))
      else (app, []))"

subsection \<open>Identities\<close>

text \<open>The key of a JWK transaction; one that does not decode leaves the nil curve, which panics.\<close>

definition SetIdentity :: "'d Env \<Rightarrow> Tx \<Rightarrow> 'd App \<Rightarrow> err + 'd App \<times> Jwk" where
  "SetIdentity E tx app =
     (case unmarshal_ok jd_Jwk Jwk_zero (Data tx) of
        None \<Rightarrow> Inl (Err ''json'')
      | Some jwkType \<Rightarrow>
         (case DecodePubKey (e_crypto E) tx of
            Inl e \<Rightarrow> Inl (Panic ''invalid memory address or nil pointer dereference'')
          | Inr pubKey \<Rightarrow>
             (let st = app_state app; pubKeyHex = hex_encode (elliptic_marshal pubKey);
                  st = st\<lparr>CoreKeys := (CoreKeys st)(CoreID tx \<mapsto> pubKey)\<rparr>;
                  st = (case TxValidations st pubKeyHex of Some _ \<Rightarrow> st
                        | None \<Rightarrow> st\<lparr>TxValidations := (TxValidations st)(pubKeyHex \<mapsto> NewTxValidation)\<rparr>);
                  st = st\<lparr>IDMap := (IDMap st)(Kid jwkType \<mapsto> CoreID tx)\<rparr>;
                  lnID = fst (unmarshal jd_LnIdentity LnIdentity_zero (Meta tx));
                  st = (if is_ln_uri (e_ln E) (Peer lnID)
                        then st\<lparr>LnUris := (LnUris st)(CoreID tx \<mapsto> lnID)\<rparr> else st)
              in Inr (app\<lparr>app_state := st\<rparr>, jwkType))))"

definition SaveIdentity :: "'d Env \<Rightarrow> Tx \<Rightarrow> 'd App \<Rightarrow> err + 'd App" where
  "SaveIdentity E tx app =
     bind_err (SetIdentity E tx app) (\<lambda>(app, jwkType).
       Inr (if Kid jwkType \<noteq> [] \<and> Kid (JWK app) \<noteq> [] \<and> Kid jwkType = Kid (JWK app)
            then app\<lparr>app_state := (app_state app)\<lparr>JWKStaked := True\<rparr>\<rparr> else app))"

definition VerifyIdentity :: "'d Env \<Rightarrow> 'd App \<Rightarrow> Tx \<Rightarrow> bool" where
  "VerifyIdentity E app tx =
     (let st = app_state app; alreadyExists = CoreKeys st (CoreID tx) \<noteq> None in
      if app_ID app = CoreID tx then True
      else if ChainSynced st \<and> AmValidator st \<and> \<not> alreadyExists then
        (case unmarshal_ok jd_LnIdentity LnIdentity_zero (Meta tx) of
           None \<Rightarrow> False
         | Some lnID \<Rightarrow>
             le_IsValidator st (CoreID tx) \<or>
             (case channel_exists (e_ln E) (Peer lnID) (LnStakePerVal st) of (ex, err) \<Rightarrow> err = None \<and> ex))
      else if \<not> ChainSynced st then True
      else if le_IsValidator st (CoreID tx) \<and> AmValidator st then True
      else \<not> alreadyExists)"

text \<open>The identities of all JWK transactions of the chain; an error skips its transaction, a panic
  ends the node.\<close>

fun set_identities :: "'d Env \<Rightarrow> Tx list \<Rightarrow> 'd App \<Rightarrow> err + 'd App" where
  "set_identities E [] app = Inr app"
| "set_identities E (tx # txs) app =
     (case SetIdentity E tx app of
        Inl (Panic s) \<Rightarrow> Inl (Panic s)
      | Inl (Err s) \<Rightarrow> set_identities E txs app
      | Inr (app, _) \<Rightarrow> set_identities E txs app)"

definition load_identity_pass :: "'d Env \<Rightarrow> nat \<Rightarrow> 'd App \<Rightarrow> (err + 'd App \<times> bool) option" where
  "load_identity_pass E fuel app =
     (case rpc_status (e_rpc E) of
        Inl e \<Rightarrow> Some (Inr (app, False))
      | Inr _ \<Rightarrow>
          (case GetAllJWKs (e_rpc E) fuel of
             None \<Rightarrow> None
           | Some (Inl e) \<Rightarrow> Some (Inr (app, False))
           | Some (Inr txs) \<Rightarrow> Some (bind_err (set_identities E txs app) (\<lambda>app. Inr (app, True)))))"

definition SendIdentity :: "'d Env \<Rightarrow> 'd App \<Rightarrow> effect list \<times> err option" where
  "SendIdentity E app =
     (case ln_get_info (e_ln E) of
        Inl e \<Rightarrow> ([], Some e)
      | Inr info \<Rightarrow>
          (case ln_Uris info of
             [] \<Rightarrow> ([], None)
           | uri # _ \<Rightarrow>
               (let lnID = \<lparr>Peer = uri, RequiredChanAmt = LnStakePerVal (app_state app)\<rparr>;
                    (b, r) = BroadcastTxWithMeta (e_crypto E) (ECPrivateKey (app_config app)) (e_rpc E) ''JWK''
                      (Jwk_marshal (JWK app)) 2 (unix_now E) (app_ID app) (LnIdentity_marshal lnID)
                in ([Send b], case r of Inl e \<Rightarrow> Some e | Inr _ \<Rightarrow> None))))"

subsection \<open>Staking\<close>

text \<open>The checks before the staking loop: changed credentials are announced again.\<close>

definition check_credentials :: "'d Env \<Rightarrow> 'd App \<Rightarrow> err + 'd App" where
  "check_credentials E app =
     (let st = app_state app;
          unstaked = (\<lambda>st. st\<lparr>JWKStaked := False\<rparr>) in
      (case ln_Uris (LNState st) of
         [] \<Rightarrow> Inl (Err ''loading'')
       | uri # _ \<Rightarrow>
          (let st = (case LnUris st (app_ID app) of
                 Some lnUri \<Rightarrow> if JWKStaked st \<and> Peer lnUri \<noteq> uri then unstaked st else st
               | None \<Rightarrow> st)
           in case CoreKeys st (app_ID app) of
                Some pubKey \<Rightarrow>
                  (if JWKStaked st then
                     (case bind_err (jwk_parse (e_crypto E) (Jwk_marshal (JWK app))) first_ec_key of
                        Inl e \<Rightarrow> Inl (Panic ''invalid memory address or nil pointer dereference'')
                      | Inr own \<Rightarrow>
                          Inr (app\<lparr>app_state := (if elliptic_marshal own \<noteq> elliptic_marshal pubKey
                            then unstaked st else st)\<rparr>))
                   else Inr (app\<lparr>app_state := st\<rparr>))
              | None \<Rightarrow> Inr (app\<lparr>app_state := st\<rparr>))))"

datatype ln_call = AddPeer string | CreateChannel string int

text \<open>The channel to one validator; the flag tells that its identity is not known yet.\<close>

definition stake_with :: "Ln \<Rightarrow> AnchorState \<Rightarrow> Validator \<Rightarrow> ln_call list \<times> bool" where
  "stake_with L st validator =
     (case LnUris st (val_Address validator) of
        None \<Rightarrow> ([], True)
      | Some lnID \<Rightarrow>
          (let known = fst (peer_exists L (Peer lnID)); added = add_peer L (Peer lnID) = None;
               adds = (if known then [] else [AddPeer (Peer lnID)])
           in if known \<or> added then
                (if fst (channel_exists L (Peer lnID) (LnStakePerVal st)) then (adds, False)
                 else (adds @ [CreateChannel (Peer lnID) (LnStakePerVal st)], False))
              else (adds, False)))"

text \<open>One pass of the staking loop: the calls to the Lightning node, and what it broadcasts.\<close>

definition stake_pass :: "'d Env \<Rightarrow> 'd App \<Rightarrow> 'd App \<times> ln_call list \<times> effect list" where
  "stake_pass E app =
     (case am_validator (app_state app) of
        (_, Some e) \<Rightarrow> (app, [], [])
      | (amVal, None) \<Rightarrow>
         (let app = app\<lparr>app_state := (app_state app)\<lparr>AmValidator := amVal\<rparr>\<rparr>; st = app_state app;
              rs = (if amVal then [] else map (stake_with (e_ln E) st) (Validators st));
              calls = concat (map fst rs)
          in if list_ex snd rs then (app, calls, []) else (app, calls, fst (SendIdentity E app))))"

subsection \<open>Properties\<close>

lemma le_IsValidator_iff: "le_IsValidator st i \<longleftrightarrow> i \<in> val_Address ` set (Validators st)"
  by (auto simp: le_IsValidator_def list_ex_iff)

text \<open>The decision on an identity, case by case: a node accepts its own; a synced validator accepts a
  new Core only with a decodable Lightning identity, and then if it is a validator or has funded
  its channel; an unsynced node accepts everything; otherwise a known Core changes its identity
  only when both sides are validators.\<close>

theorem VerifyIdentity_table:
  "VerifyIdentity E app tx \<longleftrightarrow>
     app_ID app = CoreID tx \<or> \<not> ChainSynced (app_state app) \<or>
     (if CoreKeys (app_state app) (CoreID tx) = None then
        AmValidator (app_state app) \<longrightarrow>
          (\<exists>lnID. unmarshal_ok jd_LnIdentity LnIdentity_zero (Meta tx) = Some lnID \<and>
            (CoreID tx \<in> val_Address ` set (Validators (app_state app)) \<or>
             channel_exists (e_ln E) (Peer lnID) (LnStakePerVal (app_state app)) = (True, None)))
      else AmValidator (app_state app) \<and> CoreID tx \<in> val_Address ` set (Validators (app_state app)))"
  by (auto simp: VerifyIdentity_def Let_def le_IsValidator_iff simp del: image_iff split: option.splits prod.splits)

theorem VerifyIdentity_table_witness:
  "\<not> VerifyIdentity toy_world (toy_app\<lparr>app_state := AnchorState_zero\<lparr>ChainSynced := True, AmValidator := True\<rparr>\<rparr>)
     (Tx_zero\<lparr>CoreID := ''B'', Meta := ''x''\<rparr>)"
proof -
  have "unmarshal_ok jd_LnIdentity LnIdentity_zero ''x'' = None" by code_simp
  then show ?thesis unfolding VerifyIdentity_table by (simp add: toy_app_def AnchorState_zero_def)
qed

lemma div_bounds: "0 < v \<Longrightarrow> t div v * v \<le> t \<and> t < (t div v + 1) * v" for t v :: int
  unfolding distrib_right using div_mult_mod_eq [of t v] pos_mod_bound [of v t] pos_mod_sign [of v t] by linarith

text \<open>C32. The stake that each validator gets a channel of is the total stake, the stake per Core for
  every active Core, divided by the number of validators and rounded down.\<close>

theorem stake_per_validator:
  assumes "set_stake_pass E fuel app = Some (Inr (app', True))"
    "0 \<le> StakePerCore (app_config app')"
    "int (length (e_iter E (GetLastNSubmitters 128 (app_state app)))) * StakePerCore (app_config app') < 2 ^ 63"
  shows "LnStakePrice (app_state app') =
      int (length (e_iter E (GetLastNSubmitters 128 (app_state app)))) * StakePerCore (app_config app') \<and>
    LnStakePerVal (app_state app') * int (length (Validators (app_state app'))) \<le> LnStakePrice (app_state app') \<and>
    LnStakePrice (app_state app') < (LnStakePerVal (app_state app') + 1) * int (length (Validators (app_state app')))"
proof -
  let ?n = "int (length (e_iter E (GetLastNSubmitters 128 (app_state app))))"
  obtain vs stake per where p: "rpc_validators (e_rpc E) (Height (app_state app)) = Inr vs"
    "go_div (i64 (?n * stake)) (int (length vs)) = Inr per"
    "app' = app\<lparr>app_config := (app_config app)\<lparr>StakePerCore := stake\<rparr>,
      app_state := (app_state app)\<lparr>Validators := vs, LnStakePerVal := per, LnStakePrice := i64 (?n * stake)\<rparr>\<rparr>"
    using assms(1)
    by (auto simp: set_stake_pass_def Let_def bind_err_Inr_iff split: if_splits sum.splits option.splits)
  let ?total = "?n * stake" and ?v = "int (length vs)"
  have stake: "0 \<le> stake" "?total < 2 ^ 63" using assms(2,3) p(3) by simp_all
  have t: "0 \<le> ?total" using stake(1) by simp
  then have i: "is_i64 ?total" using stake(2) by (simp add: is_i64_def)
  have v: "0 < ?v" using p(2) by (simp add: go_div_def split: if_splits)
  have d: "0 \<le> ?total div ?v" using v t by (simp add: pos_imp_zdiv_nonneg_iff)
  have "?total div ?v * 1 \<le> ?total div ?v * ?v" using d v by (intro mult_left_mono) linarith+
  also have "\<dots> \<le> ?total" using div_bounds [OF v] by blast
  finally have "?total div ?v \<le> ?total" by simp
  then have "is_i64 (?total div ?v)" using i d by (simp add: is_i64_def)
  then have per: "per = ?total div ?v" using p(2) i t v by (auto simp: go_div_def sgn_if split: if_splits)
  have "?total div ?v * ?v \<le> ?total" "?total < (?total div ?v + 1) * ?v"
    using div_bounds [OF v] by blast+
  with p(3) i per show ?thesis by simp
qed

text \<open>Without validators the computation of the stake divides by zero and ends the node.\<close>

theorem stake_without_validators_panics:
  assumes "AppReady (app_state app)" "rpc_validators (e_rpc E) (Height (app_state app)) = Inr []"
    "GetAllCHNGSTK (e_rpc E) fuel = Some (Inr txs)"
  shows "set_stake_pass E fuel app = Some (Inl (Panic ''integer divide by zero''))"
  using assms by (simp add: set_stake_pass_def Let_def go_div_def)

definition stake_world :: "Validator list \<Rightarrow> (bytes \<times> bytes) list Env" where
  "stake_world vs = toy_world\<lparr>e_rpc := (toy_rpc [])\<lparr>rpc_validators := (\<lambda>_. Inr vs)\<rparr>, e_iter := (\<lambda>_. [''a'', ''b'', ''c''])\<rparr>"

definition ready_app :: "(bytes \<times> bytes) list App" where
  "ready_app = toy_app\<lparr>app_state := AnchorState_zero\<lparr>AppReady := True\<rparr>, app_config := toy_cfg\<lparr>StakePerCore := 5\<rparr>\<rparr>"

lemma stake_world_simps:
  "rpc_validators (e_rpc (stake_world vs)) h = Inr vs" "e_iter (stake_world vs) m = [''a'', ''b'', ''c'']"
  "GetAllCHNGSTK (e_rpc (stake_world vs)) 3 = Some (Inr [])"
  by (simp_all add: stake_world_def GetAllCHNGSTK_def numeral_3_eq_3 toy_rpc_def Let_def)

theorem stake_per_validator_witness:
  "let v = \<lparr>val_Address = ''A'', val_PubKey = [], VotingPower = 10\<rparr> in
   \<exists>app'. set_stake_pass (stake_world [v, v]) 3 ready_app = Some (Inr (app', True)) \<and>
     LnStakePrice (app_state app') = 15 \<and> LnStakePerVal (app_state app') * 2 \<le> 15 \<and>
     15 < (LnStakePerVal (app_state app') + 1) * 2"
proof -
  let ?v = "\<lparr>val_Address = ''A'', val_PubKey = [], VotingPower = 10\<rparr>"
  obtain app' where s: "set_stake_pass (stake_world [?v, ?v]) 3 ready_app = Some (Inr (app', True))"
    and c: "StakePerCore (app_config app') = 5" "length (Validators (app_state app')) = 2"
    by (simp add: set_stake_pass_def stake_world_simps ready_app_def go_div_def i64_def Let_def)
  from stake_per_validator [OF s] c show ?thesis using s by (simp add: stake_world_simps Let_def)
qed

theorem stake_without_validators_panics_witness:
  "set_stake_pass (stake_world []) 3 ready_app = Some (Inl (Panic ''integer divide by zero''))"
  by (rule stake_without_validators_panics) (simp_all add: stake_world_simps ready_app_def)

end
