(* ===== verification/Abci_Transactions.thy ===== *)
theory Abci_Transactions
  imports Staking_Identity
begin

text \<open>
  The transactions of the calendar, \<open>src/abci/transactions.go\<close>: \<open>validateTx\<close> decides whether one
  enters the mempool, \<open>updateStateFromTx\<close> delivers one. Both are the whole switch of the source;
  a panic is \<open>Inl\<close>.
\<close>

subsection \<open>Entering the mempool\<close>

definition refuse :: Response where
  "refuse = respond CodeTypeUnauthorized []"

definition SUCCESSFUL_ANCHOR_CRITERIA :: int where
  "SUCCESSFUL_ANCHOR_CRITERIA = 100"

text \<open>The id that every validator votes for without a proposal.\<close>

definition known_candidate :: string where
  "known_candidate = ''08ABE61DA90ED45BD51C26B903D0908DCC80C2FC''"

text \<open>The VAL case. The records are consulted only when reading one fails, and the failed read
  gives a fresh record.\<close>

definition validate_val :: "'d App \<Rightarrow> Tx \<Rightarrow> err + 'd App \<times> Response" where
  "validate_val app tx =
     (let amVal = le_IsValidator (app_state app) (app_ID app);
          isSubmitterVal = le_IsValidator (app_state app) (CoreID tx)
      in case ValidateValidatorTx (Data tx) of
           Inl (Panic s) \<Rightarrow> Inl (Panic s)
         | Inl (Err s) \<Rightarrow> Inr (app, respond CodeTypeEncodingError s)
         | Inr (i, _, pw, _) \<Rightarrow>
            (let app =
               (if \<not> isSubmitterVal then
                  (case GetValidationRecord (CoreID tx) (app_state app) of
                     (_, r, Some e) \<Rightarrow> app\<lparr>app_state := fst (SetValidationRecord (CoreID tx)
                       (r\<lparr>UnAuthValSubmissions := i64 (UnAuthValSubmissions r + 1)\<rparr>) (app_state app))\<rparr>
                   | (_, _, None) \<Rightarrow> app)
                else app)
             in if amVal then
                  (let goodCandidate =
                     (case GetValidationRecord i (app_state app) of
                        (_, r, Some e) \<Rightarrow> pw \<le> 0 \<or>
                          ConfirmedAnchors r > SUCCESSFUL_ANCHOR_CRITERIA + 10 * int (length (Validators (app_state app))) \<or>
                          BitcoinNetwork (app_config app) = ''testnet''
                      | (_, _, None) \<Rightarrow> False)
                   in if \<not> (goodCandidate \<and> PendingValidator app = Data tx) \<and> i \<noteq> known_candidate
                      then Inr (app, refuse) else Inr (app, respond CodeTypeOK []))
                else Inr (app, respond CodeTypeOK [])))"

definition validateTx :: "'d Env \<Rightarrow> bytes \<Rightarrow> 'd App \<Rightarrow> err + 'd App \<times> Response" where
  "validateTx E rawTx app =
     (let (app, tx, valid, err) =
        (if ChainSynced (app_state app) then
           (case Validate (e_crypto E) rawTx (app_state app) of
              (st, tx, valid, err) \<Rightarrow> (app\<lparr>app_state := st\<rparr>, tx, valid, err \<noteq> None))
         else (case DecodeTx rawTx of (tx, err) \<Rightarrow> (app, tx, True, err)))
      in if err then Inr (app, refuse)
         else if \<not> valid \<and> CoreID tx \<noteq> app_ID app then Inr (app, refuse)
         else if TxType tx = ''BTC-A'' then
           (case unmarshal_ok jd_BtcTxMsg BtcTxMsg_zero (Data tx) of
              None \<Rightarrow> Inr (app, refuse)
            | Some m \<Rightarrow> Inr (app, if CheckAnchor E m \<noteq> None then refuse else respond CodeTypeOK []))
         else if TxType tx = ''VAL'' then validate_val app tx
         else if TxType tx = ''CHNGSTK'' then
           (case parse_int_ok (Data tx) of
              None \<Rightarrow> Inr (app, refuse)
            | Some n \<Rightarrow> Inr (app, if n \<noteq> PendingChangeStake app then refuse else respond CodeTypeOK []))
         else if TxType tx = ''JWK'' then
           Inr (app, if VerifyIdentity E app tx then respond CodeTypeOK [] else refuse)
         else Inr (app, respond CodeTypeOK []))"

subsection \<open>Delivery\<close>

type_synonym tags = "(bytes \<times> bytes) list"

definition incrementTxInt :: "tags \<Rightarrow> 'd App \<Rightarrow> 'd App \<times> tags" where
  "incrementTxInt tags app =
     (let n = i64 (TxInt (app_state app) + 1)
      in (app\<lparr>app_state := (app_state app)\<lparr>TxInt := n\<rparr>\<rparr>, tags @ [(''TxInt'', Int64ToByte n)]))"

definition set_state :: "(AnchorState \<Rightarrow> AnchorState) \<Rightarrow> 'd App \<Rightarrow> 'd App" where
  "set_state f app = app\<lparr>app_state := f (app_state app)\<rparr>"

text \<open>What delivering a transaction results in: the application, the tags, the response and the
  goroutines it starts.\<close>

type_synonym 'd delivered = "'d App \<times> tags \<times> Response \<times> effect list"

definition ignored :: "'d App \<Rightarrow> 'd delivered" where
  "ignored app = (app, [], refuse, [])"

definition deliver_cal :: "TmLib \<Rightarrow> bytes \<Rightarrow> 'd App \<Rightarrow> 'd delivered" where
  "deliver_cal T rawTx app =
     (let (app', tags) = incrementTxInt [] app in
      (set_state (\<lambda>st. st\<lparr>LatestCalTxInt := TxInt st, CurrentCalInts := i64 (CurrentCalInts st + 1)\<rparr>) app',
       tags, respond CodeTypeOK [],
       if ChainSynced (app_state app) then [GoForgetCal (hex_encode (tm_hash T rawTx))] else []))"

definition deliver_btca :: "bytes \<Rightarrow> Tx \<Rightarrow> 'd App \<Rightarrow> 'd delivered" where
  "deliver_btca rawTx tx app =
     (case unmarshal_ok jd_BtcTxMsg BtcTxMsg_zero (Data tx) of
        None \<Rightarrow> ignored app
      | Some btca \<Rightarrow>
          (let synced = ChainSynced (app_state app);
               app = (if synced then app else set_state (\<lambda>st. st\<lparr>BeginCalTxInt := btm_EndCalTxInt btca\<rparr>) app);
               app = set_state (\<lambda>st. st\<lparr>LatestBtcaTx := rawTx, LatestBtcaHeight := i64 (Height st + 1)\<rparr>) app;
               (app, tags) = incrementTxInt [] app;
               app = set_state (\<lambda>st. st\<lparr>LatestBtcaTxInt := TxInt st\<rparr>) app
           in (app, tags @ [(''BTCTX'', btm_BtcTxID btca)], respond CodeTypeOK [],
               if synced then [GoBeginTxMonitor (Data tx)] else [])))"

text \<open>The tags and the new root of a confirmation; \<open>None\<close> leaves the switch.\<close>

definition btcc_seen :: "Tx \<Rightarrow> 'd App \<Rightarrow> ('d App \<times> tags) option" where
  "btcc_seen tx app =
     (if Version tx = 3 then
        (case unmarshal_ok jd_BtcMonMsg BtcMonMsg_zero (Data tx) of
           None \<Rightarrow> None
         | Some btcc \<Rightarrow>
             if bmm_BtcHeadRoot btcc = LatestBtccTx (app_state app) then None
             else Some (set_state (\<lambda>st. st\<lparr>LatestBtccTx := bmm_BtcHeadRoot btcc\<rparr>) app,
               [(''BTCC'', bmm_BtcHeadRoot btcc), (''BTCCTX'', bmm_BtcTxID btcc),
                (''BTCCBH'', Int64ToByte (bmm_BtcHeadHeight btcc))]))
      else if Version tx = 2 then
        (if Data tx = LatestBtccTx (app_state app) then None
         else Some (set_state (\<lambda>st. st\<lparr>LatestBtccTx := Data tx\<rparr>) app, [(''BTCC'', Data tx)]))
      else Some (app, []))"

definition deliver_btcc :: "Tx \<Rightarrow> 'd App \<Rightarrow> 'd delivered" where
  "deliver_btcc tx app =
     (case btcc_seen tx app of
        None \<Rightarrow> ignored app
      | Some (app, tags) \<Rightarrow>
          (let (app, tags) = incrementTxInt tags app;
               core = hd (split_on (CHR ''|'') (Meta tx));
               app = set_state (\<lambda>st. st\<lparr>LatestBtccTxInt := TxInt st, LatestBtccHeight := i64 (Height st + 1),
                 LastAnchorCoreID := core\<rparr>) app;
               effs = (if ChainSynced (app_state app) then [GoAnchorReward core] else []);
               app = set_state (\<lambda>st. fst (IncrementSuccessAnchor core st)) app
           in (app, tags, respond CodeTypeOK [], effs)))"

definition deliver_fee :: "Tx \<Rightarrow> 'd App \<Rightarrow> 'd delivered" where
  "deliver_fee tx app =
     (case parse_int_ok (Data tx) of
        None \<Rightarrow> ignored app
      | Some i \<Rightarrow> (set_state (\<lambda>st. st\<lparr>LatestBtcFee := i, LastBtcFeeHeight := Height st\<rparr>) (app\<lparr>LastFee := i\<rparr>),
          [], respond CodeTypeOK [], []))"

definition deliver_stake :: "Tx \<Rightarrow> 'd App \<Rightarrow> 'd delivered" where
  "deliver_stake tx app =
     (case parse_int_ok (Data tx) of
        None \<Rightarrow> ignored app
      | Some n \<Rightarrow>
          (let (app, tags) = incrementTxInt [] (app\<lparr>app_config := (app_config app)\<lparr>StakePerCore := n\<rparr>\<rparr>)
           in (app, tags @ [(''CHANGE'', ''STAKE'')], respond CodeTypeOK [], [])))"

definition deliver_jwk :: "'d Env \<Rightarrow> Tx \<Rightarrow> 'd App \<Rightarrow> err + 'd delivered" where
  "deliver_jwk E tx app =
     (case SaveIdentity E tx app of
        Inl (Panic s) \<Rightarrow> Inl (Panic s)
      | Inl (Err s) \<Rightarrow> Inr (ignored app)
      | Inr app \<Rightarrow>
          (let (app, tags) = incrementTxInt [] app
           in Inr (app, tags @ [(''CORE'', ''NEW'')], respond CodeTypeOK [], [])))"

definition deliver_val :: "TmLib \<Rightarrow> 'd DB \<Rightarrow> Tx \<Rightarrow> 'd App \<Rightarrow> err + 'd delivered" where
  "deliver_val T D tx app =
     (let (app, tags) = incrementTxInt [] app in
      bind_err (execValidatorTx T D (Data tx) app) (\<lambda>(app, resp). Inr (app, tags, resp, [])))"

definition deliver :: "'d Env \<Rightarrow> TmLib \<Rightarrow> bytes \<Rightarrow> Tx \<Rightarrow> 'd App \<Rightarrow> err + 'd delivered" where
  "deliver E T rawTx tx app =
     (if TxType tx = ''VAL'' then deliver_val T (e_db E) tx app
      else if TxType tx = ''CHNGSTK'' then Inr (deliver_stake tx app)
      else if TxType tx = ''CAL'' then Inr (deliver_cal T rawTx app)
      else if TxType tx = ''BTC-E'' then
        Inr (set_state (\<lambda>st. st\<lparr>LatestErrRoot := Data tx, LastErrorCoreID := CoreID tx\<rparr>) app, [], respond CodeTypeOK [], [])
      else if TxType tx = ''BTC-A'' then Inr (deliver_btca rawTx tx app)
      else if TxType tx = ''BTC-C'' then Inr (deliver_btcc tx app)
      else if TxType tx = ''NIST'' \<or> TxType tx = ''DRAND'' then Inr (app, [], respond CodeTypeOK [], [])
      else if TxType tx = ''FEE'' then Inr (deliver_fee tx app)
      else if TxType tx = ''JWK'' then deliver_jwk E tx app
      else Inr (ignored app))"

text \<open>While the chain is not synced an undecodable transaction is delivered as far as it decodes.\<close>

definition updateStateFromTx :: "'d Env \<Rightarrow> TmLib \<Rightarrow> bytes \<Rightarrow> 'd App \<Rightarrow> err + 'd App \<times> Response \<times> effect list" where
  "updateStateFromTx E T rawTx app =
     (let tx = (if ChainSynced (app_state app) then
            (case DecodeTxAndVerifySig (e_crypto E) (CoreKeys (app_state app)) rawTx of Inl e \<Rightarrow> Tx_zero | Inr tx \<Rightarrow> tx)
          else fst (DecodeTx rawTx))
      in bind_err (deliver E T rawTx tx app) (\<lambda>(app, tags, resp, effs).
           Inr (app, resp\<lparr>Events := [(TxType tx, tags)]\<rparr>, effs)))"

end
