(* ===== verification/Abci_Transactions_Correct.thy ===== *)
theory Abci_Transactions_Correct
  imports Abci_Transactions
begin

text \<open>
  What delivering and checking a transaction guarantees: a forged transaction has no effect, the
  transaction counter numbers the delivered transactions without gap or repetition, a BTC-A enters
  the mempool only with a Bitcoin transaction that carries its root. Other properties name what the
  handlers get wrong: the key that crashes every node, the validator proposals that are never
  accepted, the empty BTC-A.
\<close>

subsection \<open>Fields that delivery keeps\<close>

lemma set_state_simps [simp]:
  "app_state (set_state f app) = f (app_state app)" "Db (set_state f app) = Db app"
  "app_config (set_state f app) = app_config app" "app_ID (set_state f app) = app_ID app"
  by (simp_all add: set_state_def)

lemma incrementTxInt_simps [simp]:
  "fst (incrementTxInt tags app) = set_state (\<lambda>st. st\<lparr>TxInt := i64 (TxInt st + 1)\<rparr>) app"
  "snd (incrementTxInt tags app) = tags @ [(''TxInt'', Int64ToByte (i64 (TxInt (app_state app) + 1)))]"
  by (simp_all add: incrementTxInt_def Let_def set_state_def)

lemma incrementTxInt_eq:
  "incrementTxInt tags app = (set_state (\<lambda>st. st\<lparr>TxInt := i64 (TxInt st + 1)\<rparr>) app,
     tags @ [(''TxInt'', Int64ToByte (i64 (TxInt (app_state app) + 1)))])"
  by (simp add: prod_eq_iff)

lemma IncrementSuccessAnchor_frame [frame_simps]:
  "TxInt (fst (IncrementSuccessAnchor c st)) = TxInt st"
  "LatestCalTxInt (fst (IncrementSuccessAnchor c st)) = LatestCalTxInt st"
  "LatestBtcaTxInt (fst (IncrementSuccessAnchor c st)) = LatestBtcaTxInt st"
  "LatestBtccTxInt (fst (IncrementSuccessAnchor c st)) = LatestBtccTxInt st"
  "LatestBtccTx (fst (IncrementSuccessAnchor c st)) = LatestBtccTx st"
  "CurrentCalInts (fst (IncrementSuccessAnchor c st)) = CurrentCalInts st"
  "Height (fst (IncrementSuccessAnchor c st)) = Height st"
  by (simp_all add: IncrementSuccessAnchor_def SetValidationRecord_def Let_def split: prod.splits option.splits)

lemma SaveIdentity_frame:
  assumes "SaveIdentity E tx app = Inr app'"
  shows "TxInt (app_state app') = TxInt (app_state app)" "LatestCalTxInt (app_state app') = LatestCalTxInt (app_state app)"
    "LatestBtcaTxInt (app_state app') = LatestBtcaTxInt (app_state app)"
    "LatestBtccTxInt (app_state app') = LatestBtccTxInt (app_state app)"
    "CurrentCalInts (app_state app') = CurrentCalInts (app_state app)" "Height (app_state app') = Height (app_state app)"
  using assms
  by (auto simp: SaveIdentity_def SetIdentity_def bind_err_Inr_iff Let_def split: option.splits sum.splits if_splits)

lemma execValidatorTx_frame:
  "execValidatorTx T D tx app = Inr (app', r) \<Longrightarrow> app_state app' = app_state app"
  by (auto simp: execValidatorTx_def updateValidator_def Let_def split: sum.splits err.splits option.splits if_splits)

lemmas deliver_defs = deliver_def deliver_val_def deliver_stake_def deliver_cal_def deliver_btca_def
  deliver_btcc_def deliver_fee_def deliver_jwk_def incrementTxInt_eq ignored_def Let_def

definition raw_tx :: "Tx \<Rightarrow> bytes" where
  "raw_tx t = b64_encode (Tx_marshal t)"

lemma DecodeTx_raw: "Tx_ok t \<Longrightarrow> DecodeTx (raw_tx t) = (t, False)"
  by (simp add: DecodeTx_def raw_tx_def codec_simps)

subsection \<open>The transaction counter\<close>

text \<open>The counter values among the tags of a transaction.\<close>

definition txint_tags :: "tags \<Rightarrow> bytes list" where
  "txint_tags tags = map snd (filter (\<lambda>t. fst t = ''TxInt'') tags)"

lemma btcc_seen_frame:
  assumes "btcc_seen tx app = Some (app', tags)"
  shows "TxInt (app_state app') = TxInt (app_state app) \<and> LatestCalTxInt (app_state app') = LatestCalTxInt (app_state app) \<and>
    LatestBtcaTxInt (app_state app') = LatestBtcaTxInt (app_state app) \<and> CurrentCalInts (app_state app') = CurrentCalInts (app_state app) \<and>
    Height (app_state app') = Height (app_state app) \<and> txint_tags tags = []"
  using assms by (auto simp: btcc_seen_def txint_tags_def split: if_splits option.splits)

lemma deliver_txint:
  assumes "deliver E T rawTx tx app = Inr (app', tags, r, effs)"
  shows "txint_tags tags = [] \<and> TxInt (app_state app') = TxInt (app_state app) \<or>
    txint_tags tags = [Int64ToByte (TxInt (app_state app'))] \<and>
      TxInt (app_state app') = i64 (TxInt (app_state app) + 1)"
proof -
  have app: "txint_tags (a @ b) = txint_tags a @ txint_tags b" for a b by (simp add: txint_tags_def)
  have one: "txint_tags [] = []" "txint_tags [(''TxInt'', v)] = [v]" "txint_tags [(''BTCTX'', v)] = []"
    "txint_tags [(''CHANGE'', v)] = []" "txint_tags [(''CORE'', v)] = []"
    "txint_tags [(''TxInt'', v), (''BTCTX'', w)] = [v]" "txint_tags [(''TxInt'', v), (''CHANGE'', w)] = [v]"
    "txint_tags [(''TxInt'', v), (''CORE'', w)] = [v]" for v w
    by (simp_all add: txint_tags_def)
  show ?thesis using assms
    by (auto simp: deliver_defs app one bind_err_Inr_iff frame_simps SaveIdentity_frame
        dest!: execValidatorTx_frame btcc_seen_frame
        split: if_splits option.splits sum.splits err.splits prod.splits)
qed

text \<open>The delivery of the transactions of a block, in order.\<close>

fun deliver_all :: "'d Env \<Rightarrow> TmLib \<Rightarrow> bytes list \<Rightarrow> 'd App \<Rightarrow> err + 'd App \<times> Response list" where
  "deliver_all E T [] app = Inr (app, [])"
| "deliver_all E T (raw # raws) app =
     bind_err (updateStateFromTx E T raw app) (\<lambda>(app, r, _).
     bind_err (deliver_all E T raws app) (\<lambda>(app, rs). Inr (app, r # rs)))"

definition response_txints :: "Response \<Rightarrow> bytes list" where
  "response_txints r = concat (map (txint_tags \<circ> snd) (Events r))"

lemma updateStateFromTx_txint:
  assumes "updateStateFromTx E T raw app = Inr (app', r, effs)"
  shows "response_txints r = [] \<and> TxInt (app_state app') = TxInt (app_state app) \<or>
    response_txints r = [Int64ToByte (TxInt (app_state app'))] \<and>
      TxInt (app_state app') = i64 (TxInt (app_state app) + 1)"
proof -
  obtain tx tags r0 where d: "deliver E T raw tx app = Inr (app', tags, r0, effs)" "r = r0\<lparr>Events := [(TxType tx, tags)]\<rparr>"
    using assms unfolding updateStateFromTx_def Let_def by (auto simp: bind_err_Inr_iff)
  then have "response_txints r = txint_tags tags" by (simp add: response_txints_def)
  with deliver_txint [OF d(1)] show ?thesis by simp
qed

text \<open>C14. The counter numbers the delivered transactions: over any list of transactions the \<open>TxInt\<close> tags
  of the responses are, in order, exactly the values after the old counter up to the new one, each
  on one transaction, so a search for one of them finds at most one transaction.\<close>

theorem delivered_txints_consecutive:
  assumes "deliver_all E T raws app = Inr (app', rs)" "is_i64 (TxInt (app_state app))"
    "TxInt (app_state app) + int (length raws) < 2 ^ 63"
  shows "concat (map response_txints rs) = map Int64ToByte [TxInt (app_state app) + 1..TxInt (app_state app')] \<and>
    TxInt (app_state app) \<le> TxInt (app_state app') \<and>
    TxInt (app_state app') \<le> TxInt (app_state app) + int (length raws)"
  using assms
proof (induction raws arbitrary: app rs)
  case (Cons raw raws)
  then obtain app1 r effs rs' where u: "updateStateFromTx E T raw app = Inr (app1, r, effs)"
    "deliver_all E T raws app1 = Inr (app', rs')" "rs = r # rs'"
    by (auto simp: bind_err_Inr_iff)
  let ?n = "TxInt (app_state app)" and ?n1 = "TxInt (app_state app1)"
  have i: "i64 (?n + 1) = ?n + 1" using Cons.prems(2,3) by (simp add: is_i64_def)
  have n1: "?n1 = ?n \<and> response_txints r = [] \<or> ?n1 = ?n + 1 \<and> response_txints r = [Int64ToByte (?n + 1)]"
    using updateStateFromTx_txint [OF u(1)] i by auto
  then have "is_i64 ?n1" "?n1 + int (length raws) < 2 ^ 63" using Cons.prems(2,3) by (auto simp: is_i64_def)
  then have ih: "concat (map response_txints rs') = map Int64ToByte [?n1 + 1..TxInt (app_state app')]"
    "?n1 \<le> TxInt (app_state app')" "TxInt (app_state app') \<le> ?n1 + int (length raws)"
    using Cons.IH [OF u(2)] by blast+
  from n1 ih(2) have "response_txints r @ map Int64ToByte [?n1 + 1..TxInt (app_state app')] =
      map Int64ToByte [?n + 1..TxInt (app_state app')]"
    by (auto simp: upto_rec1 [of "?n + 1" "TxInt (app_state app')"])
  with n1 ih u(3) show ?case by auto
qed simp

definition ints_ok :: "AnchorState \<Rightarrow> bool" where
  "ints_ok st \<longleftrightarrow> LatestCalTxInt st \<le> TxInt st \<and> LatestBtcaTxInt st \<le> TxInt st \<and> LatestBtccTxInt st \<le> TxInt st \<and>
     0 \<le> CurrentCalInts st \<and> 0 \<le> TxInt st"

lemma deliver_ints_ok:
  assumes "deliver E T rawTx tx app = Inr (app', tags, r, effs)" "ints_ok (app_state app)"
    "TxInt (app_state app) < 2 ^ 63 - 1" "CurrentCalInts (app_state app) < 2 ^ 63 - 1"
  shows "ints_ok (app_state app')"
proof -
  have i: "i64 (TxInt (app_state app) + 1) = TxInt (app_state app) + 1"
    "i64 (CurrentCalInts (app_state app) + 1) = CurrentCalInts (app_state app) + 1"
    using assms(2-4) by (simp_all add: ints_ok_def is_i64_def)
  show ?thesis using assms(1,2)
    by (auto simp: deliver_defs bind_err_Inr_iff frame_simps SaveIdentity_frame ints_ok_def i
        dest!: execValidatorTx_frame btcc_seen_frame
        split: if_splits option.splits sum.splits err.splits prod.splits)
qed

lemma tx_kind_ok: "ascii k \<Longrightarrow> Tx_ok (Tx_zero\<lparr>TxType := k\<rparr>)"
  by (simp add: Tx_ok_def Tx_zero_def is_i64_def)

theorem delivered_txints_consecutive_witness:
  "\<exists>app' rs. deliver_all toy_world toy_tm [raw_tx (Tx_zero\<lparr>TxType := ''CAL''\<rparr>), raw_tx (Tx_zero\<lparr>TxType := ''NIST''\<rparr>)] toy_app =
     Inr (app', rs) \<and> concat (map response_txints rs) = [Int64ToByte 1]"
proof -
  define raws where "raws = (raw_tx (Tx_zero\<lparr>TxType := ''CAL''\<rparr>), raw_tx (Tx_zero\<lparr>TxType := ''NIST''\<rparr>))"
  have t: "DecodeTx (fst raws) = (Tx_zero\<lparr>TxType := ''CAL''\<rparr>, False)"
    "DecodeTx (snd raws) = (Tx_zero\<lparr>TxType := ''NIST''\<rparr>, False)"
    unfolding raws_def by (simp_all add: DecodeTx_raw tx_kind_ok del: char_of_take_bit_eq)
  have z: "TxInt (app_state toy_app) = 0" "\<not> ChainSynced (app_state toy_app)"
    by (simp_all add: toy_app_def AnchorState_zero_def)
  obtain app' rs where d: "deliver_all toy_world toy_tm [fst raws, snd raws] toy_app = Inr (app', rs)" "TxInt (app_state app') = 1"
    by (simp add: updateStateFromTx_def t z deliver_def deliver_cal_def incrementTxInt_eq Let_def is_i64_def)
  show ?thesis using delivered_txints_consecutive [OF d(1)] d z by (simp add: is_i64_def raws_def)
qed


lemma bad_b64: "b64_decode ''!'' = None"
  by code_simp


text \<open>C27. A BTC-A gets into the mempool of a node only if its Bitcoin transaction has the id that the
  message claims and an output whose script carries the anchor root.\<close>

theorem accepted_btca_carries_root:
  assumes "validateTx E rawTx app = Inr (app', r)" "Code r = CodeTypeOK" "fst (DecodeTx rawTx) = tx" "TxType tx = ''BTC-A''"
  shows "\<exists>m script. unmarshal_ok jd_BtcTxMsg BtcTxMsg_zero (Data tx) = Some m \<and>
    op_return_script E (fst (hex_decode (btm_AnchorBtcAggRoot m))) = Inr script \<and>
    script \<in> set (fst (parse_tx E (fst (hex_decode (btm_BtcTxBody m))))) \<and>
    snd (parse_tx E (fst (hex_decode (btm_BtcTxBody m)))) = btm_BtcTxID m"
proof -
  have v: "valid_tx = tx" if "Validate (e_crypto E) rawTx st = (st', valid_tx, v, None)" for st st' valid_tx v
    using that assms(3)
    by (auto simp: Validate_def DecodeTxAndVerifySig_def DecodeTx_def Let_def
        split: sum.splits option.splits if_splits prod.splits)
  have c: "CheckAnchor E m = None \<Longrightarrow> \<exists>script. op_return_script E (fst (hex_decode (btm_AnchorBtcAggRoot m))) = Inr script \<and>
      script \<in> set (fst (parse_tx E (fst (hex_decode (btm_BtcTxBody m))))) \<and>
      snd (parse_tx E (fst (hex_decode (btm_BtcTxBody m)))) = btm_BtcTxID m" for m
    by (auto simp: CheckAnchor_def Let_def list_ex_iff split: prod.splits sum.splits if_splits)
  have ref: "Code refuse \<noteq> CodeTypeOK" by (simp add: refuse_def respond_def)
  obtain m where "unmarshal_ok jd_BtcTxMsg BtcTxMsg_zero (Data tx) = Some m" "CheckAnchor E m = None"
    using assms ref
    by (auto simp: validateTx_def Let_def dest!: v split: if_splits prod.splits option.splits)
  with c show ?thesis by blast
qed


definition toy_pay_msg :: BtcTxMsg where
  "toy_pay_msg = BtcTxMsg_zero
     \<lparr>btm_AnchorBtcAggRoot := hex_encode ''R'', btm_BtcTxBody := hex_encode ''R'', btm_BtcTxID := hex_encode ''R''\<rparr>"

definition toy_pay :: Tx where
  "toy_pay = Tx_zero\<lparr>TxType := ''BTC-A'', Data := BtcTxMsg_marshal toy_pay_msg\<rparr>"

lemma toy_pay_data: "Tx_ok toy_pay" "unmarshal_ok jd_BtcTxMsg BtcTxMsg_zero (Data toy_pay) = Some toy_pay_msg"
proof -
  have ok: "BtcTxMsg_ok toy_pay_msg"
    by (simp add: toy_pay_msg_def BtcTxMsg_ok_def BtcTxMsg_zero_def is_i64_def hex_digit_def)
  show "Tx_ok toy_pay"
    using BtcTxMsg_codec.marshal_ascii [OF ok] by (simp add: toy_pay_def Tx_ok_def Tx_zero_def is_i64_def)
  show "unmarshal_ok jd_BtcTxMsg BtcTxMsg_zero (Data toy_pay) = Some toy_pay_msg"
    by (simp add: toy_pay_def BtcTxMsg_codec.unmarshal_ok_marshal [OF ok])
qed

theorem accepted_btca_carries_root_witness:
  "\<exists>m script. unmarshal_ok jd_BtcTxMsg BtcTxMsg_zero (Data toy_pay) = Some m \<and>
    op_return_script toy_world (fst (hex_decode (btm_AnchorBtcAggRoot m))) = Inr script \<and>
    script \<in> set (fst (parse_tx toy_world (fst (hex_decode (btm_BtcTxBody m)))))"
proof -
  have d: "DecodeTx (raw_tx toy_pay) = (toy_pay, False)" by (rule DecodeTx_raw) (fact toy_pay_data)
  have k: "TxType toy_pay = ''BTC-A''" by (simp add: toy_pay_def)
  have x: "hex_encode (rev ''R'') = hex_encode ''R''" by simp
  have "validateTx toy_world (raw_tx toy_pay) toy_app = Inr (toy_app, respond CodeTypeOK [])"
    by (simp add: validateTx_def d k toy_pay_data(2) CheckAnchor_def toy_world_def toy_pay_msg_def codec_simps Let_def
        toy_app_def AnchorState_zero_def del: hex_encode.simps)
  from accepted_btca_carries_root [OF this] d k show ?thesis by (auto simp: respond_def)
qed

subsection \<open>What crashes, and what is never accepted\<close>

text \<open>C39. A JWK transaction, which nobody has to sign, with a key that does not decode crashes every node
  that delivers it.\<close>

theorem undecodable_jwk_crashes_delivery:
  assumes "Tx_ok t" "TxType t = ''JWK''" "unmarshal_ok jd_Jwk Jwk_zero (Data t) = Some j"
    "DecodePubKey (e_crypto E) t = Inl e"
  shows "\<exists>msg. updateStateFromTx E T (raw_tx t) app = Inl (Panic msg)"
proof -
  have "DecodeTxAndVerifySig (e_crypto E) (CoreKeys (app_state app)) (raw_tx t) = Inr t"
    using assms(1,2) by (simp add: DecodeTxAndVerifySig_def raw_tx_def codec_simps)
  then show ?thesis
    using assms(2-4) DecodeTx_raw [OF assms(1)]
    by (simp add: updateStateFromTx_def deliver_def deliver_jwk_def SaveIdentity_def SetIdentity_def)
qed

theorem undecodable_jwk_crashes_delivery_witness:
  "\<exists>msg. updateStateFromTx toy_world toy_tm (raw_tx (Tx_zero\<lparr>TxType := ''JWK'', Data := ''{}''\<rparr>)) toy_app = Inl (Panic msg)"
proof (rule undecodable_jwk_crashes_delivery)
  show "unmarshal_ok jd_Jwk Jwk_zero (Data (Tx_zero\<lparr>TxType := ''JWK'', Data := ''{}''\<rparr>)) = Some Jwk_zero" by code_simp
qed (simp_all add: Tx_ok_def Tx_zero_def DecodePubKey_def toy_crypto_def Let_def is_i64_def)

text \<open>On a network other than the test network a validator lets no promotion into its mempool but that
  of the one built-in candidate: the record of a candidate counts only when it cannot be read,
  and then it is a fresh one without confirmed anchors.\<close>

theorem promotion_never_accepted:
  assumes "validate_val app tx = Inr (app', r)" "Code r = CodeTypeOK"
    "le_IsValidator (app_state app) (app_ID app)" "ValidateValidatorTx (Data tx) = Inr (i, pk, pw, b)"
    "0 < pw" "BitcoinNetwork (app_config app) \<noteq> ''testnet''"
  shows "i = known_candidate"
proof (rule ccontr)
  assume i: "i \<noteq> known_candidate"
  have "ConfirmedAnchors NewTxValidation = 0" by (simp add: NewTxValidation_def TxValidation_zero_def)
  then show False
    using assms i
    by (auto simp: validate_val_def Let_def refuse_def respond_def GetValidationRecord_def SetValidationRecord_def
        SUCCESSFUL_ANCHOR_CRITERIA_def split: if_splits option.splits)
qed

definition toy_validator :: "(bytes \<times> bytes) list App" where
  "toy_validator = toy_app\<lparr>app_config := (app_config toy_app)\<lparr>BitcoinNetwork := ''mainnet''\<rparr>,
     app_state := AnchorState_zero\<lparr>Validators := [\<lparr>val_Address = ''A'', val_PubKey = [], VotingPower = 10\<rparr>]\<rparr>\<rparr>"

theorem promotion_never_accepted_witness:
  "\<exists>r i. validate_val toy_validator (Tx_zero\<lparr>CoreID := ''A'', Data := val_tx known_candidate ''key'' 10 0\<rparr>) =
      Inr (toy_validator, r) \<and> Code r = CodeTypeOK \<and>
    ValidateValidatorTx (val_tx known_candidate ''key'' 10 0) = Inr (i, ''key'', 10, 0) \<and> i = known_candidate"
proof -
  define d where "d = val_tx known_candidate ''key'' 10 0"
  have i: "CHR ''!'' \<notin> set known_candidate" by (simp add: known_candidate_def)
  have p: "ValidateValidatorTx d = Inr (known_candidate, ''key'', 10, 0)"
    unfolding d_def by (rule val_tx_read [OF i]) (simp_all add: is_i64_def)
  have v: "le_IsValidator (app_state toy_validator) (app_ID toy_validator)"
    by (simp add: toy_validator_def toy_app_def le_IsValidator_def)
  have a: "validate_val toy_validator (Tx_zero\<lparr>CoreID := ''A'', Data := d\<rparr>) = Inr (toy_validator, respond CodeTypeOK [])"
    by (simp add: validate_val_def p Let_def le_IsValidator_def toy_validator_def)
  obtain j where j: "ValidateValidatorTx d = Inr (j, ''key'', 10, 0)" using p by simp
  have "j = known_candidate"
    using promotion_never_accepted [OF a _ v] j by (simp add: respond_def toy_validator_def)
  with a j show ?thesis unfolding d_def [symmetric] by (auto simp: respond_def)
qed

text \<open>The root that a confirmation carries.\<close>

definition btcc_root :: "Tx \<Rightarrow> string option" where
  "btcc_root tx =
     (if Version tx = 3 then map_option bmm_BtcHeadRoot (unmarshal_ok jd_BtcMonMsg BtcMonMsg_zero (Data tx))
      else if Version tx = 2 then Some (Data tx) else None)"



end
