(* ===== verification/Proof_Tables.thy ===== *)
theory Proof_Tables
  imports Level_DB
begin

text \<open>
  The proof database as tables. \<open>holds m T\<close> says that the store \<open>m\<close> holds the segments of the tables
  \<open>T\<close> under both keys of their stage (\<open>src/database/level/chainpointdb.go\<close>); each bulk insertion
  appends to one table, what writes other keys leaves the tables alone, and the queries are
  selections of the tables.
\<close>

subsection \<open>What the insertions leave alone\<close>

definition keeps :: "('d \<Rightarrow> view) \<Rightarrow> string \<Rightarrow> ('d \<Rightarrow> 'd) \<Rightarrow> bool" where
  "keeps view p f \<longleftrightarrow> (\<forall>d k. has_prefix k p \<longrightarrow> view (f d) k = view d k)"

lemma keeps_Append: "db_laws D view \<Longrightarrow> \<not> has_prefix key p \<Longrightarrow> keeps view p (\<lambda>d. fst (kv_Append D d key v))"
  unfolding keeps_def by (metis kv_Append_other prod.collapse)

lemma kv_Set_other: "db_laws D view \<Longrightarrow> k \<noteq> key \<Longrightarrow> view (fst (kv_Set D d key v)) k = view d k"
  using db_set_view [of D view d key v "fst (db_set D d key v)" "snd (db_set D d key v)"]
  by (simp add: kv_Set_def split: option.splits)

lemma keeps_Set: "db_laws D view \<Longrightarrow> \<not> has_prefix key p \<Longrightarrow> keeps view p (\<lambda>d. fst (kv_Set D d key v))"
  by (auto simp: keeps_def intro!: kv_Set_other)

lemma keeps_insert_pair:
  "keeps view p (\<lambda>d. fst (f d)) \<Longrightarrow> keeps view p (\<lambda>d. fst (g d)) \<Longrightarrow> keeps view p (\<lambda>d. fst (h d)) \<Longrightarrow>
    keeps view p (\<lambda>d. fst (insert_pair f g h d))"
  by (simp add: keeps_def insert_pair_def Let_def case_prod_beta)

lemma keeps_bulk: "(\<And>x. keeps view p (\<lambda>d. fst (f x d))) \<Longrightarrow> keeps view p (\<lambda>d. fst (bulk f xs d))"
proof (induction xs)
  case (Cons x xs)
  then have ih: "keeps view p (\<lambda>d. fst (bulk f xs d))" and x: "keeps view p (\<lambda>d. fst (f x d))" by blast+
  show ?case unfolding keeps_def
  proof (intro allI impI)
    fix d k assume k: "has_prefix k p"
    have "view (fst (f x d)) k = view d k" using x k by (auto simp: keeps_def)
    with ih k show "view (fst (bulk f (x # xs) d)) k = view d k"
      by (cases "f x d") (auto simp: keeps_def split: option.splits)
  qed
qed (simp add: keeps_def)

lemma keeps_foldl: "(\<And>x. keeps view p (\<lambda>d. f d x)) \<Longrightarrow> keeps view p (\<lambda>d. foldl f d xs)"
  by (induction xs) (simp_all add: keeps_def)

lemma state_inserts_keep_proofs:
  assumes "db_laws D view"
  shows "keeps view ''proof:'' (\<lambda>d. fst (BulkInsertAggState D now as d))"
    and "keeps view ''proof:'' (\<lambda>d. fst (BulkInsertCalState D now cs d))"
    and "keeps view ''proof:'' (\<lambda>d. fst (BulkInsertBtcAggState D now bs d))"
    and "keeps view ''proof:'' (\<lambda>d. fst (BulkInsertBtcTxState D now ts d))"
  unfolding BulkInsertAggState_def BulkInsertCalState_def BulkInsertBtcAggState_def BulkInsertBtcTxState_def
  by (intro keeps_bulk keeps_insert_pair keeps_Append keeps_Set assms; simp add: has_prefix_def)+

text \<open>A proof among those inserted is stored, unless a finished one is there already; an id may occur
  again, with the same proof.\<close>

lemma BulkInsertProofs_stores:
  assumes "db_laws D view" "db_reliable D" "\<forall>q \<in> set ps. ps_ProofID q = ps_ProofID p \<longrightarrow> q = p"
    "\<forall>b. view s (''proof:'' @ ps_ProofID p) = Some b \<longrightarrow> \<not> contains b ''btc_anchor_branch'' \<or> b = ProofState_marshal p"
  shows "view (fst (BulkInsertProofs D now ps s)) (''proof:'' @ ps_ProofID p) =
    (if p \<in> set ps then Some (ProofState_marshal p) else view s (''proof:'' @ ps_ProofID p))"
  using assms(3,4)
proof (induction ps arbitrary: s)
  case (Cons q ps)
  let ?k = "''proof:'' @ ps_ProofID q"
  show ?case
  proof (cases "contains (case view s ?k of None \<Rightarrow> [] | Some b \<Rightarrow> b) ''btc_anchor_branch''")
    case True
    then have "BulkInsertProofs D now (q # ps) s = BulkInsertProofs D now ps s"
      by (simp add: kv_Get_reliable [OF assms(1,2)] del: append_Cons)
    moreover have "view s ?k = Some (ProofState_marshal p)" if "q = p"
      using True Cons.prems(2) that by (cases "view s ?k") (auto simp: contains_def [of "[]"])
    ultimately show ?thesis using Cons.IH [of s] Cons.prems by auto
  next
    case False
    obtain s1 where s1: "kv_Set D s ?k (ProofState_marshal q) = (s1, None)" "view s1 = (view s)(?k \<mapsto> ProofState_marshal q)"
      using kv_Set_step [OF assms(1,2)] by blast
    define s2 where "s2 = fst (kv_Set D s1 (''proofCreated:'' @ ps_ProofID q) (unix_time now))"
    have s2: "view s2 (''proof:'' @ i) = view s1 (''proof:'' @ i)" for i
      unfolding s2_def by (rule kv_Set_other [OF assms(1)]) simp
    have "BulkInsertProofs D now (q # ps) s = BulkInsertProofs D now ps s2"
      using False by (simp add: kv_Get_reliable [OF assms(1,2)] s1(1) s2_def del: append_Cons)
    then show ?thesis using Cons.IH [of s2] Cons.prems s2 s1(2) by auto
  qed
qed simp

subsection \<open>An index\<close>

text \<open>The arrays under a prefix list the encoded elements by key.\<close>

definition holds_index :: "view \<Rightarrow> string \<Rightarrow> ('a \<Rightarrow> string) \<Rightarrow> ('a \<Rightarrow> bytes) \<Rightarrow> 'a list \<Rightarrow> bool" where
  "holds_index m p key enc xs \<longleftrightarrow> (\<forall>i. arr_of m (p @ i) = Some (map enc (filter (\<lambda>x. key x = i) xs)))"

lemma holds_index_frame: "\<forall>i. m' (p @ i) = m (p @ i) \<Longrightarrow> holds_index m' p key enc xs = holds_index m p key enc xs"
  by (simp add: holds_index_def arr_of_def)

definition apart :: "string \<Rightarrow> string \<Rightarrow> bool" where
  "apart p q \<longleftrightarrow> (\<forall>a b. p @ a \<noteq> q @ b)"

lemma apart_prefix: "apart p q \<Longrightarrow> \<not> has_prefix (p @ a) q"
  by (auto simp: apart_def has_prefix_iff)

lemma apart_sym: "apart p q \<longleftrightarrow> apart q p"
  by (auto simp: apart_def dest: sym)

lemma kv_Append_step:
  assumes db: "db_laws D view" "db_reliable D" and h: "holds_index (view s) p key enc xs" "\<forall>y \<in> set (xs @ [x]). ascii (enc y)"
  shows "\<exists>s'. kv_Append D s (p @ key x) (enc x) = (s', None) \<and> holds_index (view s') p key enc (xs @ [x]) \<and>
    (\<forall>k. \<not> has_prefix k p \<longrightarrow> view s' k = view s k)"
proof -
  have old: "arr_of (view s) (p @ key x) = Some (map enc (filter (\<lambda>y. key y = key x) xs))"
    "list_all ascii (map enc (filter (\<lambda>y. key y = key x) xs))" "ascii (enc x)"
    using h by (simp_all add: holds_index_def list_all_iff)
  obtain s' where s': "kv_Append D s (p @ key x) (enc x) = (s', None)"
    using kv_Append_reliable [OF db old(1), of "enc x"] by (metis prod.collapse)
  have other: "view s' k = view s k" if "k \<noteq> p @ key x" for k
    using kv_Append_other [OF db(1) s' that] .
  have "arr_of (view s') (p @ i) = Some (map enc (filter (\<lambda>y. key y = i) (xs @ [x])))" for i
    using kv_Append_ok [OF db(1) s' old] other [of "p @ i"] h(1)
    by (cases "key x = i") (auto simp: holds_index_def arr_of_def)
  with s' other show ?thesis unfolding holds_index_def by (metis has_prefix_append)
qed

lemma insert_pair_step:
  assumes db: "db_laws D view" "db_reliable D"
    and ap: "apart p1 p2" "apart p1 p3" "apart p2 p3"
    and h: "holds_index (view s) p1 k1 enc xs" "holds_index (view s) p2 k2 enc xs" "\<forall>y \<in> set (xs @ [x]). ascii (enc y)"
  shows "\<exists>s'. insert_pair (\<lambda>s. kv_Append D s (p1 @ k1 x) (enc x)) (\<lambda>s. kv_Append D s (p2 @ k2 x) (enc x))
      (\<lambda>s. kv_Set D s (p3 @ k2 x) t) s = (s', None) \<and>
    holds_index (view s') p1 k1 enc (xs @ [x]) \<and> holds_index (view s') p2 k2 enc (xs @ [x]) \<and>
    (\<forall>k. \<not> has_prefix k p1 \<and> \<not> has_prefix k p2 \<and> \<not> has_prefix k p3 \<longrightarrow> view s' k = view s k)"
proof -
  have np: "\<not> has_prefix (p2 @ i) p1" "\<not> has_prefix (p1 @ i) p2" "\<not> has_prefix (p1 @ i) p3" "\<not> has_prefix (p2 @ i) p3" for i
    using ap apart_sym apart_prefix by blast+
  obtain s1 where s1: "kv_Append D s (p1 @ k1 x) (enc x) = (s1, None)" "holds_index (view s1) p1 k1 enc (xs @ [x])"
    "\<forall>k. \<not> has_prefix k p1 \<longrightarrow> view s1 k = view s k"
    using kv_Append_step [OF db h(1,3)] by blast
  have "holds_index (view s1) p2 k2 enc xs" using h(2) s1(3) np holds_index_frame by blast
  then obtain s2 where s2: "kv_Append D s1 (p2 @ k2 x) (enc x) = (s2, None)" "holds_index (view s2) p2 k2 enc (xs @ [x])"
    "\<forall>k. \<not> has_prefix k p2 \<longrightarrow> view s2 k = view s1 k"
    using kv_Append_step [OF db _ h(3)] by blast
  obtain s3 where s3: "kv_Set D s2 (p3 @ k2 x) t = (s3, None)" "view s3 = (view s2)(p3 @ k2 x \<mapsto> t)"
    using kv_Set_step [OF db] by blast
  then have f3: "\<forall>k. \<not> has_prefix k p3 \<longrightarrow> view s3 k = view s2 k" by auto
  have "holds_index (view s3) p1 k1 enc (xs @ [x])" "holds_index (view s3) p2 k2 enc (xs @ [x])"
    using s1(2) s2(2,3) f3 np holds_index_frame by metis+
  with s1(1,3) s2(1,3) s3(1) f3 show ?thesis by (simp add: insert_pair_def)
qed

lemma bulk_index:
  assumes db: "db_laws D view" "db_reliable D"
    and ap: "apart p1 p2" "apart p1 p3" "apart p2 p3"
    and h: "holds_index (view s) p1 k1 enc old" "holds_index (view s) p2 k2 enc old" "\<forall>y \<in> set (old @ xs). ascii (enc y)"
  shows "\<exists>s'. bulk (\<lambda>x. insert_pair (\<lambda>s. kv_Append D s (p1 @ k1 x) (enc x))
      (\<lambda>s. kv_Append D s (p2 @ k2 x) (enc x)) (\<lambda>s. kv_Set D s (p3 @ k2 x) t)) xs s = (s', None) \<and>
    holds_index (view s') p1 k1 enc (old @ xs) \<and> holds_index (view s') p2 k2 enc (old @ xs) \<and>
    (\<forall>k. \<not> has_prefix k p1 \<and> \<not> has_prefix k p2 \<and> \<not> has_prefix k p3 \<longrightarrow> view s' k = view s k)"
  using h
proof (induction xs arbitrary: s old)
  case (Cons x xs)
  obtain s1 where s1: "insert_pair (\<lambda>s. kv_Append D s (p1 @ k1 x) (enc x)) (\<lambda>s. kv_Append D s (p2 @ k2 x) (enc x))
      (\<lambda>s. kv_Set D s (p3 @ k2 x) t) s = (s1, None)"
    "holds_index (view s1) p1 k1 enc (old @ [x])" "holds_index (view s1) p2 k2 enc (old @ [x])"
    "\<forall>k. \<not> has_prefix k p1 \<and> \<not> has_prefix k p2 \<and> \<not> has_prefix k p3 \<longrightarrow> view s1 k = view s k"
    using insert_pair_step [OF db ap Cons.prems(1,2), of x t] Cons.prems(3) by auto
  then show ?case using Cons.IH [OF s1(2,3)] Cons.prems(3) by fastforce
qed simp

lemmas segment_ascii [simp] = AggState_codec.marshal_ascii CalStateObject_codec.marshal_ascii AnchorBtcAggState_codec.marshal_ascii

lemma decoded_map:
  "(\<And>x. x \<in> set xs \<Longrightarrow> unmarshal d zero (enc x) = (x, False)) \<Longrightarrow> decoded d zero (map enc xs) = xs"
  by (induction xs) (auto simp: decoded_def unmarshal_ok_def)

subsection \<open>The tables\<close>

text \<open>The rows of the aggregations, the calendar entries, the anchors and the Bitcoin transactions.\<close>

record tables =
  t_rows :: "AggState list"
  t_cals :: "CalStateObject list"
  t_anchors :: "AnchorBtcAggState list"
  t_txs :: "string \<rightharpoonup> AnchorBtcTxState"

definition no_tables :: tables where
  "no_tables = \<lparr>t_rows = [], t_cals = [], t_anchors = [], t_txs = Map.empty\<rparr>"

definition holds :: "view \<Rightarrow> tables \<Rightarrow> bool" where
  "holds m T \<longleftrightarrow>
     holds_index m ''aggstate:'' as_AggID AggState_marshal (t_rows T) \<and>
     holds_index m ''aggstate_by_proof:'' as_ProofID AggState_marshal (t_rows T) \<and>
     holds_index m ''calstate:'' cso_CalId CalStateObject_marshal (t_cals T) \<and>
     holds_index m ''calstate_by_agg:'' cso_AggID CalStateObject_marshal (t_cals T) \<and>
     holds_index m ''anchorbtcaggstate:'' aba_AnchorBtcAggId AnchorBtcAggState_marshal (t_anchors T) \<and>
     holds_index m ''anchorbtcaggstate_by_cal:'' aba_CalId AnchorBtcAggState_marshal (t_anchors T) \<and>
     (\<forall>i. m (''btctxstate:'' @ i) = map_option AnchorBtcTxState_marshal (t_txs T i))"

text \<open>What the segments may contain: ASCII text.\<close>

definition tables_ok :: "tables \<Rightarrow> bool" where
  "tables_ok T \<longleftrightarrow> list_all AggState_ok (t_rows T) \<and> list_all CalStateObject_ok (t_cals T) \<and>
     list_all AnchorBtcAggState_ok (t_anchors T) \<and> (\<forall>t \<in> ran (t_txs T). AnchorBtcTxState_ok t)"

definition table_prefixes :: "string list" where
  "table_prefixes = [''aggstate:'', ''aggstate_by_proof:'', ''calstate:'', ''calstate_by_agg:'',
     ''anchorbtcaggstate:'', ''anchorbtcaggstate_by_cal:'', ''btctxstate:'']"

lemma holds_no_tables: "holds Map.empty no_tables" "tables_ok no_tables"
  by (simp_all add: holds_def holds_index_def no_tables_def tables_ok_def arr_of_def)

lemma holds_frame:
  assumes "\<forall>p \<in> set table_prefixes. \<forall>i. m' (p @ i) = m (p @ i)"
  shows "holds m' T = holds m T"
proof -
  have "m' (''aggstate:'' @ i) = m (''aggstate:'' @ i)" "m' (''aggstate_by_proof:'' @ i) = m (''aggstate_by_proof:'' @ i)"
    "m' (''calstate:'' @ i) = m (''calstate:'' @ i)" "m' (''calstate_by_agg:'' @ i) = m (''calstate_by_agg:'' @ i)"
    "m' (''anchorbtcaggstate:'' @ i) = m (''anchorbtcaggstate:'' @ i)"
    "m' (''anchorbtcaggstate_by_cal:'' @ i) = m (''anchorbtcaggstate_by_cal:'' @ i)"
    "m' (''btctxstate:'' @ i) = m (''btctxstate:'' @ i)" for i
    using assms unfolding table_prefixes_def by (simp_all only: list.set ball_simps insert_iff empty_iff)
  then show ?thesis by (simp only: holds_def holds_index_def arr_of_def)
qed

lemma stages_apart:
  "apart ''aggstate:'' ''aggstate_by_proof:''" "apart ''aggstate:'' ''aggstateCreated:''"
  "apart ''aggstate_by_proof:'' ''aggstateCreated:''"
  "apart ''calstate:'' ''calstate_by_agg:''" "apart ''calstate:'' ''calstateCreated:''"
  "apart ''calstate_by_agg:'' ''calstateCreated:''"
  "apart ''anchorbtcaggstate:'' ''anchorbtcaggstate_by_cal:''"
  "apart ''anchorbtcaggstate:'' ''anchorbtcaggstateCreated:''"
  "apart ''anchorbtcaggstate_by_cal:'' ''anchorbtcaggstateCreated:''"
  by (simp_all add: apart_def)

subsection \<open>Every insertion appends to one table\<close>

lemma insert_rows:
  assumes db: "db_laws D view" "db_reliable D" and T: "holds (view s) T" "tables_ok T" and ok: "list_all AggState_ok xs"
  shows "\<exists>s'. BulkInsertAggState D now xs s = (s', None) \<and> holds (view s') (T\<lparr>t_rows := t_rows T @ xs\<rparr>)"
proof -
  have h: "holds_index (view s) ''aggstate:'' as_AggID AggState_marshal (t_rows T)"
    "holds_index (view s) ''aggstate_by_proof:'' as_ProofID AggState_marshal (t_rows T)"
    "\<forall>y \<in> set (t_rows T @ xs). ascii (AggState_marshal y)"
    using T ok by (auto simp: holds_def tables_ok_def list_all_iff)
  obtain s' where s': "BulkInsertAggState D now xs s = (s', None)"
    "holds_index (view s') ''aggstate:'' as_AggID AggState_marshal (t_rows T @ xs)"
    "holds_index (view s') ''aggstate_by_proof:'' as_ProofID AggState_marshal (t_rows T @ xs)"
    "\<And>k. \<not> has_prefix k ''aggstate:'' \<and> \<not> has_prefix k ''aggstate_by_proof:'' \<and> \<not> has_prefix k ''aggstateCreated:'' \<Longrightarrow> view s' k = view s k"
    using bulk_index [OF db stages_apart(1-3) h, of "unix_time now"] unfolding BulkInsertAggState_def by blast
  with T(1) have "holds (view s') (T\<lparr>t_rows := t_rows T @ xs\<rparr>)"
    by (simp add: holds_def holds_index_def arr_of_def)
  with s'(1) show ?thesis by blast
qed

lemma insert_cals:
  assumes db: "db_laws D view" "db_reliable D" and T: "holds (view s) T" "tables_ok T" and ok: "list_all CalStateObject_ok xs"
  shows "\<exists>s'. BulkInsertCalState D now xs s = (s', None) \<and> holds (view s') (T\<lparr>t_cals := t_cals T @ xs\<rparr>)"
proof -
  have h: "holds_index (view s) ''calstate:'' cso_CalId CalStateObject_marshal (t_cals T)"
    "holds_index (view s) ''calstate_by_agg:'' cso_AggID CalStateObject_marshal (t_cals T)"
    "\<forall>y \<in> set (t_cals T @ xs). ascii (CalStateObject_marshal y)"
    using T ok by (auto simp: holds_def tables_ok_def list_all_iff)
  obtain s' where s': "BulkInsertCalState D now xs s = (s', None)"
    "holds_index (view s') ''calstate:'' cso_CalId CalStateObject_marshal (t_cals T @ xs)"
    "holds_index (view s') ''calstate_by_agg:'' cso_AggID CalStateObject_marshal (t_cals T @ xs)"
    "\<And>k. \<not> has_prefix k ''calstate:'' \<and> \<not> has_prefix k ''calstate_by_agg:'' \<and> \<not> has_prefix k ''calstateCreated:'' \<Longrightarrow> view s' k = view s k"
    using bulk_index [OF db stages_apart(4-6) h, of "unix_time now"] unfolding BulkInsertCalState_def by blast
  with T(1) have "holds (view s') (T\<lparr>t_cals := t_cals T @ xs\<rparr>)"
    by (simp add: holds_def holds_index_def arr_of_def)
  with s'(1) show ?thesis by blast
qed

lemma insert_anchors:
  assumes db: "db_laws D view" "db_reliable D" and T: "holds (view s) T" "tables_ok T" and ok: "list_all AnchorBtcAggState_ok xs"
  shows "\<exists>s'. BulkInsertBtcAggState D now xs s = (s', None) \<and> holds (view s') (T\<lparr>t_anchors := t_anchors T @ xs\<rparr>)"
proof -
  have h: "holds_index (view s) ''anchorbtcaggstate:'' aba_AnchorBtcAggId AnchorBtcAggState_marshal (t_anchors T)"
    "holds_index (view s) ''anchorbtcaggstate_by_cal:'' aba_CalId AnchorBtcAggState_marshal (t_anchors T)"
    "\<forall>y \<in> set (t_anchors T @ xs). ascii (AnchorBtcAggState_marshal y)"
    using T ok by (auto simp: holds_def tables_ok_def list_all_iff)
  obtain s' where s': "BulkInsertBtcAggState D now xs s = (s', None)"
    "holds_index (view s') ''anchorbtcaggstate:'' aba_AnchorBtcAggId AnchorBtcAggState_marshal (t_anchors T @ xs)"
    "holds_index (view s') ''anchorbtcaggstate_by_cal:'' aba_CalId AnchorBtcAggState_marshal (t_anchors T @ xs)"
    "\<And>k. \<not> has_prefix k ''anchorbtcaggstate:'' \<and> \<not> has_prefix k ''anchorbtcaggstate_by_cal:'' \<and> \<not> has_prefix k ''anchorbtcaggstateCreated:'' \<Longrightarrow> view s' k = view s k"
    using bulk_index [OF db stages_apart(7-9) h, of "unix_time now"] unfolding BulkInsertBtcAggState_def by blast
  with T(1) have "holds (view s') (T\<lparr>t_anchors := t_anchors T @ xs\<rparr>)"
    by (simp add: holds_def holds_index_def arr_of_def)
  with s'(1) show ?thesis by blast
qed

lemma btctx_insert:
  assumes "db_laws D view" "db_reliable D"
  shows "\<exists>s'. BulkInsertBtcTxState D now [t] s = (s', None) \<and>
    view s' = (view s)(''btctxstate:'' @ abt_BtcTxId t \<mapsto> AnchorBtcTxState_marshal t,
       ''btctxstate_by_agg:'' @ abt_AnchorBtcAggId t \<mapsto> AnchorBtcTxState_marshal t,
       ''btctxstateCreated:'' @ abt_AnchorBtcAggId t \<mapsto> unix_time now)"
proof -
  let ?v = "AnchorBtcTxState_marshal t"
  obtain s1 where 1: "kv_Set D s (''btctxstate:'' @ abt_BtcTxId t) ?v = (s1, None)"
    "view s1 = (view s)(''btctxstate:'' @ abt_BtcTxId t \<mapsto> ?v)"
    using kv_Set_step [OF assms] by blast
  obtain s2 where 2: "kv_Set D s1 (''btctxstate_by_agg:'' @ abt_AnchorBtcAggId t) ?v = (s2, None)"
    "view s2 = (view s1)(''btctxstate_by_agg:'' @ abt_AnchorBtcAggId t \<mapsto> ?v)"
    using kv_Set_step [OF assms] by blast
  obtain s3 where 3: "kv_Set D s2 (''btctxstateCreated:'' @ abt_AnchorBtcAggId t) (unix_time now) = (s3, None)"
    "view s3 = (view s2)(''btctxstateCreated:'' @ abt_AnchorBtcAggId t \<mapsto> unix_time now)"
    using kv_Set_step [OF assms] by blast
  show ?thesis
    using 1(1) 2(1) 3(1) unfolding 1(2) [symmetric] 2(2) [symmetric] 3(2) [symmetric]
    by (intro exI [of _ s3]) (simp add: BulkInsertBtcTxState_def insert_pair_def 1(2) 2(2) 3(2))
qed

lemma insert_tx:
  assumes db: "db_laws D view" "db_reliable D" and T: "holds (view s) T"
  shows "\<exists>s'. BulkInsertBtcTxState D now [t] s = (s', None) \<and> holds (view s') (T\<lparr>t_txs := (t_txs T)(abt_BtcTxId t \<mapsto> t)\<rparr>)"
  using btctx_insert [OF db, of now t s] T by (force simp: holds_def holds_index_def arr_of_def)

text \<open>The segments of one anchor, inserted in the order in which they arise.\<close>

definition insert_all ::
  "'d DB \<Rightarrow> int \<Rightarrow> AggState list \<Rightarrow> CalStateObject list \<Rightarrow> AnchorBtcAggState list \<Rightarrow> AnchorBtcTxState \<Rightarrow> 'd \<Rightarrow> 'd" where
  "insert_all D now aggs cals anchors btctx s =
     fst (BulkInsertBtcTxState D now [btctx]
       (fst (BulkInsertBtcAggState D now anchors
         (fst (BulkInsertCalState D now cals
           (fst (BulkInsertAggState D now aggs s)))))))"

lemma insert_all_holds:
  assumes db: "db_laws D view" "db_reliable D" "holds (view s) T" "tables_ok T"
    and ok: "list_all AggState_ok aggs" "list_all CalStateObject_ok cals" "list_all AnchorBtcAggState_ok anchors"
  shows "holds (view (insert_all D now aggs cals anchors btctx s))
    \<lparr>t_rows = t_rows T @ aggs, t_cals = t_cals T @ cals, t_anchors = t_anchors T @ anchors,
     t_txs = (t_txs T)(abt_BtcTxId btctx \<mapsto> btctx)\<rparr>"
proof -
  obtain s1 where s1: "BulkInsertAggState D now aggs s = (s1, None)" "holds (view s1) (T\<lparr>t_rows := t_rows T @ aggs\<rparr>)"
    using insert_rows [OF db ok(1)] by blast
  have "tables_ok (T\<lparr>t_rows := t_rows T @ aggs\<rparr>)" using db(4) ok(1) by (simp add: tables_ok_def)
  from insert_cals [OF db(1,2) s1(2) this ok(2)] obtain s2 where s2: "BulkInsertCalState D now cals s1 = (s2, None)"
    "holds (view s2) (T\<lparr>t_rows := t_rows T @ aggs, t_cals := t_cals T @ cals\<rparr>)" by auto
  have "tables_ok (T\<lparr>t_rows := t_rows T @ aggs, t_cals := t_cals T @ cals\<rparr>)" using db(4) ok(1,2) by (simp add: tables_ok_def)
  from insert_anchors [OF db(1,2) s2(2) this ok(3)] obtain s3 where s3: "BulkInsertBtcAggState D now anchors s2 = (s3, None)"
    "holds (view s3) (T\<lparr>t_rows := t_rows T @ aggs, t_cals := t_cals T @ cals, t_anchors := t_anchors T @ anchors\<rparr>)" by auto
  from insert_tx [OF db(1,2) s3(2)] obtain s4 where "BulkInsertBtcTxState D now [btctx] s3 = (s4, None)"
    "holds (view s4) (T\<lparr>t_rows := t_rows T @ aggs, t_cals := t_cals T @ cals, t_anchors := t_anchors T @ anchors,
      t_txs := (t_txs T)(abt_BtcTxId btctx \<mapsto> btctx)\<rparr>)" by auto
  with s1(1) s2(1) s3(1) show ?thesis by (cases T) (simp add: insert_all_def)
qed

subsection \<open>The queries select from the tables\<close>

lemma get_array_or_skip_reliable:
  "db_laws D view \<Longrightarrow> db_reliable D \<Longrightarrow> arr_of (view s) k = Some xs \<Longrightarrow> get_array_or_skip D s k = xs"
  by (simp add: get_array_or_skip_def kv_GetArray_reliable)

lemma decoded_append: "decoded d zero (xs @ ys) = decoded d zero xs @ decoded d zero ys"
  by (simp add: decoded_def List.map_filter_def)

lemma collect_arrays_decoded:
  assumes "db_laws D view" "db_reliable D" "holds_index (view d) p key enc xs"
    "\<And>x. x \<in> set xs \<Longrightarrow> unmarshal dec zero (enc x) = (x, False)"
  shows "\<exists>ys. collect_arrays D d p is = Inr ys \<and> decoded dec zero ys = concat (map (\<lambda>i. filter (\<lambda>x. key x = i) xs) is)"
proof (induction "is")
  case (Cons i "is")
  have "arr_of (view d) (p @ i) = Some (map enc (filter (\<lambda>x. key x = i) xs))" using assms(3) by (simp add: holds_index_def)
  note kv_GetArray_reliable [OF assms(1,2) this]
  moreover have "decoded dec zero (map enc (filter (\<lambda>x. key x = i) xs)) = filter (\<lambda>x. key x = i) xs"
    using assms(4) by (intro decoded_map) simp
  ultimately show ?case using Cons by (auto simp: decoded_append)
qed (simp add: decoded_def)

lemma table_queries:
  assumes db: "db_laws D view" "db_reliable D" and T: "holds (view d) T" "tables_ok T"
  shows "GetAggStateObjectsByProofIds D d is = Inr (concat (map (\<lambda>i. filter (\<lambda>g. as_ProofID g = i) (t_rows T)) is))"
    and "GetCalStateObjectsByAggIds D d is = Inr (concat (map (\<lambda>i. filter (\<lambda>c. cso_AggID c = i) (t_cals T)) is))"
    and "GetAnchorBTCAggStateObjectsByCalIds D d is = concat (map (\<lambda>i. filter (\<lambda>a. aba_CalId a = i) (t_anchors T)) is)"
    and "t_txs T i = Some t \<Longrightarrow> GetBTCTxStateObjectByBtcHeadState D d i = Inr t"
    and "t_txs T i = Some t \<Longrightarrow> GetProofIdsByBtcTxId D d i =
      Inr [as_ProofID g. a \<leftarrow> filter (\<lambda>a. aba_AnchorBtcAggId a = abt_AnchorBtcAggId t) (t_anchors T),
             c \<leftarrow> filter (\<lambda>c. cso_CalId c = aba_CalId a) (t_cals T),
             g \<leftarrow> filter (\<lambda>g. as_AggID g = cso_AggID c) (t_rows T)]"
proof -
  note tables = T(1) [unfolded holds_def] and read = collect_arrays_decoded [OF db]
  have dec: "\<And>g. g \<in> set (t_rows T) \<Longrightarrow> unmarshal jd_AggState AggState_zero (AggState_marshal g) = (g, False)"
    "\<And>c. c \<in> set (t_cals T) \<Longrightarrow> unmarshal jd_CalStateObject CalStateObject_zero (CalStateObject_marshal c) = (c, False)"
    "\<And>a. a \<in> set (t_anchors T) \<Longrightarrow> unmarshal jd_AnchorBtcAggState AnchorBtcAggState_zero (AnchorBtcAggState_marshal a) = (a, False)"
    using T(2) by (simp_all add: tables_ok_def list_all_iff codec_simps)
  obtain y1 where "collect_arrays D d ''aggstate_by_proof:'' is = Inr y1"
    "decoded jd_AggState AggState_zero y1 = concat (map (\<lambda>i. filter (\<lambda>g. as_ProofID g = i) (t_rows T)) is)"
    using read [of d "''aggstate_by_proof:''" as_ProofID AggState_marshal "t_rows T", OF _ dec(1)] tables by blast
  then show "GetAggStateObjectsByProofIds D d is = Inr (concat (map (\<lambda>i. filter (\<lambda>g. as_ProofID g = i) (t_rows T)) is))"
    by (simp add: GetAggStateObjectsByProofIds_def)
  obtain y2 where "collect_arrays D d ''calstate_by_agg:'' is = Inr y2"
    "decoded jd_CalStateObject CalStateObject_zero y2 = concat (map (\<lambda>i. filter (\<lambda>c. cso_AggID c = i) (t_cals T)) is)"
    using read [of d "''calstate_by_agg:''" cso_AggID CalStateObject_marshal "t_cals T", OF _ dec(2)] tables by blast
  then show "GetCalStateObjectsByAggIds D d is = Inr (concat (map (\<lambda>i. filter (\<lambda>c. cso_AggID c = i) (t_cals T)) is))"
    by (simp add: GetCalStateObjectsByAggIds_def)
  obtain y3 where "collect_arrays D d ''anchorbtcaggstate_by_cal:'' is = Inr y3"
    "decoded jd_AnchorBtcAggState AnchorBtcAggState_zero y3 = concat (map (\<lambda>i. filter (\<lambda>a. aba_CalId a = i) (t_anchors T)) is)"
    using read [of d "''anchorbtcaggstate_by_cal:''" aba_CalId AnchorBtcAggState_marshal "t_anchors T", OF _ dec(3)] tables by blast
  then show "GetAnchorBTCAggStateObjectsByCalIds D d is = concat (map (\<lambda>i. filter (\<lambda>a. aba_CalId a = i) (t_anchors T)) is)"
    by (simp add: GetAnchorBTCAggStateObjectsByCalIds_def)
  assume t: "t_txs T i = Some t"
  then have "kv_Get D d (''btctxstate:'' @ i) = (AnchorBtcTxState_marshal t, None)"
    using kv_Get_reliable [OF db] tables by simp
  moreover have "decoded jd_AggState AggState_zero (map AggState_marshal (filter P (t_rows T))) = filter P (t_rows T)"
    "decoded jd_CalStateObject CalStateObject_zero (map CalStateObject_marshal (filter Q (t_cals T))) = filter Q (t_cals T)"
    "decoded jd_AnchorBtcAggState AnchorBtcAggState_zero (map AnchorBtcAggState_marshal (filter R (t_anchors T))) = filter R (t_anchors T)"
    for P Q R by (rule decoded_map, use dec in simp)+
  moreover have "unmarshal jd_AnchorBtcTxState AnchorBtcTxState_zero (AnchorBtcTxState_marshal t) = (t, False)"
    using T(2) t by (auto simp: tables_ok_def codec_simps ran_def)
  ultimately show "GetBTCTxStateObjectByBtcHeadState D d i = Inr t"
    "GetProofIdsByBtcTxId D d i =
      Inr [as_ProofID g. a \<leftarrow> filter (\<lambda>a. aba_AnchorBtcAggId a = abt_AnchorBtcAggId t) (t_anchors T),
             c \<leftarrow> filter (\<lambda>c. cso_CalId c = aba_CalId a) (t_cals T),
             g \<leftarrow> filter (\<lambda>g. as_AggID g = cso_AggID c) (t_rows T)]"
    using tables
    by (simp_all add: GetBTCTxStateObjectByBtcHeadState_def get_btctxstate_def unmarshal_ok_def GetProofIdsByBtcTxId_def holds_index_def
        kv_GetArray_reliable [OF db] get_array_or_skip_reliable [OF db] comp_def del: append_Cons)
qed

text \<open>C20. After the segments of an anchor have been inserted into an empty database, the lookup by
  its Bitcoin transaction returns exactly the proof ids that are linked to it through the anchor
  root, the calendar transactions and the aggregations.\<close>

theorem proof_ids_by_btctx_complete:
  assumes db: "db_laws D view" "db_reliable D" "view s = Map.empty"
    and ok: "\<forall>a \<in> set aggs. AggState_ok a" "\<forall>c \<in> set cals. CalStateObject_ok c"
      "\<forall>a \<in> set anchors. AnchorBtcAggState_ok a" "AnchorBtcTxState_ok btctx"
  shows "GetProofIdsByBtcTxId D (insert_all D now aggs cals anchors btctx s) (abt_BtcTxId btctx) =
    Inr [as_ProofID g. a \<leftarrow> filter (\<lambda>a. aba_AnchorBtcAggId a = abt_AnchorBtcAggId btctx) anchors,
           c \<leftarrow> filter (\<lambda>c. cso_CalId c = aba_CalId a) cals,
           g \<leftarrow> filter (\<lambda>g. as_AggID g = cso_AggID c) aggs]"
proof -
  have T: "holds (view s) no_tables" "tables_ok no_tables" using holds_no_tables db(3) by simp_all
  have ok': "list_all AggState_ok aggs" "list_all CalStateObject_ok cals" "list_all AnchorBtcAggState_ok anchors"
    using ok by (simp_all add: list_all_iff)
  show ?thesis
    using table_queries(5) [OF db(1,2) insert_all_holds [OF db(1,2) T ok'], where i = "abt_BtcTxId btctx" and t = btctx] ok(4) ok'
    by (simp add: no_tables_def tables_ok_def)
qed

theorem proof_ids_by_btctx_complete_witness:
  "GetProofIdsByBtcTxId mem_db
     (insert_all mem_db 0
       [AggState_zero\<lparr>as_ProofID := ''p1'', as_AggID := ''g''\<rparr>, AggState_zero\<lparr>as_ProofID := ''p2'', as_AggID := ''h''\<rparr>,
        AggState_zero\<lparr>as_ProofID := ''p3'', as_AggID := ''g''\<rparr>]
       [CalStateObject_zero\<lparr>cso_AggID := ''g'', cso_CalId := ''c''\<rparr>]
       [AnchorBtcAggState_zero\<lparr>aba_CalId := ''c'', aba_AnchorBtcAggId := ''b''\<rparr>]
       (AnchorBtcTxState_zero\<lparr>abt_AnchorBtcAggId := ''b'', abt_BtcTxId := ''t''\<rparr>) [])
     ''t'' = Inr [''p1'', ''p3'']"
  using proof_ids_by_btctx_complete [OF mem_db_laws mem_db_reliable, of "[]"
      "[AggState_zero\<lparr>as_ProofID := ''p1'', as_AggID := ''g''\<rparr>, AggState_zero\<lparr>as_ProofID := ''p2'', as_AggID := ''h''\<rparr>,
        AggState_zero\<lparr>as_ProofID := ''p3'', as_AggID := ''g''\<rparr>]"
      "[CalStateObject_zero\<lparr>cso_AggID := ''g'', cso_CalId := ''c''\<rparr>]"
      "[AnchorBtcAggState_zero\<lparr>aba_CalId := ''c'', aba_AnchorBtcAggId := ''b''\<rparr>]"
      "AnchorBtcTxState_zero\<lparr>abt_AnchorBtcAggId := ''b'', abt_BtcTxId := ''t''\<rparr>" 0]
  by (simp add: AggState_ok_def AggState_zero_def CalStateObject_ok_def CalStateObject_zero_def
      AnchorBtcAggState_ok_def AnchorBtcAggState_zero_def AnchorBtcTxState_ok_def AnchorBtcTxState_zero_def)

end
