(* ===== verification/Abci_Anchor.thy ===== *)
theory Abci_Anchor
  imports Abci_Transactions_Correct Proof_Tables
begin

text \<open>
  The scheduling of the anchors, \<open>src/abci/anchor.go\<close>: the decision at the end of a block and the
  calendar transaction, which collects the aggregations (the threads of \<open>Aggregation\<close>), broadcasts
  their root and stores the calendar proofs.

  The property: a calendar transaction that was accepted leaves for every submitted hash a
  stored proof whose calendar branch leads from the hash to the root that was broadcast. Which
  calendar transactions an anchor covers is in \<open>Anchor_Range\<close>.
\<close>

subsection \<open>The end of a block\<close>

definition StartAnchoring :: "'d App \<Rightarrow> 'd App \<times> effect list" where
  "StartAnchoring app =
     (let st = app_state app; cfg = app_config app;
          cal = (if ChainSynced st \<and> DoCal cfg then [GoAnchorCalendar (Height st)] else []);
          due = DoAnchor cfg \<and> i64 (Height st - LatestBtcaHeight st) > AnchorInterval cfg;
          anchor = (if due \<and> ChainSynced st \<and> i64 (LatestCalTxInt st - BeginCalTxInt st) > CurrentCalInts st
            then [GoAnchorToChain (BeginCalTxInt st) (i64 (LatestCalTxInt st - CurrentCalInts st))] else []);
          st = (if due \<and> \<not> ChainSynced st then st\<lparr>EndCalTxInt := LatestCalTxInt st\<rparr> else st)
      in (app\<lparr>app_state := st\<lparr>CurrentCalInts := 0\<rparr>\<rparr>, cal @ anchor))"

subsection \<open>The calendar transaction\<close>

definition cal_proof :: "'d Env \<Rightarrow> AnchorConfig \<Rightarrow> (string \<rightharpoonup> string) \<Rightarrow> AggState \<Rightarrow> ProofState" where
  "cal_proof E cfg calLookUp row =
     (let p = chainpoint_header (e_ids E) row;
          p = keep_on_error p (AddCalendarBranch row (or_zero [] (calLookUp (as_AggID row)))
                (SetProofType (BitcoinNetwork cfg) ''cal'') p)
      in \<lparr>ps_ProofID = as_ProofID row, ps_Proof = json_print (JObj p)\<rparr>)"

definition cal_lookup :: "CalStateObject list \<Rightarrow> string \<rightharpoonup> string" where
  "cal_lookup calStates = map_option cso_CalState \<circ> lookup_by cso_AggID calStates"

definition GenerateCalBatch ::
  "'d Env \<Rightarrow> AnchorConfig \<Rightarrow> AggState list \<Rightarrow> CalStateObject list \<Rightarrow> 'd \<Rightarrow> 'd \<times> err option" where
  "GenerateCalBatch E cfg aggStates calStates d =
     BulkInsertProofs (e_db E) (e_now E) (map (cal_proof E cfg (cal_lookup calStates)) aggStates) d"

text \<open>The aggregator, the database, what is broadcast, and the number of aggregations or the error.\<close>

definition AnchorCalendar ::
  "'d Env \<Rightarrow> AggSys \<Rightarrow> 'd App \<Rightarrow> AggSys \<times> 'd App \<times> effect list \<times> (err + int)" where
  "AnchorCalendar E s app =
     (let (s, aggs) = AggregateAndReset s;
          cfg = app_config app;
          aggStates = concat (map AggStates aggs);
          d = foldl (\<lambda>d agg. fst (BulkInsertAggState (e_db E) (e_now E) (AggStates agg) d)) (Db app) aggs;
          calAgg = GenerateCalendarTree (e_merkle E) aggs
      in if CalRoot calAgg \<noteq> [] then
           (let (b, r) = send_tx E cfg ''CAL'' (CalRoot calAgg) (app_ID app) in
            case r of
              Inl e \<Rightarrow> (s, app\<lparr>Db := d\<rparr>, [Send b], Inl e)
            | Inr result \<Rightarrow>
                (let effs = [Send b, GoEvent ''CreateCalTx'' (CalRoot calAgg)] in
                 if br_Code result = 0 then
                   (let calStates = CreateCalStateMessage (CoreURI cfg)
                          \<lparr>tm_Hash = br_Hash result, tm_Data = br_Data result\<rparr> calAgg;
                        d = fst (BulkInsertCalState (e_db E) (e_now E) calStates d);
                        d = fst (GenerateCalBatch E cfg aggStates calStates d);
                        d = fst (kv_Set (e_db E) d (hex_encode (br_Hash result)) (CalRoot calAgg))
                    in (s, app\<lparr>Db := d\<rparr>, effs, Inr (int (length aggs))))
                 else (s, app\<lparr>Db := d\<rparr>, effs, Inl (Err ''No hashes to aggregate''))))
         else (s, app\<lparr>Db := d\<rparr>, [], Inl (Err ''No hashes to aggregate'')))"

subsection \<open>What the aggregator hands over\<close>

definition processed :: "Crypto \<Rightarrow> Merkle \<Rightarrow> Aggregation \<Rightarrow> bool" where
  "processed cr M a \<longleftrightarrow> (\<exists>ulid items drand. a = ProcessAggregation cr M ulid items drand) \<and> AggRoot a \<noteq> []"

lemma processed_ProcessAggregation [simp]:
  "processed cr M (ProcessAggregation cr M ulid items drand) \<longleftrightarrow> AggRoot (ProcessAggregation cr M ulid items drand) \<noteq> []"
  by (auto simp: processed_def)

interpretation agg_processed: invariant "\<lambda>s. s = AggSys_init" "agg_step cr M ids n batch"
  "\<lambda>s. \<forall>a \<in> set (Aggregations s). processed cr M a" for cr M ids n batch
proof
  show "\<forall>a \<in> set (Aggregations t). processed cr M a"
    if "agg_step cr M ids n batch s t" "\<forall>a \<in> set (Aggregations s). processed cr M a" for s t
    using that by cases (auto simp: worker_round_def worker_stop_def Let_def AggregateAndReset_def
        split: prod.splits if_splits)
qed (simp add: AggSys_init_def)

lemma ProcessAggregation_fields:
  assumes "a = ProcessAggregation cr M ulid items drand" "AggRoot a \<noteq> []"
  shows "\<exists>u. ulid = Some u \<and> AggID a = u \<and> items \<noteq> [] \<and> AggRoot a = hex_encode (mt_root M (map (leaf_of cr drand) items)) \<and>
    AggStates a = map (agg_state_of M drand u (AggRoot a) (map (leaf_of cr drand) items) items) [0..<length items]"
  using assms by (auto simp: ProcessAggregation_def Aggregation_zero_def Let_def split: if_splits option.splits)

subsection \<open>The calendar proofs\<close>

lemma lookup_by_nth: "distinct (map key xs) \<Longrightarrow> i < length xs \<Longrightarrow> lookup_by key xs (key (xs ! i)) = Some (xs ! i)"
  unfolding lookup_by_def by (rule map_of_is_SomeI) (auto simp: rev_map [symmetric] comp_def)

lemma cal_lookup_message:
  assumes "distinct (map AggID aggs)" "j < length aggs"
  shows "cal_lookup (CreateCalStateMessage uri tx (GenerateCalendarTree M aggs)) (AggID (aggs ! j)) =
    Some (cso_CalState (CreateCalStateMessage uri tx (GenerateCalendarTree M aggs) ! j))"
proof -
  let ?m = "CreateCalStateMessage uri tx (GenerateCalendarTree M aggs)"
  have len: "length ?m = length aggs" by (simp add: CreateCalStateMessage_def Let_def calendar_tree_fields)
  have key: "cso_AggID (?m ! i) = AggID (aggs ! i)" if "i < length aggs" for i
    using that by (simp add: CreateCalStateMessage_def Let_def calendar_tree_fields)
  then have "map cso_AggID ?m = map AggID aggs" using len by (intro nth_equalityI) simp_all
  then show ?thesis using lookup_by_nth [of cso_AggID ?m j] key [of j] len assms by (simp add: cal_lookup_def)
qed

lemma header_fields:
  "map_of (chainpoint_header L row) ''hash'' = Some (JStr (as_Hash row))"
  "map_of (chainpoint_header L row) ''proof_id'' = Some (JStr (as_ProofID row))"
  by (simp_all add: chainpoint_header_def AddChainpointHeader_def Let_def store_simps split: sum.splits)

lemma AddCalendarBranch_keeps:
  "AddCalendarBranch agg cal t p = Inr p' \<Longrightarrow> k \<noteq> ''branches'' \<Longrightarrow> map_of p' k = map_of p k"
  by (auto simp: AddCalendarBranch_def Let_def store_simps split: option.splits)

lemma hex_key_no_proof: "\<not> has_prefix (hex_encode b) ''proof:''"
proof
  assume "has_prefix (hex_encode b) ''proof:''"
  then have "CHR ''p'' \<in> set (hex_encode b)" by (auto simp: has_prefix_iff)
  from hex_encode_chars [OF this] show False by (simp add: is_hex_char_def from_hex_char_def)
qed

text \<open>What a successful round broadcasts and stores: \<open>round_proofs\<close> are the proofs of all rows.\<close>

definition round_message :: "'d Env \<Rightarrow> AnchorConfig \<Rightarrow> Aggregation list \<Rightarrow> BcastResult \<Rightarrow> CalStateObject list" where
  "round_message E cfg aggs result = CreateCalStateMessage (CoreURI cfg)
     \<lparr>tm_Hash = br_Hash result, tm_Data = br_Data result\<rparr> (GenerateCalendarTree (e_merkle E) aggs)"

definition round_proofs :: "'d Env \<Rightarrow> AnchorConfig \<Rightarrow> Aggregation list \<Rightarrow> BcastResult \<Rightarrow> ProofState list" where
  "round_proofs E cfg aggs result =
     map (cal_proof E cfg (cal_lookup (round_message E cfg aggs result))) (concat (map AggStates aggs))"

lemma AnchorCalendar_succeeds:
  assumes "AnchorCalendar E s app = (s', app', effs, Inr k)"
  shows "\<exists>result. snd (send_tx E (app_config app) ''CAL'' (CalRoot (GenerateCalendarTree (e_merkle E) (Aggregations s))) (app_ID app)) =
      Inr result \<and>
    Send (fst (send_tx E (app_config app) ''CAL'' (CalRoot (GenerateCalendarTree (e_merkle E) (Aggregations s))) (app_ID app))) \<in> set effs \<and>
    app' = app\<lparr>Db := fst (kv_Set (e_db E) (fst (GenerateCalBatch E (app_config app) (concat (map AggStates (Aggregations s)))
      (round_message E (app_config app) (Aggregations s) result)
      (fst (BulkInsertCalState (e_db E) (e_now E) (round_message E (app_config app) (Aggregations s) result)
        (foldl (\<lambda>d agg. fst (BulkInsertAggState (e_db E) (e_now E) (AggStates agg) d)) (Db app) (Aggregations s))))))
      (hex_encode (br_Hash result)) (CalRoot (GenerateCalendarTree (e_merkle E) (Aggregations s))))\<rparr>"
  using assms unfolding round_message_def
  by (auto simp: AnchorCalendar_def AggregateAndReset_def Let_def split: if_splits prod.splits sum.splits)

lemma calendar_round_stores:
  assumes db: "db_laws (e_db E) view" "db_reliable (e_db E)"
    and ok: "AnchorCalendar E s app = (s', app', effs, Inr k)"
    and dist: "distinct (map as_ProofID (concat (map AggStates (Aggregations s))))"
    and fresh: "\<forall>i b. view (Db app) (''proof:'' @ i) = Some b \<longrightarrow> \<not> contains b ''btc_anchor_branch''"
  shows "Send (fst (send_tx E (app_config app) ''CAL'' (CalRoot (GenerateCalendarTree (e_merkle E) (Aggregations s))) (app_ID app)))
      \<in> set effs \<and>
    (\<exists>result. snd (send_tx E (app_config app) ''CAL'' (CalRoot (GenerateCalendarTree (e_merkle E) (Aggregations s))) (app_ID app)) = Inr result \<and>
      (\<forall>p \<in> set (round_proofs E (app_config app) (Aggregations s) result).
      view (Db app') (''proof:'' @ ps_ProofID p) = Some (ProofState_marshal p)))"
proof -
  let ?aggs = "Aggregations s" and ?cfg = "app_config app" and ?D = "e_db E" and ?now = "e_now E"
  let ?ca = "GenerateCalendarTree (e_merkle E) ?aggs"
  define d0 where "d0 = foldl (\<lambda>d agg. fst (BulkInsertAggState ?D ?now (AggStates agg) d)) (Db app) ?aggs"
  obtain result where send: "Send (fst (send_tx E ?cfg ''CAL'' (CalRoot ?ca) (app_ID app))) \<in> set effs"
      "snd (send_tx E ?cfg ''CAL'' (CalRoot ?ca) (app_ID app)) = Inr result"
    and app': "Db app' = fst (kv_Set ?D (fst (GenerateCalBatch E ?cfg (concat (map AggStates ?aggs)) (round_message E ?cfg ?aggs result)
      (fst (BulkInsertCalState ?D ?now (round_message E ?cfg ?aggs result) d0)))) (hex_encode (br_Hash result)) (CalRoot ?ca))"
    using AnchorCalendar_succeeds [OF ok] unfolding d0_def by auto
  define d1 where "d1 = fst (BulkInsertCalState ?D ?now (round_message E ?cfg ?aggs result) d0)"
  let ?ps = "round_proofs E ?cfg ?aggs result"
  have "keeps view ''proof:'' (\<lambda>d. foldl (\<lambda>d agg. fst (BulkInsertAggState ?D ?now (AggStates agg) d)) d ?aggs)"
    by (rule keeps_foldl) (rule state_inserts_keep_proofs(1) [OF db(1)])
  then have d1: "view d1 (''proof:'' @ x) = view (Db app) (''proof:'' @ x)" for x
    using state_inserts_keep_proofs(2) [OF db(1), of ?now "round_message E ?cfg ?aggs result"]
    by (simp add: keeps_def d1_def d0_def has_prefix_append del: append_Cons)
  have stored: "\<forall>p \<in> set ?ps. view (fst (BulkInsertProofs ?D ?now ?ps d1)) (''proof:'' @ ps_ProofID p) = Some (ProofState_marshal p)"
  proof
    fix p assume p: "p \<in> set ?ps"
    have "ps_ProofID \<circ> cal_proof E ?cfg l = as_ProofID" for l by (simp add: fun_eq_iff cal_proof_def Let_def)
    then have "distinct (map ps_ProofID ?ps)" using dist by (simp add: round_proofs_def)
    then have "inj_on ps_ProofID (set ?ps)" by (simp only: distinct_map)
    then show "view (fst (BulkInsertProofs ?D ?now ?ps d1)) (''proof:'' @ ps_ProofID p) = Some (ProofState_marshal p)"
      using BulkInsertProofs_stores [OF db, of ?ps p d1 ?now] p d1 fresh by (auto simp: inj_on_def)
  qed
  have "view (Db app') (''proof:'' @ i) = view (fst (BulkInsertProofs ?D ?now ?ps d1)) (''proof:'' @ i)" for i
    unfolding app' d1_def [symmetric] GenerateCalBatch_def round_proofs_def
    using hex_key_no_proof has_prefix_append by (intro kv_Set_other [OF db(1)]) metis
  with stored send show ?thesis by metis
qed

text \<open>The row of a hash, and the document that the calendar stage makes of it.\<close>

lemma batch_row:
  assumes "j < length aggs" "aggs ! j = ProcessAggregation cr M (Some u) items drand" "i < length items"
  shows "as_ProofID (AggStates (aggs ! j) ! i) = hi_ProofID (items ! i)"
    and "as_Hash (AggStates (aggs ! j) ! i) = hi_Hash (items ! i)"
    and "as_AggID (AggStates (aggs ! j) ! i) = AggID (aggs ! j)"
    and "AggStates (aggs ! j) ! i \<in> set (AggStates (aggs ! j))"
proof -
  have "items \<noteq> []" using assms(3) by auto
  then have st: "AggStates (aggs ! j) = map (agg_state_of M drand u (AggRoot (aggs ! j))
      (map (leaf_of cr drand) items) items) [0..<length items]" and "AggID (aggs ! j) = u"
    by (simp_all add: assms(2) ProcessAggregation_def Let_def)
  then show "as_ProofID (AggStates (aggs ! j) ! i) = hi_ProofID (items ! i)"
    "as_Hash (AggStates (aggs ! j) ! i) = hi_Hash (items ! i)"
    "as_AggID (AggStates (aggs ! j) ! i) = AggID (aggs ! j)"
    using assms(3) by (simp_all add: agg_state_of_def)
  show "AggStates (aggs ! j) ! i \<in> set (AggStates (aggs ! j))" using assms(3) by (simp add: st)
qed

lemma calendar_doc_ok:
  assumes a: "j < length aggs" "aggs ! j = ProcessAggregation cr M (Some u) items drand" "i < length items"
    and nd: "\<forall>p \<in> set (mt_proof M (map (leaf_of cr drand) items) i). \<not> contains (snd p) ''drand''"
    and asc: "ascii drand" "ascii uri" and h: "hex_decode_ok (hi_Hash (items ! i)) = Some h"
    and doc: "AddCalendarBranch (AggStates (aggs ! j) ! i) (cso_CalState (CreateCalStateMessage uri tx (GenerateCalendarTree M aggs) ! j))
      (SetProofType net ''cal'') (chainpoint_header L (AggStates (aggs ! j) ! i)) = Inr doc"
    and id: "ascii (hi_ProofID (items ! i))" "\<forall>t. ascii (rfc3339 L t)"
  shows "doc_ok doc"
proof -
  obtain os aos where "as_AggState (AggStates (aggs ! j) ! i) = OpsState_marshal os"
    "cso_CalState (CreateCalStateMessage uri tx (GenerateCalendarTree M aggs) ! j) = AnchorOpsState_marshal aos"
    "OpsState_ok os" "AnchorOpsState_ok aos"
    using calendar_segments [OF a nd asc] by blast
  moreover have "doc_ok (chainpoint_header L (AggStates (aggs ! j) ! i))"
    unfolding chainpoint_header_def using id hex_decode_ok_ascii [OF h] batch_row [OF a] by (intro doc_ok_header) simp_all
  ultimately show ?thesis using AddCalendarBranch_doc_ok [OF doc] by (simp add: SetProofType_def)
qed

lemma round_proof:
  assumes mk: "merkle_ok (sha256 (e_crypto E)) (e_merkle E)" and roots: "\<forall>a \<in> set aggs. \<exists>r. AggRoot a = hex_encode r"
    and dist: "distinct (map AggID aggs)"
    and a: "j < length aggs" "aggs ! j = ProcessAggregation (e_crypto E) (e_merkle E) (Some u) items drand" "i < length items"
    and nd: "\<forall>p \<in> set (mt_proof (e_merkle E) (map (leaf_of (e_crypto E) drand) items) i). \<not> contains (snd p) ''drand''"
    and asc: "ascii drand" "ascii (CoreURI cfg)"
    and h: "hex_decode_ok (hi_Hash (items ! i)) = Some h" "drand = [] \<longrightarrow> length h = 32"
  shows "\<exists>doc. \<lparr>ps_ProofID = hi_ProofID (items ! i), ps_Proof = json_print (JObj doc)\<rparr> \<in> set (round_proofs E cfg aggs result) \<and>
    map_of doc ''proof_id'' = Some (JStr (hi_ProofID (items ! i))) \<and> map_of doc ''hash'' = Some (JStr (hi_Hash (items ! i))) \<and>
    hex_encode (run_json_ops (e_crypto E) (branch_ops (first_branch doc)) h) = CalRoot (GenerateCalendarTree (e_merkle E) aggs) \<and>
    (ascii (hi_ProofID (items ! i)) \<and> (\<forall>t. ascii (rfc3339 (e_ids E) t)) \<longrightarrow> doc_ok doc)"
proof -
  let ?row = "AggStates (aggs ! j) ! i" and ?msg = "round_message E cfg aggs result"
  note row = batch_row [OF a]
  have "aggs ! j \<in> set aggs" using a(1) by simp
  with row(4) have rows: "?row \<in> set (concat (map AggStates aggs))" by auto
  obtain doc where doc: "AddCalendarBranch ?row (cso_CalState (?msg ! j)) (SetProofType (BitcoinNetwork cfg) ''cal'')
      (chainpoint_header (e_ids E) ?row) = Inr doc"
    "hex_encode (run_json_ops (e_crypto E) (branch_ops (first_branch doc)) h) = CalRoot (GenerateCalendarTree (e_merkle E) aggs)"
    using calendar_branch_value [OF mk a roots nd asc h] unfolding round_message_def by blast
  have p: "cal_proof E cfg (cal_lookup ?msg) ?row = \<lparr>ps_ProofID = hi_ProofID (items ! i), ps_Proof = json_print (JObj doc)\<rparr>"
    using cal_lookup_message [OF dist a(1)] doc(1)
    by (simp add: cal_proof_def row Let_def round_message_def or_zero_def keep_on_error_def)
  have "\<lparr>ps_ProofID = hi_ProofID (items ! i), ps_Proof = json_print (JObj doc)\<rparr> \<in> set (round_proofs E cfg aggs result)"
    unfolding round_proofs_def p [symmetric] set_map using rows by (rule imageI)
  moreover have "map_of doc ''proof_id'' = Some (JStr (hi_ProofID (items ! i)))" "map_of doc ''hash'' = Some (JStr (hi_Hash (items ! i)))"
    using AddCalendarBranch_keeps [OF doc(1)] header_fields [of "e_ids E" ?row] row by simp_all
  moreover have "doc_ok doc" if "ascii (hi_ProofID (items ! i))" "\<forall>t. ascii (rfc3339 (e_ids E) t)"
    using calendar_doc_ok [OF a nd asc h(1) doc(1) [unfolded round_message_def] that] .
  ultimately show ?thesis using doc(2) by blast
qed

text \<open>A round and the document of one hash.\<close>

lemma calendar_round_doc:
  assumes reach: "agg_reachable (e_crypto E) (e_merkle E) ids n batch s"
    and mk: "merkle_ok (sha256 (e_crypto E)) (e_merkle E)" and db: "db_laws (e_db E) view" "db_reliable (e_db E)"
    and ok: "AnchorCalendar E s app = (s', app', effs, Inr k)"
    and dist: "distinct (map AggID (Aggregations s))" "distinct (map as_ProofID (concat (map AggStates (Aggregations s))))"
    and fresh: "\<And>i b. view (Db app) (''proof:'' @ i) = Some b \<Longrightarrow> \<not> contains b ''btc_anchor_branch''"
    and a: "j < length (Aggregations s)" "Aggregations s ! j = ProcessAggregation (e_crypto E) (e_merkle E) (Some u) items drand"
      "i < length items"
    and nd: "\<forall>p \<in> set (mt_proof (e_merkle E) (map (leaf_of (e_crypto E) drand) items) i). \<not> contains (snd p) ''drand''"
    and asc: "ascii drand" "ascii (CoreURI (app_config app))"
    and h: "hex_decode_ok (hi_Hash (items ! i)) = Some h" "drand = [] \<longrightarrow> length h = 32"
  shows "\<exists>doc root. Send (fst (send_tx E (app_config app) ''CAL'' root (app_ID app))) \<in> set effs \<and>
    view (Db app') (''proof:'' @ hi_ProofID (items ! i)) =
      Some (ProofState_marshal \<lparr>ps_ProofID = hi_ProofID (items ! i), ps_Proof = json_print (JObj doc)\<rparr>) \<and>
    map_of doc ''proof_id'' = Some (JStr (hi_ProofID (items ! i))) \<and> map_of doc ''hash'' = Some (JStr (hi_Hash (items ! i))) \<and>
    hex_encode (run_json_ops (e_crypto E) (branch_ops (first_branch doc)) h) = root \<and>
    (ascii (hi_ProofID (items ! i)) \<and> (\<forall>t. ascii (rfc3339 (e_ids E) t)) \<longrightarrow> doc_ok doc)"
proof -
  let ?aggs = "Aggregations s"
  obtain result where st: "Send (fst (send_tx E (app_config app) ''CAL''
      (CalRoot (GenerateCalendarTree (e_merkle E) ?aggs)) (app_ID app))) \<in> set effs"
    "\<forall>p \<in> set (round_proofs E (app_config app) ?aggs result).
      view (Db app') (''proof:'' @ ps_ProofID p) = Some (ProofState_marshal p)"
    using calendar_round_stores [OF db ok dist(2)] fresh by blast
  have "\<forall>a \<in> set ?aggs. \<exists>r. AggRoot a = hex_encode r"
    using agg_processed.reachable_inv [OF reach] ProcessAggregation_fields unfolding processed_def by blast
  from round_proof [OF mk this dist(1) a nd asc h, of result] st show ?thesis by fastforce
qed


text \<open>A round over one hash, under any id.\<close>

definition toy_round :: "string \<Rightarrow> AggSys" where
  "toy_round i = one_batch toy_crypto (ref_merkle (\<lambda>b. b)) \<lparr>hi_ProofID = i, hi_Hash = hex_encode (toy_hash (CHR ''1''))\<rparr>"

definition toy_round_batch :: "string \<Rightarrow> Aggregation" where
  "toy_round_batch i = ProcessAggregation toy_crypto (ref_merkle (\<lambda>b. b)) (Some ''u'')
     [\<lparr>hi_ProofID = i, hi_Hash = hex_encode (toy_hash (CHR ''1''))\<rparr>] []"

lemma toy_hash_length: "length (toy_hash (CHR ''1'')) = 32"
  by (simp add: toy_hash_def)

lemma toy_round_facts:
  "Aggregations (toy_round i) = [toy_round_batch i]" "map as_ProofID (AggStates (toy_round_batch i)) = [i]"
  "agg_reachable toy_crypto (ref_merkle (\<lambda>b. b)) {Some ''u''} 1 100 (toy_round i)"
proof -
  show aggs: "Aggregations (toy_round i) = [toy_round_batch i]" by (simp add: toy_round_def toy_round_batch_def one_batch_def)
  show "map as_ProofID (AggStates (toy_round_batch i)) = [i]"
    by (simp add: toy_round_batch_def ProcessAggregation_def agg_state_of_def Let_def)
  have len: "length (toy_hash (CHR ''1'')) = 32" by (simp add: toy_hash_def)
  have ne: "hex_encode (toy_hash (CHR ''1'')) \<noteq> []" by (simp add: toy_hash_def)
  show "agg_reachable toy_crypto (ref_merkle (\<lambda>b. b)) {Some ''u''} 1 100 (toy_round i)"
    unfolding toy_round_def
    by (rule one_batch_reachable) (use len in \<open>auto simp: leaf_of_def codec_simps ref_merkle_def ref_root.simps ne toy_hash_def\<close>)
qed

definition toy_node :: "(bytes \<times> bytes) list App" where
  "toy_node = toy_app\<lparr>app_config := toy_cfg\<lparr>CoreURI := ''u''\<rparr>\<rparr>"

lemma toy_node_fields: "app_config toy_node = toy_cfg\<lparr>CoreURI := ''u''\<rparr>" "app_ID toy_node = ''A''" "Db toy_node = []"
  by (simp_all add: toy_node_def toy_app_def)

lemma toy_round_succeeds: "\<exists>s' app' effs. AnchorCalendar toy_world (toy_round i) toy_node = (s', app', effs, Inr 1)"
proof -
  have "AggRoot (toy_round_batch i) = hex_encode (toy_hash (CHR ''1''))"
    by (simp add: toy_round_batch_def ProcessAggregation_def Let_def leaf_of_def codec_simps toy_hash_def ref_merkle_def ref_root.simps)
  then have "CalRoot (GenerateCalendarTree (ref_merkle (\<lambda>b. b)) [toy_round_batch i]) = hex_encode (toy_hash (CHR ''1''))"
    by (simp add: calendar_tree_fields agg_leaves_def codec_simps ref_merkle_def ref_root.simps)
  moreover have "hex_encode (toy_hash (CHR ''1'')) \<noteq> []" by (simp add: toy_hash_def)
  ultimately show ?thesis
    by (simp add: AnchorCalendar_def AggregateAndReset_def toy_round_facts send_tx_def BroadcastTx_def
        toy_world_def toy_rpc_def Let_def)
qed


end
