(* ===== verification/Anchor_Range.thy ===== *)
theory Anchor_Range
  imports Abci_Anchor
begin

text \<open>
  Which calendar transactions an anchor covers: the range that the end of a block
  (\<open>StartAnchoring\<close>, \<open>src/abci/anchor.go\<close>) hands to the anchoring engine, in terms of the transactions
  that the block delivered (\<open>updateStateFromTx\<close>, \<open>src/abci/transactions.go\<close>).
\<close>

subsection \<open>The transactions of a block\<close>

definition numbered :: "Response \<Rightarrow> bool" where
  "numbered r \<longleftrightarrow> response_txints r \<noteq> []"

definition is_cal :: "Response \<Rightarrow> bool" where
  "is_cal r \<longleftrightarrow> map fst (Events r) = [''CAL'']"

text \<open>How many numbered transactions of other kinds stand before the last calendar transaction.\<close>

fun others_before_cal :: "Response list \<Rightarrow> int" where
  "others_before_cal [] = 0"
| "others_before_cal (r # rs) =
     (if numbered r \<and> \<not> is_cal r \<and> list_ex is_cal rs then 1 else 0) + others_before_cal rs"

lemma deliver_cal_counts:
  assumes "deliver E T rawTx tx app = Inr (app', tags, r, effs)"
  shows "TxType tx = ''CAL'' \<longrightarrow> LatestCalTxInt (app_state app') = TxInt (app_state app') \<and>
      CurrentCalInts (app_state app') = i64 (CurrentCalInts (app_state app) + 1) \<and> txint_tags tags \<noteq> []"
    and "TxType tx \<noteq> ''CAL'' \<longrightarrow> LatestCalTxInt (app_state app') = LatestCalTxInt (app_state app) \<and>
      CurrentCalInts (app_state app') = CurrentCalInts (app_state app)"
  using assms
  by (auto simp: deliver_defs bind_err_Inr_iff frame_simps SaveIdentity_frame txint_tags_def
      dest!: execValidatorTx_frame btcc_seen_frame
      split: if_splits option.splits sum.splits err.splits prod.splits)

lemma updateStateFromTx_counts:
  assumes "updateStateFromTx E T raw app = Inr (app', r, effs)"
  shows "is_cal r \<longrightarrow> LatestCalTxInt (app_state app') = TxInt (app_state app') \<and>
      CurrentCalInts (app_state app') = i64 (CurrentCalInts (app_state app) + 1) \<and> numbered r"
    and "\<not> is_cal r \<longrightarrow> LatestCalTxInt (app_state app') = LatestCalTxInt (app_state app) \<and>
      CurrentCalInts (app_state app') = CurrentCalInts (app_state app)"
proof -
  obtain tx tags r0 where d: "deliver E T raw tx app = Inr (app', tags, r0, effs)" "r = r0\<lparr>Events := [(TxType tx, tags)]\<rparr>"
    using assms unfolding updateStateFromTx_def Let_def by (auto simp: bind_err_Inr_iff)
  then have "response_txints r = txint_tags tags" "is_cal r \<longleftrightarrow> TxType tx = ''CAL''"
    by (simp_all add: response_txints_def is_cal_def)
  with deliver_cal_counts [OF d(1)]
  show "is_cal r \<longrightarrow> LatestCalTxInt (app_state app') = TxInt (app_state app') \<and>
      CurrentCalInts (app_state app') = i64 (CurrentCalInts (app_state app) + 1) \<and> numbered r"
    "\<not> is_cal r \<longrightarrow> LatestCalTxInt (app_state app') = LatestCalTxInt (app_state app) \<and>
      CurrentCalInts (app_state app') = CurrentCalInts (app_state app)"
    by (simp_all add: numbered_def)
qed

lemma block_counts:
  assumes "deliver_all E T raws app = Inr (app', rs)"
    "0 \<le> TxInt (app_state app)" "TxInt (app_state app) + int (length raws) < 2 ^ 63"
    "0 \<le> CurrentCalInts (app_state app)" "CurrentCalInts (app_state app) + int (length raws) < 2 ^ 63"
  shows "(if list_ex is_cal rs
      then LatestCalTxInt (app_state app') - CurrentCalInts (app_state app') =
        TxInt (app_state app) - CurrentCalInts (app_state app) + others_before_cal rs
      else LatestCalTxInt (app_state app') = LatestCalTxInt (app_state app) \<and>
        CurrentCalInts (app_state app') = CurrentCalInts (app_state app)) \<and>
    (\<not> list_ex is_cal rs \<longrightarrow> others_before_cal rs = 0) \<and> length rs = length raws \<and>
    0 \<le> CurrentCalInts (app_state app') \<and> CurrentCalInts (app_state app') \<le> CurrentCalInts (app_state app) + int (length raws)"
  using assms
proof (induction raws arbitrary: app rs)
  case (Cons raw raws)
  then obtain app1 r effs rs' where u: "updateStateFromTx E T raw app = Inr (app1, r, effs)"
    "deliver_all E T raws app1 = Inr (app', rs')" "rs = r # rs'"
    by (auto simp: bind_err_Inr_iff)
  let ?s = "app_state app" and ?s1 = "app_state app1"
  have i: "i64 (TxInt ?s + 1) = TxInt ?s + 1" "i64 (CurrentCalInts ?s + 1) = CurrentCalInts ?s + 1"
    using Cons.prems by (simp_all add: is_i64_def)
  note c = updateStateFromTx_counts [OF u(1), unfolded i]
  have n: "\<not> numbered r \<and> TxInt ?s1 = TxInt ?s \<or> numbered r \<and> TxInt ?s1 = TxInt ?s + 1"
    using updateStateFromTx_txint [OF u(1)] i by (auto simp: numbered_def)
  have "0 \<le> TxInt ?s1" "TxInt ?s1 + int (length raws) < 2 ^ 63"
    "0 \<le> CurrentCalInts ?s1" "CurrentCalInts ?s1 + int (length raws) < 2 ^ 63"
    using n c Cons.prems by (cases "is_cal r"; auto)+
  note ih = Cons.IH [OF u(2) this]
  show ?case using ih n c u(3) by (cases "is_cal r"; cases "list_ex is_cal rs'") auto
qed simp

text \<open>C23. The anchor that the end of a block starts covers the calendar transactions from the last anchored
  one up to, but not including, the counter value before the block plus the number of numbered
  transactions of other kinds that stand before the last calendar transaction of the block. With
  two of them it includes calendar transactions of the current block, which the condition in the
  code is there to prevent.\<close>

theorem anchored_range_end:
  assumes "deliver_all E T raws app = Inr (app', rs)" "CurrentCalInts (app_state app) = 0"
    "0 \<le> TxInt (app_state app)" "TxInt (app_state app) + int (length raws) < 2 ^ 62"
    "0 \<le> BeginCalTxInt (app_state app')" "BeginCalTxInt (app_state app') < 2 ^ 62"
    "0 \<le> LatestCalTxInt (app_state app)" "LatestCalTxInt (app_state app) < 2 ^ 62"
    and e: "e = (if list_ex is_cal rs then TxInt (app_state app) + others_before_cal rs else LatestCalTxInt (app_state app))"
  shows "GoAnchorToChain b x \<in> set (snd (StartAnchoring app')) \<longleftrightarrow>
    DoAnchor (app_config app') \<and> ChainSynced (app_state app') \<and>
    i64 (Height (app_state app') - LatestBtcaHeight (app_state app')) > AnchorInterval (app_config app') \<and>
    b = BeginCalTxInt (app_state app') \<and> x = e \<and> b < e"
proof -
  let ?s = "app_state app'"
  have "LatestCalTxInt ?s - CurrentCalInts ?s = e" "length rs = length raws" "0 \<le> CurrentCalInts ?s"
    "CurrentCalInts ?s \<le> int (length raws)"
    using block_counts [OF assms(1)] assms(2-4) e by (auto split: if_splits)
  moreover have "0 \<le> others_before_cal rs" "others_before_cal rs \<le> int (length rs)" by (induction rs) auto
  ultimately show ?thesis using assms(3-8) e by (auto simp: StartAnchoring_def Let_def is_i64_def)
qed

lemma toy_signed:
  assumes "Tx_ok t" "TxType t \<noteq> ''JWK''" "Sig t = []" "keys (CoreID t) = Some pk"
  shows "DecodeTxAndVerifySig toy_crypto keys (raw_tx t) = Inr t"
proof -
  have "b64_decode [] = Some []" by code_simp
  with assms show ?thesis by (simp add: DecodeTxAndVerifySig_def raw_tx_def codec_simps toy_crypto_def)
qed

theorem anchored_range_end_witness:
  "\<exists>raws app app' rs. deliver_all toy_world toy_tm raws app = Inr (app', rs) \<and> CurrentCalInts (app_state app) = 0 \<and>
    GoAnchorToChain 0 2 \<in> set (snd (StartAnchoring app')) \<and>
    is_cal (hd rs) \<and> response_txints (hd rs) = [Int64ToByte 1]"
proof -
  define keys :: "string \<rightharpoonup> PublicKey" where "keys = [[] \<mapsto> toy_key]"
  define cal where "cal = (Tx_zero\<lparr>TxType := ''CAL''\<rparr>)"
  define stk where "stk = (Tx_zero\<lparr>TxType := ''CHNGSTK'', Data := format_int 1\<rparr>)"
  define rcal where "rcal = raw_tx cal"
  define rstk where "rstk = raw_tx stk"
  have asc: "ascii ''CAL''" "ascii ''CHNGSTK''" "ascii (format_int 1)" by code_simp+
  have "Tx_ok (Tx_zero\<lparr>TxType := k, Data := d\<rparr>)" if "ascii k" "ascii d" for k d
    using that by (simp add: Tx_ok_def Tx_zero_def is_i64_def)
  from tx_kind_ok [OF asc(1)] this [OF asc(2,3)] have ok: "Tx_ok cal" "Tx_ok stk" by (simp_all only: cal_def stk_def)
  have f: "TxType cal = ''CAL''" "TxType stk = ''CHNGSTK''" "Data stk = format_int 1" "Sig cal = []" "Sig stk = []"
    "CoreID cal = []" "CoreID stk = []"
    by (simp_all add: cal_def stk_def Tx_zero_def)
  have t: "DecodeTxAndVerifySig toy_crypto keys rcal = Inr cal" "DecodeTxAndVerifySig toy_crypto keys rstk = Inr stk"
    unfolding rcal_def rstk_def
    by (rule toy_signed [OF ok(1) _ f(4)] toy_signed [OF ok(2) _ f(5)]; simp add: f keys_def)+
  have one: "parse_int_ok (format_int 1) = Some 1" by (simp add: codec_simps is_i64_def)
  define app where "app = toy_app\<lparr>app_config := toy_cfg\<lparr>DoAnchor := True, AnchorInterval := 1\<rparr>,
    app_state := AnchorState_zero\<lparr>Height := 5, ChainSynced := True, CoreKeys := keys\<rparr>\<rparr>"
  have a: "ChainSynced (app_state app)" "CoreKeys (app_state app) = keys" "TxInt (app_state app) = 0"
    "CurrentCalInts (app_state app) = 0" "Height (app_state app) = 5" "LatestBtcaHeight (app_state app) = 0"
    "BeginCalTxInt (app_state app) = 0" "LatestCalTxInt (app_state app) = 0" "DoAnchor (app_config app)"
    "AnchorInterval (app_config app) = 1"
    by (simp_all add: app_def AnchorState_zero_def)
  obtain app' rs where d: "deliver_all toy_world toy_tm [rcal, rstk, rstk, rcal] app = Inr (app', rs)"
    and s: "DoAnchor (app_config app')" "ChainSynced (app_state app')" "Height (app_state app') = 5"
      "LatestBtcaHeight (app_state app') = 0" "AnchorInterval (app_config app') = 1" "BeginCalTxInt (app_state app') = 0"
    and r: "map is_cal rs = [True, False, False, True]" "map response_txints rs = map (\<lambda>n. [Int64ToByte n]) [1, 2, 3, 4]"
    by (simp add: updateStateFromTx_def t a f one deliver_def deliver_cal_def deliver_stake_def incrementTxInt_eq Let_def
        is_i64_def is_cal_def response_txints_def txint_tags_def)
  obtain r1 r2 r3 r4 where rs: "rs = [r1, r2, r3, r4]" using r(1) by (auto simp: map_eq_Cons_conv)
  have "others_before_cal rs = 2" "list_ex is_cal rs" using r by (simp_all add: rs numbered_def)
  then have "GoAnchorToChain 0 2 \<in> set (snd (StartAnchoring app'))"
    by (subst anchored_range_end [OF d, where e = 2]) (simp_all add: a s is_i64_def)
  moreover have "is_cal (hd rs)" "response_txints (hd rs) = [Int64ToByte 1]" using r by (simp_all add: rs)
  ultimately show ?thesis using d a(4) by blast
qed

end
