(* ===== verification/Go_Net.thy ===== *)
theory Go_Net
  imports Go_Encoding
begin

text \<open>
  What the program uses of Go's \<open>net\<close> and \<open>path\<close> packages: the base of a path, host and port of an
  address, the addresses and blocks of addresses in text form, and membership in a block. An
  address is its 4 or 16 bytes, as numbers.
\<close>

subsection \<open>Paths and ports\<close>

text \<open>\<open>path.Base\<close>: what follows the last slash, without trailing slashes.\<close>

definition path_base :: "string \<Rightarrow> string" where
  "path_base p =
     (if p = [] then ''.''
      else (let q = dropWhile (\<lambda>c. c = CHR ''/'') (rev p) in
            if q = [] then ''/'' else rev (takeWhile (\<lambda>c. c \<noteq> CHR ''/'') q)))"

definition SplitHostPort :: "string \<Rightarrow> (string \<times> string) option" where
  "SplitHostPort hp =
     (let i = last_index_char hp (CHR '':''); n = nat i in
      if i < 0 then None
      else if has_prefix hp ''['' then
        (case str_index hp '']'' of
           None \<Rightarrow> None
         | Some e \<Rightarrow>
             if Suc e = length hp \<or> Suc e \<noteq> n then None
             else if CHR ''['' \<in> set (drop 1 hp) \<or> CHR '']'' \<in> set (drop (Suc e) hp) then None
             else Some (drop 1 (take e hp), drop (Suc n) hp))
      else if CHR '':'' \<in> set (take n hp) \<or> CHR ''['' \<in> set hp \<or> CHR '']'' \<in> set hp then None
      else Some (take n hp, drop (Suc n) hp))"

subsection \<open>Addresses\<close>

type_synonym ip = "nat list"

definition is_dec :: "char \<Rightarrow> bool" where
  "is_dec c \<longleftrightarrow> digit_val c \<noteq> None"

definition dec_value :: "string \<Rightarrow> nat" where
  "dec_value s = foldl (\<lambda>n c. 10 * n + (case digit_val c of None \<Rightarrow> 0 | Some d \<Rightarrow> d)) 0 s"

text \<open>One field of a dotted address: no leading zero, at most 255.\<close>

definition octet :: "string \<Rightarrow> nat option" where
  "octet s =
     (if s \<noteq> [] \<and> list_all is_dec s \<and> dec_value s \<le> 255 \<and> (length s = 1 \<or> hd s \<noteq> CHR ''0'')
      then Some (dec_value s) else None)"

definition parseIPv4 :: "string \<Rightarrow> ip option" where
  "parseIPv4 s =
     (case map octet (split_on (CHR ''.'') s) of
        [Some a, Some b, Some c, Some d] \<Rightarrow> Some [a, b, c, d]
      | _ \<Rightarrow> None)"

definition hex_value :: "string \<Rightarrow> nat" where
  "hex_value s = foldl (\<lambda>n c. 16 * n + (case from_hex_char c of None \<Rightarrow> 0 | Some d \<Rightarrow> d)) 0 s"

text \<open>The groups of an IPv6 address from the left: what is read so far, where the ellipsis
  stands, and the rest. \<open>fuel\<close> bounds the groups, of which there are eight.\<close>

fun v6_groups :: "nat \<Rightarrow> ip \<Rightarrow> nat option \<Rightarrow> string \<Rightarrow> (ip \<times> nat option) option" where
  "v6_groups 0 acc ell s = (if s = [] then Some (acc, ell) else None)"
| "v6_groups (Suc fuel) acc ell s =
     (let g = takeWhile (\<lambda>c. from_hex_char c \<noteq> None) s; r = drop (length g) s; v = hex_value g in
      if 16 \<le> length acc then (if s = [] then Some (acc, ell) else None)
      else if g = [] \<or> 65535 < v then None
      else if has_prefix r ''.'' then
        (if ell = None \<and> length acc \<noteq> 12 \<or> 16 < length acc + 4 then None
         else (case parseIPv4 s of None \<Rightarrow> None | Some b \<Rightarrow> Some (acc @ b, ell)))
      else (let acc = acc @ [v div 256, v mod 256] in
        case r of
          [] \<Rightarrow> Some (acc, ell)
        | c # t \<Rightarrow>
            if c \<noteq> CHR '':'' \<or> t = [] then None
            else if has_prefix t '':'' then
              (if ell \<noteq> None then None
               else if tl t = [] then Some (acc, Some (length acc))
               else v6_groups fuel acc (Some (length acc)) (tl t))
            else v6_groups fuel acc ell t))"

definition parseIPv6 :: "string \<Rightarrow> ip option" where
  "parseIPv6 s =
     (let parsed = (if s = ''::'' then Some ([], Some 0)
            else if has_prefix s ''::'' then v6_groups 9 [] (Some 0) (drop 2 s)
            else v6_groups 9 [] None s)
      in case parsed of
           None \<Rightarrow> None
         | Some (b, None) \<Rightarrow> if length b = 16 then Some b else None
         | Some (b, Some e) \<Rightarrow>
             if length b < 16 then Some (take e b @ replicate (16 - length b) 0 @ drop e b) else None)"

text \<open>The first dot or colon decides the form.\<close>

definition ParseIP :: "string \<Rightarrow> ip option" where
  "ParseIP s =
     (case filter (\<lambda>c. c = CHR ''.'' \<or> c = CHR '':'') s of
        [] \<Rightarrow> None
      | c # _ \<Rightarrow> if c = CHR ''.'' then parseIPv4 s else parseIPv6 s)"

text \<open>An IPv4 address in IPv6 form is the IPv4 address.\<close>

definition to4 :: "ip \<Rightarrow> ip" where
  "to4 b = (if length b = 16 \<and> take 12 b = replicate 10 0 @ [255, 255] then drop 12 b else b)"

subsection \<open>Blocks of addresses\<close>

definition mask_byte :: "nat \<Rightarrow> nat \<Rightarrow> nat \<Rightarrow> nat" where
  "mask_byte n i b = (let k = min 8 (n - 8 * i) in b div 2 ^ (8 - k) * 2 ^ (8 - k))"

definition mask_ip :: "nat \<Rightarrow> ip \<Rightarrow> ip" where
  "mask_ip n b = map (\<lambda>i. mask_byte n i (b ! i)) [0..<length b]"

text \<open>The address and the length of the prefix.\<close>

definition ParseCIDR :: "string \<Rightarrow> (ip \<times> nat) option" where
  "ParseCIDR s =
     (case str_index s ''/'' of
        None \<Rightarrow> None
      | Some i \<Rightarrow>
          (let addr = take i s; m = drop (Suc i) s; n = dec_value m in
           if m = [] \<or> \<not> list_all is_dec m then None
           else (case parseIPv4 addr of
                   Some b \<Rightarrow> if n \<le> 32 then Some (b, n) else None
                 | None \<Rightarrow> (case parseIPv6 addr of
                     Some b \<Rightarrow> if n \<le> 128 then Some (b, n) else None
                   | None \<Rightarrow> None))))"

text \<open>\<open>IPNet.Contains\<close>; a nil address is in no block. A prefix of a mapped IPv4 address counts from
  its 96th bit.\<close>

definition net_contains :: "ip \<times> nat \<Rightarrow> ip option \<Rightarrow> bool" where
  "net_contains = (\<lambda>(b, n) x.
     let net = mask_ip n b; n4 = (if length b = 16 \<and> length (to4 net) = 4 then n - 96 else n) in
     case x of
       None \<Rightarrow> False
     | Some a \<Rightarrow> length (to4 a) = length (to4 net) \<and> mask_ip n4 (to4 a) = mask_ip n4 (to4 net))"

end
