(* ===== verification/Go_Float_Text.thy ===== *)
theory Go_Float_Text
  imports Go_Json Go_Float
begin

text \<open>
  Numbers with a fraction in JSON, as Go's \<open>encoding/json\<close> and \<open>strconv\<close> treat them: the value of
  a literal, and the text of a \<open>float32\<close>, which has the fewest digits that are read back as the same
  number. Infinities and NaN have no text.

  Main result: a \<open>float32\<close> is printed as a JSON number, and read back as it was.
\<close>

subsection \<open>The value of a literal\<close>

definition digits_nat :: "string \<Rightarrow> nat" where
  "digits_nat s = foldl (\<lambda>n c. 10 * n + (case digit_val c of None \<Rightarrow> 0 | Some d \<Rightarrow> d)) 0 s"

definition lit_exponent :: "string \<Rightarrow> int" where
  "lit_exponent s =
     (case s of
        e # c # t \<Rightarrow> if c = CHR ''-'' then - int (digits_nat t)
          else if c = CHR ''+'' then int (digits_nat t) else int (digits_nat (c # t))
      | _ \<Rightarrow> 0)"

definition lit_value :: "string \<Rightarrow> rat" where
  "lit_value l =
     (let neg = has_prefix l ''-''; s = trim_prefix l ''-'';
          ip = takeWhile is_digit s; r = dropWhile is_digit s;
          fp = (if has_prefix r ''.'' then takeWhile is_digit (tl r) else []);
          r = (if has_prefix r ''.'' then dropWhile is_digit (tl r) else r);
          ex = lit_exponent r - int (length fp);
          m = of_nat (digits_nat (ip @ fp));
          v = (if 0 \<le> ex then m * 10 ^ nat ex else m / 10 ^ nat (- ex))
      in if neg then - v else v)"

subsection \<open>Printing\<close>

text \<open>The \<open>n\<close>-digit decimal \<open>m * 10 ^ e\<close> next to \<open>x > 0\<close> from below and from above.\<close>

definition ten_pow :: "int \<Rightarrow> rat" where
  "ten_pow e = (if 0 \<le> e then 10 ^ nat e else 1 / 10 ^ nat (- e))"

fun dec_exp_up :: "nat \<Rightarrow> rat \<Rightarrow> int \<Rightarrow> int" where
  "dec_exp_up 0 x e = e"
| "dec_exp_up (Suc n) x e = (if ten_pow (e + 1) \<le> x then dec_exp_up n x (e + 1) else e)"

definition dec_exp :: "rat \<Rightarrow> int" where
  "dec_exp x = dec_exp_up 90 x (- 50)"

definition decimals :: "nat \<Rightarrow> rat \<Rightarrow> (int \<times> int) list" where
  "decimals n x =
     (let e = dec_exp x - int n + 1; q = x / ten_pow e; lo = \<lfloor>q\<rfloor>; hi = \<lceil>q\<rceil>
      in if q - of_int lo \<le> of_int hi - q then [(lo, e), (hi, e)] else [(hi, e), (lo, e)])"

text \<open>The exact expansion, which is finite: \<open>x\<close> is a multiple of its last place.\<close>

definition exact_decimal :: "rat \<Rightarrow> int \<times> int" where
  "exact_decimal x =
     (let e = max (ilog2 x) (-126) - 23
      in if 0 \<le> e then (\<lfloor>x\<rfloor>, 0) else (\<lfloor>x * 10 ^ nat (- e)\<rfloor>, e))"

definition strip_zeros :: "int \<times> int \<Rightarrow> int \<times> int" where
  "strip_zeros = (\<lambda>(m, e).
     let k = length (takeWhile (\<lambda>c. c = CHR ''0'') (rev (nat_digits (nat m)))) in (m div 10 ^ k, e + int k))"

text \<open>The shortest digits that are read back as \<open>x > 0\<close>, at most nine.\<close>

definition shortest :: "rat \<Rightarrow> int \<times> int" where
  "shortest x =
     (case List.find (\<lambda>(m, e). rnd (of_int m * ten_pow e) = x) (concat (map (\<lambda>n. decimals n x) [1..<10])) of
        Some d \<Rightarrow> strip_zeros d
      | None \<Rightarrow> strip_zeros (exact_decimal x))"

text \<open>The formats \<open>f\<close> and \<open>e\<close> of \<open>m * 10 ^ e\<close>.\<close>

definition fmt_f :: "int \<times> int \<Rightarrow> string" where
  "fmt_f = (\<lambda>(m, e).
     let ds = nat_digits (nat m); k = nat (- e) in
     if 0 \<le> e then ds @ replicate (nat e) (CHR ''0'')
     else if length ds \<le> k then ''0.'' @ replicate (k - length ds) (CHR ''0'') @ ds
     else take (length ds - k) ds @ ''.'' @ drop (length ds - k) ds)"

definition fmt_e :: "int \<times> int \<Rightarrow> string" where
  "fmt_e = (\<lambda>(m, e).
     let ds = nat_digits (nat m); ex = int (length ds) - 1 + e in
     hd ds # (if tl ds = [] then [] else CHR ''.'' # tl ds) @
       (if ex < 0 then ''e-'' else ''e+'') @ nat_digits (nat \<bar>ex\<bar>))"

text \<open>A \<open>float32\<close> in JSON: infinities and NaN are refused.\<close>

definition float_text :: "rat \<Rightarrow> string" where
  "float_text x =
     (if x = 0 then ''0''
      else (if x < 0 then ''-'' else []) @
        (if \<bar>x\<bar> < rnd (1 / 10 ^ 6) \<or> rnd (10 ^ 21) \<le> \<bar>x\<bar> then fmt_e (shortest \<bar>x\<bar>) else fmt_f (shortest \<bar>x\<bar>)))"

definition json_f32 :: "f32 \<Rightarrow> err + json" where
  "json_f32 b = (case b of Fin x \<Rightarrow> Inr (JNum (float_text x)) | _ \<Rightarrow> Inl (Err ''json: unsupported value''))"

definition jd_f32 :: "f32 jdec" where
  "jd_f32 j old =
     (case j of
        JNum l \<Rightarrow> (case mk32 (lit_value l) of Fin x \<Rightarrow> (Fin x, False) | _ \<Rightarrow> (old, True))
      | JNull \<Rightarrow> (old, False)
      | _ \<Rightarrow> (old, True))"


subsection \<open>The numbers that a float32 holds\<close>

text \<open>Every multiple of a power of two with at most 24 bits is kept by rounding.\<close>

lemma rnd_grid_pos:
  assumes "0 < n" "n < 16777216" "- 149 \<le> e"
  shows "rnd (of_int n * pow2 e) = of_int n * pow2 e"
proof -
  define x where "x = of_int n * pow2 e"
  have x: "0 < x" using assms(1) by (simp add: x_def)
  have n: "(of_int n :: rat) < 16777216"
    using assms(2) of_int_less_iff [of n 16777216, where 'a = rat] by simp
  have "pow2 (ilog2 x) \<le> x" using ilog2_bounds(1) [OF x] .
  also have "x < 16777216 * pow2 e" using n by (simp add: x_def)
  also have "\<dots> = pow2 (e + 24)" using pow2_add_nat [of e 24] by simp
  finally have "ilog2 x \<le> e + 23" by (simp add: pow2_less_iff)
  then obtain k where k: "e = (max (ilog2 x) (-126) - 23) + int k"
    using assms(3) zle_iff_zadd [of "max (ilog2 x) (-126) - 23" e] by auto
  have u: "ulp x = pow2 (max (ilog2 x) (-126) - 23)" using x by (simp add: ulp_def)
  have "pow2 e = 2 ^ k * ulp x" unfolding u using pow2_add_nat [of "max (ilog2 x) (-126) - 23" k] k by simp
  then have eq: "x = of_int (n * 2 ^ k) * ulp x" by (simp add: x_def [symmetric]) (simp add: x_def)
  then have "x / ulp x = of_int (n * 2 ^ k)" using ulp_pos [of x] by (metis nonzero_mult_div_cancel_right less_irrefl)
  then have "round_even (x / ulp x) = n * 2 ^ k" by (simp only: round_even_int)
  then have "rnd x = x" using x eq by (simp add: rnd_def)
  then show ?thesis by (simp only: x_def)
qed

lemma rnd_grid:
  assumes "\<bar>n\<bar> \<le> 16777216" "- 149 \<le> e"
  shows "rnd (of_int n * pow2 e) = of_int n * pow2 e"
proof -
  have pos: "rnd (of_int m * pow2 e) = of_int m * pow2 e" if "0 < m" "m \<le> 16777216" for m
  proof (cases "m = 16777216")
    case True
    have "rnd (of_int 8388608 * pow2 (e + 1)) = of_int 8388608 * pow2 (e + 1)"
      using assms(2) by (intro rnd_grid_pos) simp_all
    with True show ?thesis by (simp add: pow2_Suc)
  next
    case False
    with that assms(2) show ?thesis by (intro rnd_grid_pos) simp_all
  qed
  consider "0 < n" | "n = 0" | "n < 0" by linarith
  then show ?thesis
  proof cases
    case 3
    then have "rnd (of_int (- n) * pow2 e) = of_int (- n) * pow2 e" using assms(1) by (intro pos) simp_all
    then show ?thesis using rnd_minus [of "of_int n * pow2 e"] by simp
  qed (use assms pos in auto)
qed

lemma rnd_on_grid: "\<exists>n e. rnd x = of_int n * pow2 e \<and> \<bar>n\<bar> \<le> 16777216 \<and> - 149 \<le> e"
proof -
  have pos: "\<exists>n. rnd x = of_int n * ulp x \<and> 0 \<le> n \<and> n \<le> 16777216" if x: "0 < x" for x
  proof -
    let ?e = "max (ilog2 x) (-126)"
    have u: "ulp x = pow2 (?e - 23)" using x by (simp add: ulp_def)
    have r: "rnd x = of_int (round_even (x / ulp x)) * ulp x" using x by (simp add: rnd_def)
    have "rnd x \<le> pow2 (?e + 1)" by (rule rnd_le_binade [OF x refl])
    also have "\<dots> = 16777216 * ulp x" using pow2_add_nat [of "?e - 23" 24] by (simp add: u add.commute)
    finally have "of_int (round_even (x / ulp x)) \<le> (16777216 :: rat)" by (simp add: r)
    then have "round_even (x / ulp x) \<le> 16777216"
      using of_int_le_iff [of "round_even (x / ulp x)" 16777216, where 'a = rat] by simp
    moreover have "0 \<le> round_even (x / ulp x)"
      using rnd_nonneg [of x] x r ulp_pos [of x] by (auto simp: zero_le_mult_iff simp del: ulp_pos)
    ultimately show ?thesis using r by blast
  qed
  have e: "\<exists>e. ulp y = pow2 e \<and> - 149 \<le> e" for y
    by (intro exI [of _ "max (ilog2 \<bar>y\<bar>) (-126) - 23"]) (simp add: ulp_def)
  consider "0 < x" | "x = 0" | "x < 0" by linarith
  then show ?thesis
  proof cases
    case 1
    then show ?thesis using pos [of x] e [of x] by force
  next
    case 2
    then show ?thesis by (intro exI [of _ 0] exI [of _ 0]) simp
  next
    case 3
    then obtain n where n: "rnd (- x) = of_int n * ulp (- x)" "0 \<le> n" "n \<le> 16777216" using pos [of "- x"] by auto
    obtain e where "ulp (- x) = pow2 e" "- 149 \<le> e" using e by blast
    with n show ?thesis by (intro exI [of _ "- n"] exI [of _ e]) (simp add: rnd_minus)
  qed
qed

lemma rnd_idem [simp]: "rnd (rnd x) = rnd x"
proof -
  obtain n e where "rnd x = of_int n * pow2 e" "\<bar>n\<bar> \<le> 16777216" "- 149 \<le> e" using rnd_on_grid by blast
  then show ?thesis using rnd_grid [of n e] by simp
qed

definition is_f32 :: "rat \<Rightarrow> bool" where
  "is_f32 x \<longleftrightarrow> rnd x = x \<and> \<bar>x\<bar> < 2 ^ 128"

lemma mk32_is_f32: "mk32 x = Fin y \<Longrightarrow> is_f32 y"
  by (auto simp: mk32_def is_f32_def abs_less_iff split: if_splits)

lemma mk32_id: "is_f32 x \<Longrightarrow> mk32 x = Fin x"
  by (auto simp: mk32_def is_f32_def abs_less_iff)

subsection \<open>Digits\<close>

lemma digits_nat_simps [simp]:
  "digits_nat [] = 0"
  "digits_nat (s @ [c]) = 10 * digits_nat s + (case digit_val c of None \<Rightarrow> 0 | Some d \<Rightarrow> d)"
  by (simp_all add: digits_nat_def)

lemma digits_nat_append: "digits_nat (a @ b) = digits_nat a * 10 ^ length b + digits_nat b"
  by (induction b rule: rev_induct) (simp_all add: algebra_simps flip: append_assoc)

lemma digits_nat_nat_digits [simp]: "digits_nat (nat_digits n) = n"
proof (induction n rule: nat_digits.induct)
  case (1 n)
  show ?case
  proof (cases "n < 10")
    case True
    then show ?thesis using digits_nat_simps(2) [of "[]"] by (simp add: nat_digits.simps [of n])
  next
    case False
    with 1 show ?thesis by (simp add: nat_digits.simps [of n])
  qed
qed

lemma digit_val_zero [simp]: "digit_val (CHR ''0'') = Some 0"
  using digit_val_digit_char [of 0] by (simp add: digit_char_def)

lemma digits_nat_zeros [simp]: "digits_nat (replicate k (CHR ''0'')) = 0"
  by (induction k) (simp_all add: digits_nat_def)

lemma ten_pow_pos [simp]: "0 < ten_pow e"
  by (simp add: ten_pow_def)

lemma ten_pow_add_nat: "ten_pow (e + int k) = 10 ^ k * ten_pow e"
proof (cases "0 \<le> e")
  case True
  then show ?thesis by (simp add: ten_pow_def nat_add_distrib power_add)
next
  case False
  show ?thesis
  proof (cases "0 \<le> e + int k")
    case True
    then have "k = nat (e + int k) + nat (- e)" using False by simp
    then have "(10 :: rat) ^ k = 10 ^ nat (e + int k) * 10 ^ nat (- e)" using power_add by metis
    with True False show ?thesis by (simp add: ten_pow_def)
  next
    case F: False
    then have "nat (- e) = k + nat (- (e + int k))" by simp
    then have "(10 :: rat) ^ nat (- e) = 10 ^ k * 10 ^ nat (- (e + int k))" using power_add by metis
    with F False show ?thesis by (simp add: ten_pow_def)
  qed
qed

lemma strip_zeros_value:
  assumes "0 < m" "strip_zeros (m, e) = (m', e')"
  shows "0 < m' \<and> of_int m' * ten_pow e' = of_int m * ten_pow e"
proof -
  let ?z = "\<lambda>c. c = CHR ''0''" and ?d = "nat_digits (nat m)"
  define k where "k = length (takeWhile ?z (rev ?d))"
  define a where "a = rev (dropWhile ?z (rev ?d))"
  have "takeWhile ?z (rev ?d) = replicate k (CHR ''0'')"
    unfolding k_def by (intro replicate_eqI) (auto dest: set_takeWhileD)
  then have "rev ?d = replicate k (CHR ''0'') @ rev a" by (metis a_def rev_rev_ident takeWhile_dropWhile_id)
  then have d: "?d = a @ replicate k (CHR ''0'')" by (metis rev_append rev_replicate rev_rev_ident)
  have "nat m = digits_nat a * 10 ^ k" using digits_nat_nat_digits [of "nat m"] by (simp add: d digits_nat_append)
  then have m: "m = int (digits_nat a) * 10 ^ k" using assms(1) by (metis int_nat_eq less_imp_le of_nat_mult of_nat_numeral of_nat_power)
  have "m' = m div 10 ^ k" "e' = e + int k" using assms(2) by (simp_all add: strip_zeros_def Let_def k_def)
  with m assms(1) show ?thesis by (simp add: ten_pow_add_nat zero_less_mult_iff)
qed

subsection \<open>The digits denote the number\<close>

lemma exact_decimal_value:
  assumes "0 < x" "rnd x = x" "exact_decimal x = (m, e)"
  shows "0 < m \<and> of_int m * ten_pow e = x"
proof -
  define ex where "ex = max (ilog2 x) (-126) - 23"
  have "ulp x = pow2 ex" using assms(1) by (simp add: ulp_def ex_def)
  then obtain r where r: "x = of_int r * pow2 ex" using assms(1,2) unfolding rnd_def by (metis less_irrefl)
  show ?thesis
  proof (cases "0 \<le> ex")
    case True
    then have x: "x = of_int (r * 2 ^ nat ex)" using r by (simp add: pow2_def)
    have "m = \<lfloor>x\<rfloor>" "e = 0" using assms(3) True by (simp_all add: exact_decimal_def Let_def flip: ex_def)
    then have "of_int m = x" "e = 0" using x by (simp_all only: floor_of_int)
    then show ?thesis using assms(1) by (auto simp: ten_pow_def)
  next
    case False
    then have x: "x * 10 ^ nat (- ex) = of_int (r * 5 ^ nat (- ex))"
      using r power_mult_distrib [of "2 :: rat" 5 "nat (- ex)"] by (simp add: pow2_def)
    have m: "m = \<lfloor>x * 10 ^ nat (- ex)\<rfloor>" "e = ex" using assms(3) False by (auto simp: exact_decimal_def Let_def simp flip: ex_def)
    then have "of_int m = x * 10 ^ nat (- ex)" using x by (simp only: floor_of_int)
    moreover have "0 < x * 10 ^ nat (- ex)" using assms(1) by simp
    ultimately show ?thesis using m(2) False by (auto simp: ten_pow_def)
  qed
qed

lemma shortest_value:
  assumes "0 < x" "rnd x = x" "shortest x = (m, e)"
  shows "0 < m \<and> rnd (of_int m * ten_pow e) = x"
proof (cases "List.find (\<lambda>(m, e). rnd (of_int m * ten_pow e) = x) (concat (map (\<lambda>n. decimals n x) [1..<10]))")
  case None
  obtain m0 e0 where "exact_decimal x = (m0, e0)" by fastforce
  with exact_decimal_value [OF assms(1,2) this] strip_zeros_value [of m0 e0 m e] assms None show ?thesis
    by (simp add: shortest_def)
next
  case (Some d)
  obtain m0 e0 where d: "d = (m0, e0)" by fastforce
  with Some have r: "rnd (of_int m0 * ten_pow e0) = x" and "d \<in> set (concat (map (\<lambda>n. decimals n x) [1..<10]))"
    by (auto simp: find_Some_iff set_conv_nth)
  then obtain n where "(m0, e0) \<in> set (decimals n x)" using d by auto
  moreover have "0 \<le> x / ten_pow z" "- 1 < x / ten_pow z" for z
    using assms(1) less_trans [of "- 1" 0 "x / ten_pow z"] by (simp_all add: less_imp_le)
  ultimately have "0 \<le> m0" by (auto simp: decimals_def Let_def split: if_splits)
  moreover have "m0 \<noteq> 0" using r assms(1) by auto
  ultimately show ?thesis using r strip_zeros_value [of m0 e0 m e] assms(3) Some d by (simp add: shortest_def)
qed

subsection \<open>The text denotes the number\<close>

text \<open>A literal with its integer part, its fraction and its exponent.\<close>

definition literal :: "string \<Rightarrow> string \<Rightarrow> string \<Rightarrow> string" where
  "literal ip fp ex = ip @ (if fp = [] then [] else CHR ''.'' # fp) @ ex"

definition exponent_ok :: "string \<Rightarrow> bool" where
  "exponent_ok ex \<longleftrightarrow> ex = [] \<or> (\<exists>sg ds. ex = CHR ''e'' # sg # ds \<and> sg \<in> {CHR ''+'', CHR ''-''} \<and> ds \<noteq> [] \<and> list_all is_digit ds)"

lemma not_digits [simp]:
  "\<not> is_digit (CHR ''.'')" "\<not> is_digit (CHR ''e'')" "\<not> is_digit (CHR ''-'')" "\<not> is_digit (CHR ''+'')"
  by (simp_all add: is_digit_def digit_val_def)

lemma exponent_ok_head: "exponent_ok ex \<Longrightarrow> ex = [] \<or> \<not> is_digit (hd ex)"
  by (auto simp: exponent_ok_def)

lemma digits_span:
  "list_all is_digit ds \<Longrightarrow> r = [] \<or> \<not> is_digit (hd r) \<Longrightarrow> takeWhile is_digit (ds @ r) = ds \<and> dropWhile is_digit (ds @ r) = r"
  using takeWhile_append_stop [of ds is_digit r] dropWhile_append_stop [of ds is_digit r] by (auto simp: list_all_iff)

lemma digit_not_minus: "is_digit c \<Longrightarrow> c \<noteq> CHR ''-''"
  by auto

lemma lit_value_literal:
  assumes "list_all is_digit ip" "ip \<noteq> []" "list_all is_digit fp" "exponent_ok ex"
  shows "lit_value (literal ip fp ex) = of_nat (digits_nat (ip @ fp)) * ten_pow (lit_exponent ex - int (length fp))"
proof -
  define r where "r = (if fp = [] then [] else CHR ''.'' # fp) @ ex"
  have sp: "takeWhile is_digit (ip @ r) = ip" "dropWhile is_digit (ip @ r) = r"
    using digits_span [OF assms(1), of r] exponent_ok_head [OF assms(4)] by (auto simp: r_def split: if_splits)
  have fr: "(if has_prefix r ''.'' then takeWhile is_digit (tl r) else []) = fp \<and>
      (if has_prefix r ''.'' then dropWhile is_digit (tl r) else r) = ex"
    using digits_span [OF assms(3) exponent_ok_head [OF assms(4)]] assms(4) by (auto simp: exponent_ok_def r_def)
  obtain c t where "ip = c # t" "is_digit c" using assms(1,2) by (cases ip) auto
  then have "\<not> has_prefix (literal ip fp ex) ''-''" using digit_not_minus by (auto simp: literal_def)
  then show ?thesis
    using sp fr by (cases "has_prefix r ''.''") (auto simp: lit_value_def literal_def trim_prefix_def ten_pow_def Let_def simp flip: r_def)
qed

lemma json_num_literal:
  assumes "list_all is_digit ip" "ip = ''0'' \<or> ip \<noteq> [] \<and> hd ip \<noteq> CHR ''0''" "list_all is_digit fp" "exponent_ok ex"
  shows "json_num (literal ip fp ex)"
proof -
  define r where "r = (if fp = [] then [] else CHR ''.'' # fp) @ ex"
  have lit: "literal ip fp ex = ip @ r" by (simp add: literal_def r_def)
  have sp: "takeWhile is_digit (ip @ r) = ip" "dropWhile is_digit (ip @ r) = r"
    using digits_span [OF assms(1), of r] exponent_ok_head [OF assms(4)] by (auto simp: r_def split: if_splits)
  obtain c t where c: "ip = c # t" "is_digit c" using assms(1,2) by (cases ip) auto
  then have "c \<noteq> CHR ''-''" by (simp add: digit_not_minus)
  then have "(case literal ip fp ex of c # t \<Rightarrow> if c = CHR ''-'' then ([c], t) else ([], literal ip fp ex) | [] \<Rightarrow> ([], [])) =
      ([], ip @ r)"
    unfolding lit by (simp add: c(1))
  moreover have "parse_digits (ip @ r) = Some (ip, r)"
    using assms(2) sp c by (auto simp: parse_digits_def)
  moreover have "parse_frac r = Some (if fp = [] then [] else CHR ''.'' # fp, ex)"
    using digits_span [OF assms(3) exponent_ok_head [OF assms(4)]] assms(4)
    by (auto simp: parse_frac_def exponent_ok_def r_def split: list.splits)
  moreover have "parse_exp ex = Some (ex, [])"
  proof -
    have "takeWhile is_digit ds = ds \<and> dropWhile is_digit ds = []" if "list_all is_digit ds" for ds
      using digits_span [OF that, of "[]"] by simp
    moreover have "takeWhile is_digit ds \<noteq> []" if "list_all is_digit ds" "ds \<noteq> []" for ds
      using that by (cases ds) auto
    ultimately show ?thesis using assms(4) by (auto simp: parse_exp_def exponent_ok_def)
  qed
  moreover have "ip @ (if fp = [] then [] else CHR ''.'' # fp) @ ex = literal ip fp ex" by (simp add: literal_def)
  ultimately show ?thesis unfolding json_num_def parse_number_def by (simp only: Let_def prod.case option.case append_Nil)
qed

lemma nat_digits_digits [simp]: "list_all is_digit (nat_digits n)"
  using nat_digits_is_digit by (auto simp: list_all_iff)

lemma zeros_digits [simp]: "list_all is_digit (replicate k (CHR ''0''))"
  using is_digit_digit_char [of 0] by (simp add: list_all_iff digit_char_def)

lemma list_all_take_drop: "list_all P xs \<Longrightarrow> list_all P (take k xs) \<and> list_all P (drop k xs)"
  by (auto simp: list_all_iff dest: in_set_takeD in_set_dropD)

lemma fmt_f_literal:
  assumes "0 < m"
  shows "\<exists>ip fp. fmt_f (m, e) = literal ip fp [] \<and> list_all is_digit ip \<and> (ip = ''0'' \<or> ip \<noteq> [] \<and> hd ip \<noteq> CHR ''0'') \<and>
    list_all is_digit fp \<and> of_nat (digits_nat (ip @ fp)) * ten_pow (- int (length fp)) = of_int m * ten_pow e"
proof -
  let ?ds = "nat_digits (nat m)" and ?k = "nat (- e)"
  have m: "(of_nat (nat m) :: rat) = of_int m" using assms by simp
  have hd: "hd ?ds \<noteq> CHR ''0''" using assms by (simp add: hd_nat_digits)
  consider "0 \<le> e" | "e < 0" "length ?ds \<le> ?k" | "e < 0" "?k < length ?ds" by linarith
  then show ?thesis
  proof cases
    case 1
    then show ?thesis using m hd
      by (intro exI [of _ "?ds @ replicate (nat e) (CHR ''0'')"] exI [of _ "[]"])
        (simp add: fmt_f_def literal_def digits_nat_append ten_pow_def Let_def)
  next
    case 2
    have "digits_nat (''0'' @ replicate (?k - length ?ds) (CHR ''0'') @ ?ds) = nat m"
      using digits_nat_append [of "''0''" "replicate (?k - length ?ds) (CHR ''0'') @ ?ds"] digits_nat_simps(2) [of "[]" "CHR ''0''"]
      by (simp add: digits_nat_append)
    then show ?thesis using 2 m is_digit_digit_char [of 0]
      by (intro exI [of _ "''0''"] exI [of _ "replicate (?k - length ?ds) (CHR ''0'') @ ?ds"])
        (simp add: fmt_f_def literal_def Let_def digit_char_def)
  next
    case 3
    then show ?thesis using m hd list_all_take_drop [OF nat_digits_digits]
      by (intro exI [of _ "take (length ?ds - ?k) ?ds"] exI [of _ "drop (length ?ds - ?k) ?ds"])
        (simp add: fmt_f_def literal_def Let_def)
  qed
qed

lemma fmt_e_literal:
  assumes "0 < m"
  shows "\<exists>ip fp ex. fmt_e (m, e) = literal ip fp ex \<and> list_all is_digit ip \<and> ip \<noteq> [] \<and> hd ip \<noteq> CHR ''0'' \<and>
    list_all is_digit fp \<and> exponent_ok ex \<and>
    of_nat (digits_nat (ip @ fp)) * ten_pow (lit_exponent ex - int (length fp)) = of_int m * ten_pow e"
proof -
  let ?ds = "nat_digits (nat m)"
  define x where "x = int (length ?ds) - 1 + e"
  define ex where "ex = (if x < 0 then ''e-'' else ''e+'') @ nat_digits (nat \<bar>x\<bar>)"
  have m: "(of_nat (nat m) :: rat) = of_int m" using assms by simp
  obtain c t where c: "?ds = c # t" by (cases ?ds) auto
  have hd: "c \<noteq> CHR ''0''" "list_all is_digit (c # t)" using assms hd_nat_digits [of "nat m"] nat_digits_digits [of "nat m"] by (simp_all add: c)
  have "exponent_ok ex" by (auto simp: exponent_ok_def ex_def)
  moreover have "lit_exponent ex = x" by (auto simp: lit_exponent_def ex_def)
  moreover have "fmt_e (m, e) = literal [c] t ex" by (simp add: fmt_e_def literal_def c ex_def x_def Let_def)
  moreover have "x - int (length t) = e" by (simp add: x_def c)
  moreover have "digits_nat ([c] @ t) = nat m" using c digits_nat_nat_digits [of "nat m"] by simp
  ultimately show ?thesis using hd m by (intro exI [of _ "[c]"] exI [of _ t] exI [of _ ex]) simp
qed

text \<open>The two formats: a JSON number without a sign, whose value is the one of the digits.\<close>

lemma decimal_text:
  assumes "0 < m" "l = fmt_f (m, e) \<or> l = fmt_e (m, e)"
  shows "json_num l \<and> lit_value l = of_int m * ten_pow e \<and> (\<exists>c t. l = c # t \<and> is_digit c)"
proof -
  obtain ip fp ex where l: "l = literal ip fp ex" "list_all is_digit ip" "ip = ''0'' \<or> ip \<noteq> [] \<and> hd ip \<noteq> CHR ''0''"
    "list_all is_digit fp" "exponent_ok ex"
    and v: "of_nat (digits_nat (ip @ fp)) * ten_pow (lit_exponent ex - int (length fp)) = of_int m * ten_pow e"
  proof (cases "l = fmt_f (m, e)")
    case True
    then show ?thesis using fmt_f_literal [OF assms(1), of e] that [of _ _ "[]"] by (auto simp: exponent_ok_def lit_exponent_def)
  next
    case False
    then show ?thesis using fmt_e_literal [OF assms(1), of e] that assms(2) by blast
  qed
  have "ip \<noteq> []" using l(3) by auto
  then show ?thesis
    using lit_value_literal [OF l(2) _ l(4,5)] json_num_literal [OF l(2,3,4,5)] v l(1,2) by (cases ip) (auto simp: literal_def)
qed

lemma lit_value_minus: "l = c # t \<Longrightarrow> is_digit c \<Longrightarrow> lit_value (CHR ''-'' # l) = - lit_value l"
  using digit_not_minus by (auto simp: lit_value_def trim_prefix_def Let_def)

lemma json_num_minus: "l = c # t \<Longrightarrow> is_digit c \<Longrightarrow> json_num l \<Longrightarrow> json_num (CHR ''-'' # l)"
  using digit_not_minus by (auto simp: json_num_def parse_number_def split: option.splits)

text \<open>A \<open>float32\<close> is read back as it was.\<close>

lemma float_text_roundtrip:
  assumes "rnd x = x"
  shows "json_num (float_text x) \<and> rnd (lit_value (float_text x)) = x"
proof (cases "x = 0")
  case True
  have "json_num ''0''" using json_num_literal [of "''0''" "[]" "[]"] zeros_digits [of 1] by (simp add: literal_def exponent_ok_def)
  moreover have "lit_value ''0'' = 0" using lit_value_literal [of "''0''" "[]" "[]"] zeros_digits [of 1] digits_nat_zeros [of 1]
    by (simp add: literal_def exponent_ok_def)
  ultimately show ?thesis using True by (simp add: float_text_def)
next
  case False
  then have y: "0 < \<bar>x\<bar>" "rnd \<bar>x\<bar> = \<bar>x\<bar>" using assms rnd_minus [of x] by (auto simp: abs_if)
  obtain m e where d: "shortest \<bar>x\<bar> = (m, e)" by fastforce
  define l where "l = (if \<bar>x\<bar> < rnd (1 / 10 ^ 6) \<or> rnd (10 ^ 21) \<le> \<bar>x\<bar> then fmt_e (m, e) else fmt_f (m, e))"
  have m: "0 < m" "rnd (of_int m * ten_pow e) = \<bar>x\<bar>" using shortest_value [OF y d] by simp_all
  have "l = fmt_f (m, e) \<or> l = fmt_e (m, e)" by (simp add: l_def)
  from decimal_text [OF m(1) this] obtain c t where
    l: "json_num l" "lit_value l = of_int m * ten_pow e" "l = c # t" "is_digit c" by blast
  have "float_text x = (if x < 0 then ''-'' else []) @ l" using False by (simp add: float_text_def d l_def)
  then show ?thesis
    using l m(2) lit_value_minus [OF l(3,4)] json_num_minus [OF l(3,4,1)] by (auto simp: rnd_minus)
qed

lemma jd_f32_roundtrip:
  assumes "is_f32 x" "json_f32 (Fin x) = Inr j"
  shows "json_nums j \<and> jd_f32 (fix_json j) old = (Fin x, False)"
proof -
  have "rnd x = x" using assms(1) by (simp add: is_f32_def)
  from float_text_roundtrip [OF this] have t: "json_num (float_text x)" "rnd (lit_value (float_text x)) = x" by simp_all
  then have "mk32 (lit_value (float_text x)) = Fin x" using mk32_id [OF assms(1)] assms(1) by (auto simp: mk32_def is_f32_def)
  with t assms(2) show ?thesis by (auto simp: json_f32_def jd_f32_def)
qed

end
