(* ===== verification/Time_Sources.thy ===== *)
theory Time_Sources
  imports Abci_Transactions_Correct Go_Net Go_Float_Text "HOL-Library.Signed_Division"
begin

text \<open>
  What a Core polls and the identifiers it makes from it: the randomness beacon
  (\<open>src/beacon/drand.go\<close>), the third-party fee estimate (\<open>src/fee/bitcoinerlive.go\<close>), the seeding
  of the generator of proof ids (\<open>src/ulidthreadsafe/threadsafe_ulid.go\<close>) and the analytics events
  (\<open>src/analytics/analytics.go\<close>). The answer of a server is an argument, its body or an error.

  The property says that the generator is seeded with one of sixteen values.
\<close>

subsection \<open>Decoding a body\<close>

text \<open>\<open>json.NewDecoder(..).Decode\<close>: the first value of the stream.\<close>

definition json_decode :: "'a jdec \<Rightarrow> 'a \<Rightarrow> string \<Rightarrow> 'a \<times> bool" where
  "json_decode d zero s =
     (case parse_value (2 * length s + 2) (skip_ws s) of None \<Rightarrow> (zero, True) | Some (j, _) \<Rightarrow> d j zero)"

definition jd_uint64 :: "nat jdec" where
  "jd_uint64 j old =
     (case j of
        JNum l \<Rightarrow> (case parse_uint 0 l of Inl _ \<Rightarrow> (old, True) | Inr n \<Rightarrow> (n, False))
      | JNull \<Rightarrow> (old, False)
      | _ \<Rightarrow> (old, True))"

text \<open>A \<open>float64\<close>: the number nearest to the literal with 53 significant bits.\<close>

definition rnd64 :: "rat \<Rightarrow> rat" where
  "rnd64 x =
     (if x = 0 then 0
      else (let u = pow2 (max (ilog2 \<bar>x\<bar>) (-1022) - 52) in of_int (round_even (x / u)) * u))"

definition jd_float64 :: "rat jdec" where
  "jd_float64 j old =
     (case j of
        JNum l \<Rightarrow> (let x = rnd64 (lit_value l) in if 2 ^ 1024 \<le> \<bar>x\<bar> then (old, True) else (x, False))
      | JNull \<Rightarrow> (old, False)
      | _ \<Rightarrow> (old, True))"

text \<open>\<open>int64(f)\<close>, truncated; out of range it is the least integer, as on amd64.\<close>

definition float_to_i64 :: "rat \<Rightarrow> int" where
  "float_to_i64 x =
     (let n = (if 0 \<le> x then \<lfloor>x\<rfloor> else \<lceil>x\<rceil>) in if is_i64 n then n else - (2 ^ 63))"

subsection \<open>The beacon\<close>

record Round =
  rd_Round :: nat
  rd_Randomness :: string
  rd_Signature :: string
  rd_PreviousSignature :: string

definition Round_zero :: Round where
  "Round_zero = \<lparr>rd_Round = 0, rd_Randomness = [], rd_Signature = [], rd_PreviousSignature = []\<rparr>"

definition jd_Round :: "Round jdec" where
  "jd_Round = jd_struct
     [(''round'', jfield jd_uint64 rd_Round rd_Round_update),
      (''randomness'', jfield jd_string rd_Randomness rd_Randomness_update),
      (''signature'', jfield jd_string rd_Signature rd_Signature_update),
      (''previous_signature'', jfield jd_string rd_PreviousSignature rd_PreviousSignature_update)]"

definition GetCloudflareRandomness :: "err + bytes \<Rightarrow> nat \<times> string \<times> err option" where
  "GetCloudflareRandomness resp =
     (case resp of
        Inl e \<Rightarrow> (0, [], Some e)
      | Inr body \<Rightarrow>
          (case json_decode jd_Round Round_zero body of (rd, err) \<Rightarrow>
             if err then (0, [], Some (Err ''json'')) else (rd_Round rd, rd_Randomness rd, None)))"

text \<open>The group file: whether it has the distributed key, and its nodes with their address and
  whether they use TLS. \<open>ask\<close> is what connecting to a node and asking it gives.\<close>

record Group =
  gr_PublicKey :: bool
  gr_Nodes :: "(string \<times> bool) list"

definition getNodes :: "err + Group \<Rightarrow> err + (string \<times> bool) list" where
  "getNodes gr =
     bind_err gr (\<lambda>g. if length (gr_Nodes g) = 0 then Inl (Err ''no nodes'') else Inr (gr_Nodes g))"

fun ask_nodes :: "(string \<times> bool \<Rightarrow> err + (err + nat \<times> bytes)) \<Rightarrow> (string \<times> bool) list \<Rightarrow> (nat \<times> bytes) option" where
  "ask_nodes ask [] = None"
| "ask_nodes ask (i # ids) =
     (case ask i of
        Inl e \<Rightarrow> None
      | Inr (Inl e) \<Rightarrow> ask_nodes ask ids
      | Inr (Inr resp) \<Rightarrow> Some resp)"

definition GetPublicRandomness ::
  "err + Group \<Rightarrow> (string \<times> bool \<Rightarrow> err + (err + nat \<times> bytes)) \<Rightarrow> nat \<times> string \<times> err option" where
  "GetPublicRandomness gr ask =
     (case getNodes gr of
        Inl e \<Rightarrow> (0, [], None)
      | Inr ids \<Rightarrow>
         (case gr of
            Inl e \<Rightarrow> (0, [], None)
          | Inr g \<Rightarrow>
              if \<not> gr_PublicKey g then (0, [], Some (Err ''drand: group file must contain the distributed public key''))
              else (case ask_nodes ask ids of
                      None \<Rightarrow> (0, [], Some (Err ''drand: could not verify randomness''))
                    | Some (n, randomness) \<Rightarrow> (n, hex_encode randomness, None))))"

subsection \<open>The fee estimate\<close>

record FeeUnits =
  fu_Usd :: rat
  fu_Satoshi :: rat

record FeeTotal =
  ft_P2Wpkh :: FeeUnits
  ft_P2ShP2Wpkh :: FeeUnits
  ft_P2Pkh :: FeeUnits

record Estimate =
  SatPerVbyte :: rat
  est_Total :: FeeTotal

record Estimates =
  Num30 :: Estimate
  Num60 :: Estimate
  Num120 :: Estimate
  Num180 :: Estimate
  Num360 :: Estimate
  Num720 :: Estimate
  Num1440 :: Estimate

record BitcoinerFee =
  bf_Timestamp :: int
  bf_Estimates :: Estimates

definition BitcoinerFee_zero :: BitcoinerFee where
  "BitcoinerFee_zero =
     (let u = \<lparr>fu_Usd = 0, fu_Satoshi = 0\<rparr>;
          e = \<lparr>SatPerVbyte = 0, est_Total = \<lparr>ft_P2Wpkh = u, ft_P2ShP2Wpkh = u, ft_P2Pkh = u\<rparr>\<rparr>
      in \<lparr>bf_Timestamp = 0, bf_Estimates = \<lparr>Num30 = e, Num60 = e, Num120 = e, Num180 = e, Num360 = e,
           Num720 = e, Num1440 = e\<rparr>\<rparr>)"

definition jd_FeeUnits :: "FeeUnits jdec" where
  "jd_FeeUnits = jd_struct
     [(''usd'', jfield jd_float64 fu_Usd fu_Usd_update),
      (''satoshi'', jfield jd_float64 fu_Satoshi fu_Satoshi_update)]"

definition jd_FeeTotal :: "FeeTotal jdec" where
  "jd_FeeTotal = jd_struct
     [(''p2wpkh'', jfield jd_FeeUnits ft_P2Wpkh ft_P2Wpkh_update),
      (''p2sh-p2wpkh'', jfield jd_FeeUnits ft_P2ShP2Wpkh ft_P2ShP2Wpkh_update),
      (''p2pkh'', jfield jd_FeeUnits ft_P2Pkh ft_P2Pkh_update)]"

definition jd_Estimate :: "Estimate jdec" where
  "jd_Estimate = jd_struct
     [(''sat_per_vbyte'', jfield jd_float64 SatPerVbyte SatPerVbyte_update),
      (''total'', jfield jd_FeeTotal est_Total est_Total_update)]"

definition jd_Estimates :: "Estimates jdec" where
  "jd_Estimates = jd_struct
     [(''30'', jfield jd_Estimate Num30 Num30_update), (''60'', jfield jd_Estimate Num60 Num60_update),
      (''120'', jfield jd_Estimate Num120 Num120_update), (''180'', jfield jd_Estimate Num180 Num180_update),
      (''360'', jfield jd_Estimate Num360 Num360_update), (''720'', jfield jd_Estimate Num720 Num720_update),
      (''1440'', jfield jd_Estimate Num1440 Num1440_update)]"

definition jd_BitcoinerFee :: "BitcoinerFee jdec" where
  "jd_BitcoinerFee = jd_struct
     [(''timestamp'', jfield jd_int bf_Timestamp bf_Timestamp_update),
      (''estimates'', jfield jd_Estimates bf_Estimates bf_Estimates_update)]"

text \<open>Four weight units make a virtual byte.\<close>

definition WitnessScaleFactor :: int where
  "WitnessScaleFactor = 4"

definition GetThirdPartyFeeEstimate :: "err + bytes \<Rightarrow> int \<times> err option" where
  "GetThirdPartyFeeEstimate resp =
     (case resp of
        Inl e \<Rightarrow> (0, Some e)
      | Inr body \<Rightarrow>
          (case json_decode jd_BitcoinerFee BitcoinerFee_zero body of (fee, err) \<Rightarrow>
             if err then (0, Some (Err ''json''))
             else (i64 (float_to_i64 (SatPerVbyte (Num30 (bf_Estimates fee))) * 1000) sdiv WitnessScaleFactor, None)))"

subsection \<open>The generator of proof ids\<close>

text \<open>\<open>binary.Varint\<close>; a buffer that ends too early gives 0.\<close>

definition unzigzag :: "nat \<Rightarrow> int" where
  "unzigzag ux = (let x = int (ux div 2) in if odd ux then - x - 1 else x)"

definition get_varint :: "bytes \<Rightarrow> int" where
  "get_varint b = (case get_uvarint b of None \<Rightarrow> 0 | Some (ux, _) \<Rightarrow> unzigzag ux)"

text \<open>The new seed. \<open>cap\<close> is the capacity of the byte slice of the text: a slice expression may
  reach beyond the length up to it, where the bytes are zero.\<close>

definition NewSeededEntropy :: "nat \<Rightarrow> string \<Rightarrow> err + int" where
  "NewSeededEntropy cap seed =
     (if 7 > max cap (length seed) then Inl (Panic ''slice bounds out of range'')
      else Inr (get_varint (take 7 (seed @ replicate 7 (CHR 0x00)))))"

subsection \<open>Analytics\<close>

text \<open>The form that an event posts; \<open>None\<close> when analytics are not configured.\<close>

definition SendEvent ::
  "string \<Rightarrow> string \<Rightarrow> string \<Rightarrow> string \<Rightarrow> string \<Rightarrow> string \<Rightarrow> string \<Rightarrow> string \<Rightarrow> string \<Rightarrow>
     err + (string \<times> string) list option" where
  "SendEvent category uaID drand action label cd1 cd2 cd3 ip =
     (if uaID = [] then Inr None
      else if drand = [] then Inl (Err ''analytics: no drand beacon yet'')
      else if category = [] \<or> action = [] then Inl (Err ''analytics: category and action are required'')
      else
        (let cid = (case split_on (CHR '':'') drand of [a, _] \<Rightarrow> a | _ \<Rightarrow> drand)
         in Inr (Some
           ([(''v'', ''1''), (''tid'', uaID), (''cid'', cid), (''t'', ''event''), (''ec'', category),
             (''ea'', action), (''ua'', ''Chp/4.0'')] @
            (if 7 \<le> length label then [(''el'', take 7 label)] else []) @
            (case SplitHostPort ip of
               Some (remoteIP, _) \<Rightarrow> [(''uip'', remoteIP)]
             | None \<Rightarrow> if ip \<noteq> [] then [(''uip'', ip)] else []) @
            (if cd1 \<noteq> [] then [(''cd1'', cd1)] else []) @ (if cd2 \<noteq> [] then [(''cd2'', cd2)] else []) @
            (if cd3 \<noteq> [] then [(''cd3'', cd3)] else [])))))"

subsection \<open>Properties\<close>

lemma get_varint_small: "of_char c < (128 :: nat) \<Longrightarrow> get_varint (c # s) = unzigzag (of_char c)"
  by (simp add: get_varint_def)

text \<open>Whatever the beacon delivers, the generator of proof ids is seeded with one of sixteen values:
  the seed is read from the bytes of the hexadecimal text, of which the first is complete.\<close>

theorem sixteen_seeds:
  "NewSeededEntropy cap ` {hex_encode b | b. length b = 32} \<subseteq> Inr ` unzigzag ` of_char ` set ''0123456789abcdef'' \<and>
    card (NewSeededEntropy cap ` {hex_encode b | b. length b = 32}) \<le> 16"
proof -
  let ?seeds = "Inr ` unzigzag ` of_char ` set ''0123456789abcdef'' :: (err + int) set"
  have small: "(of_char (hex_digit n) :: nat) < 128" if "n < 16" for n using of_char_hex_digit [OF that] that by simp
  have digits: "hex_digit n \<in> set ''0123456789abcdef''" if "n < 16" for n
  proof -
    have "list_all (\<lambda>n. hex_digit n \<in> set ''0123456789abcdef'') [0..<16]" by code_simp
    moreover have "n \<in> set [0..<16]" using that by simp
    ultimately show ?thesis unfolding list_all_iff by (rule bspec)
  qed
  have "NewSeededEntropy cap (hex_encode b) \<in> ?seeds" if len: "length b = 32" for b
  proof -
    obtain c b' where b: "b = c # b'" using len by (cases b) auto
    let ?d = "hex_digit (of_char c div 16)"
    have n: "(of_char c :: nat) div 16 < 16" using of_char_less [of c] by (simp add: less_mult_imp_div_less)
    have "\<exists>s. take 7 (hex_encode b @ replicate 7 (CHR 0x00)) = ?d # s" unfolding b by (simp add: Let_def)
    then have "NewSeededEntropy cap (hex_encode b) = Inr (unzigzag (of_char ?d))"
      using len get_varint_small [OF small [OF n]] by (auto simp: NewSeededEntropy_def)
    with digits [OF n] show ?thesis by blast
  qed
  then have sub: "NewSeededEntropy cap ` {hex_encode b | b. length b = 32} \<subseteq> ?seeds" by blast
  have "card ?seeds \<le> card (set ''0123456789abcdef'')" by (intro order.trans [OF card_image_le]) simp_all
  also have "\<dots> \<le> length ''0123456789abcdef''" by (rule card_length)
  finally have "card (NewSeededEntropy cap ` {hex_encode b | b. length b = 32}) \<le> 16"
    using card_mono [OF _ sub] by simp
  with sub show ?thesis by blast
qed

end
