(* ===== verification/State_Store.thy ===== *)
theory State_Store
  imports Time_Sources
begin

text \<open>
  The state of the application on disk: the JSON form of \<open>AnchorState\<close> (\<open>src/types/types.go\<close>) and
  \<open>loadState\<close> and \<open>saveState\<close> (\<open>src/abci/abci.go\<close>). The keys of the Cores, the identifiers, the
  validators and what the Tendermint and Lightning nodes said are not stored. A token bucket is a
  \<open>float32\<close>; one that is not finite has no JSON form, and saving the state then panics.

  That a state of the running program always has a JSON form is shown in \<open>Abci_System\<close>, that what
  was saved is read back in \<open>State_Roundtrip\<close>.
\<close>

subsection \<open>The JSON form of the state\<close>

text \<open>A byte slice is base64 text, the empty one \<open>null\<close>; the members of a map are sorted.\<close>

definition json_bytes :: "bytes \<Rightarrow> json" where
  "json_bytes b = (if b = [] then JNull else JStr (b64_encode b))"

definition jd_bytes :: "bytes jdec" where
  "jd_bytes j old =
     (case j of
        JStr s \<Rightarrow> (case b64_decode s of None \<Rightarrow> (old, True) | Some b \<Rightarrow> (b, False))
      | JNull \<Rightarrow> ([], False)
      | _ \<Rightarrow> (old, True))"

definition map_members :: "(string \<rightharpoonup> 'a) \<Rightarrow> (string \<times> 'a) list" where
  "map_members m = map (\<lambda>k. (k, the (m k))) (sorted_list_of_set (dom m))"

definition json_map :: "('a \<Rightarrow> err + json) \<Rightarrow> (string \<rightharpoonup> 'a) \<Rightarrow> err + json" where
  "json_map f m =
     bind_err (map_err (\<lambda>(k, x). bind_err (f x) (\<lambda>j. Inr (k, j))) (map_members m)) (\<lambda>ms. Inr (JObj ms))"

fun jd_map_members :: "'a jdec \<Rightarrow> 'a \<Rightarrow> (string \<times> json) list \<Rightarrow> (string \<rightharpoonup> 'a) \<Rightarrow> (string \<rightharpoonup> 'a) \<times> bool" where
  "jd_map_members d zero [] m = (m, False)"
| "jd_map_members d zero ((k, j) # ms) m =
     (let (x, e) = d j zero; (m', e') = jd_map_members d zero ms (m(k \<mapsto> x)) in (m', e \<or> e'))"

definition jd_map :: "'a jdec \<Rightarrow> 'a \<Rightarrow> (string \<rightharpoonup> 'a) jdec" where
  "jd_map d zero j old =
     (case j of JObj ms \<Rightarrow> jd_map_members d zero ms old | JNull \<Rightarrow> (Map.empty, False) | _ \<Rightarrow> (old, True))"

text \<open>Keys that are numbers: their text is the key; one that is not a number is refused.\<close>

definition int_keys :: "(int \<rightharpoonup> 'a) \<Rightarrow> (string \<rightharpoonup> 'a)" where
  "int_keys m k = (case parse_int_ok k of None \<Rightarrow> None | Some n \<Rightarrow> if format_int n = k then m n else None)"

fun jd_int_members :: "'a jdec \<Rightarrow> 'a \<Rightarrow> (string \<times> json) list \<Rightarrow> (int \<rightharpoonup> 'a) \<Rightarrow> (int \<rightharpoonup> 'a) \<times> bool" where
  "jd_int_members d zero [] m = (m, False)"
| "jd_int_members d zero ((k, j) # ms) m =
     (let (x, e) = d j zero;
          (m1, e1) = (case parse_int_ok k of None \<Rightarrow> (m, True) | Some n \<Rightarrow> (m(n \<mapsto> x), False));
          (m', e') = jd_int_members d zero ms m1
      in (m', e \<or> e1 \<or> e'))"

definition jd_int_map :: "'a jdec \<Rightarrow> 'a \<Rightarrow> (int \<rightharpoonup> 'a) jdec" where
  "jd_int_map d zero j old =
     (case j of JObj ms \<Rightarrow> jd_int_members d zero ms old | JNull \<Rightarrow> (Map.empty, False) | _ \<Rightarrow> (old, True))"

definition RateLimit_json :: "RateLimit \<Rightarrow> err + json" where
  "RateLimit_json l = bind_err (json_f32 (Bucket l)) (\<lambda>b. Inr (JObj
     [(''AllowedRate'', jint (AllowedRate l)), (''PerBlocks'', jint (PerBlocks l)),
      (''LastCheck'', jint (LastCheck l)), (''Bucket'', b)]))"

definition jd_RateLimit :: "RateLimit jdec" where
  "jd_RateLimit = jd_struct
     [(''AllowedRate'', jfield jd_int AllowedRate AllowedRate_update),
      (''PerBlocks'', jfield jd_int PerBlocks PerBlocks_update),
      (''LastCheck'', jfield jd_int LastCheck LastCheck_update),
      (''Bucket'', jfield jd_f32 Bucket Bucket_update)]"

definition TxValidation_json :: "TxValidation \<Rightarrow> err + json" where
  "TxValidation_json v =
     bind_err (RateLimit_json (JWKAllowedRate v)) (\<lambda>jwk.
     bind_err (RateLimit_json (CalAllowedRate v)) (\<lambda>cal.
     bind_err (RateLimit_json (BtcaAllowedRate v)) (\<lambda>btca.
     bind_err (RateLimit_json (BtccAllowedRate v)) (\<lambda>btcc.
     bind_err (RateLimit_json (NISTAllowedRate v)) (\<lambda>nist.
     bind_err (RateLimit_json (FeeAllowedRate v)) (\<lambda>fee.
     Inr (JObj
       [(''LastJWKTxHeight'', jint (LastJWKTxHeight v)),
        (''JWKAllowedRate'', jwk),
        (''JWKSubmissions'', jint (JWKSubmissions v)),
        (''LastCalTxHeight'', jint (LastCalTxHeight v)),
        (''CalAllowedRate'', cal),
        (''CalValidationSuccess'', jint (CalValidationSuccess v)),
        (''CalValidationFailures'', jint (CalValidationFailures v)),
        (''LastBtcaTxHeight'', jint (LastBtcaTxHeight v)),
        (''ConfirmedAnchors'', jint (ConfirmedAnchors v)),
        (''FailedAnchors'', jint (FailedAnchors v)),
        (''BtcaAllowedRate'', btca),
        (''LastBtccTxHeight'', jint (LastBtccTxHeight v)),
        (''BtccAllowedRate'', btcc),
        (''LastNISTTxHeight'', jint (LastNISTTxHeight v)),
        (''NISTAllowedRate'', nist),
        (''LastFeeTxHeight'', jint (LastFeeTxHeight v)),
        (''FeeAllowedRate'', fee),
        (''FeeValidationFailures'', jint (FeeValidationFailures v)),
        (''UnAuthValSubmissions'', jint (UnAuthValSubmissions v))])))))))"

definition jd_TxValidation :: "TxValidation jdec" where
  "jd_TxValidation = jd_struct
     [(''LastJWKTxHeight'', jfield jd_int LastJWKTxHeight LastJWKTxHeight_update),
      (''JWKAllowedRate'', jfield jd_RateLimit JWKAllowedRate JWKAllowedRate_update),
      (''JWKSubmissions'', jfield jd_int JWKSubmissions JWKSubmissions_update),
      (''LastCalTxHeight'', jfield jd_int LastCalTxHeight LastCalTxHeight_update),
      (''CalAllowedRate'', jfield jd_RateLimit CalAllowedRate CalAllowedRate_update),
      (''CalValidationSuccess'', jfield jd_int CalValidationSuccess CalValidationSuccess_update),
      (''CalValidationFailures'', jfield jd_int CalValidationFailures CalValidationFailures_update),
      (''LastBtcaTxHeight'', jfield jd_int LastBtcaTxHeight LastBtcaTxHeight_update),
      (''ConfirmedAnchors'', jfield jd_int ConfirmedAnchors ConfirmedAnchors_update),
      (''FailedAnchors'', jfield jd_int FailedAnchors FailedAnchors_update),
      (''BtcaAllowedRate'', jfield jd_RateLimit BtcaAllowedRate BtcaAllowedRate_update),
      (''LastBtccTxHeight'', jfield jd_int LastBtccTxHeight LastBtccTxHeight_update),
      (''BtccAllowedRate'', jfield jd_RateLimit BtccAllowedRate BtccAllowedRate_update),
      (''LastNISTTxHeight'', jfield jd_int LastNISTTxHeight LastNISTTxHeight_update),
      (''NISTAllowedRate'', jfield jd_RateLimit NISTAllowedRate NISTAllowedRate_update),
      (''LastFeeTxHeight'', jfield jd_int LastFeeTxHeight LastFeeTxHeight_update),
      (''FeeAllowedRate'', jfield jd_RateLimit FeeAllowedRate FeeAllowedRate_update),
      (''FeeValidationFailures'', jfield jd_int FeeValidationFailures FeeValidationFailures_update),
      (''UnAuthValSubmissions'', jfield jd_int UnAuthValSubmissions UnAuthValSubmissions_update)]"

definition AnchorState_json :: "AnchorState \<Rightarrow> err + json" where
  "AnchorState_json st =
     bind_err (json_map TxValidation_json (TxValidations st)) (\<lambda>records.
     bind_err (json_map (\<lambda>l. Inr (LnIdentity_json l)) (LnUris st)) (\<lambda>uris.
     bind_err (json_map (\<lambda>t. Inr (JStr t)) (int_keys (Migrations st))) (\<lambda>migrations.
     Inr (JObj
       [(''tendermint_id'', JStr (ID st)),
        (''tx_int'', jint (TxInt st)),
        (''height'', jint (Height st)),
        (''validator'', JBool (AmValidator st)),
        (''app_hash'', json_bytes (AppHash st)),
        (''begin_cal_int'', jint (BeginCalTxInt st)),
        (''end_cal_int'', jint (EndCalTxInt st)),
        (''latest_cal_int'', jint (LatestCalTxInt st)),
        (''current_cal_ints'', jint (CurrentCalInts st)),
        (''latest_btca'', json_bytes (LatestBtcaTx st)),
        (''latest_btca_int'', jint (LatestBtcaTxInt st)),
        (''latest_btca_height'', jint (LatestBtcaHeight st)),
        (''latest_btc'', JStr (LatestBtcTx st)),
        (''latest_btc_root'', JStr (LatestBtcAggRoot st)),
        (''latest_btcc'', json_bytes (LatestBtccTx st)),
        (''latest_btcc_int'', jint (LatestBtccTxInt st)),
        (''latest_btcc_height'', jint (LatestBtccHeight st)),
        (''latest_btce'', JStr (LatestErrRoot st)),
        (''last_elected_core_id'', JStr (LastElectedCoreID st)),
        (''last_anchor_core_id'', JStr (LastAnchorCoreID st)),
        (''last_error_core_id'', JStr (LastErrorCoreID st)),
        (''btc_height'', jint (BtcHeight st)),
        (''tx_validation'', records),
        (''lightning_identities'', uris),
        (''ChainSynced'', JBool (ChainSynced st)),
        (''JWKStaked'', JBool (JWKStaked st)),
        (''total_stake_price'', jint (LnStakePrice st)),
        (''validator_stake_price'', jint (LnStakePerVal st)),
        (''LatestNistRecord'', JStr (LatestNistRecord st)),
        (''LatestTimeRecord'', JStr (LatestTimeRecord st)),
        (''LatestBtcFee'', jint (LatestBtcFee st)),
        (''LastBtcFeeHeight'', jint (LastBtcFeeHeight st)),
        (''migrations'', migrations)]))))"

definition jd_AnchorState :: "AnchorState jdec" where
  "jd_AnchorState = jd_struct
     [(''tendermint_id'', jfield jd_string ID ID_update),
      (''tx_int'', jfield jd_int TxInt TxInt_update),
      (''height'', jfield jd_int Height Height_update),
      (''validator'', jfield jd_bool AmValidator AmValidator_update),
      (''app_hash'', jfield jd_bytes AppHash AppHash_update),
      (''begin_cal_int'', jfield jd_int BeginCalTxInt BeginCalTxInt_update),
      (''end_cal_int'', jfield jd_int EndCalTxInt EndCalTxInt_update),
      (''latest_cal_int'', jfield jd_int LatestCalTxInt LatestCalTxInt_update),
      (''current_cal_ints'', jfield jd_int CurrentCalInts CurrentCalInts_update),
      (''latest_btca'', jfield jd_bytes LatestBtcaTx LatestBtcaTx_update),
      (''latest_btca_int'', jfield jd_int LatestBtcaTxInt LatestBtcaTxInt_update),
      (''latest_btca_height'', jfield jd_int LatestBtcaHeight LatestBtcaHeight_update),
      (''latest_btc'', jfield jd_string LatestBtcTx LatestBtcTx_update),
      (''latest_btc_root'', jfield jd_string LatestBtcAggRoot LatestBtcAggRoot_update),
      (''latest_btcc'', jfield jd_bytes LatestBtccTx LatestBtccTx_update),
      (''latest_btcc_int'', jfield jd_int LatestBtccTxInt LatestBtccTxInt_update),
      (''latest_btcc_height'', jfield jd_int LatestBtccHeight LatestBtccHeight_update),
      (''latest_btce'', jfield jd_string LatestErrRoot LatestErrRoot_update),
      (''last_elected_core_id'', jfield jd_string LastElectedCoreID LastElectedCoreID_update),
      (''last_anchor_core_id'', jfield jd_string LastAnchorCoreID LastAnchorCoreID_update),
      (''last_error_core_id'', jfield jd_string LastErrorCoreID LastErrorCoreID_update),
      (''btc_height'', jfield jd_int BtcHeight BtcHeight_update),
      (''tx_validation'', jfield (jd_map jd_TxValidation TxValidation_zero) TxValidations TxValidations_update),
      (''lightning_identities'', jfield (jd_map jd_LnIdentity LnIdentity_zero) LnUris LnUris_update),
      (''ChainSynced'', jfield jd_bool ChainSynced ChainSynced_update),
      (''JWKStaked'', jfield jd_bool JWKStaked JWKStaked_update),
      (''total_stake_price'', jfield jd_int LnStakePrice LnStakePrice_update),
      (''validator_stake_price'', jfield jd_int LnStakePerVal LnStakePerVal_update),
      (''LatestNistRecord'', jfield jd_string LatestNistRecord LatestNistRecord_update),
      (''LatestTimeRecord'', jfield jd_string LatestTimeRecord LatestTimeRecord_update),
      (''LatestBtcFee'', jfield jd_int LatestBtcFee LatestBtcFee_update),
      (''LastBtcFeeHeight'', jfield jd_int LastBtcFeeHeight LastBtcFeeHeight_update),
      (''migrations'', jfield (jd_int_map jd_string []) Migrations Migrations_update)]"

subsection \<open>Loading and saving\<close>

definition stateKey :: bytes where
  "stateKey = ''chainpoint''"

definition loadState :: "'d DB \<Rightarrow> 'd \<Rightarrow> err + AnchorState" where
  "loadState D d =
     (case db_get D d stateKey of
        Inl e \<Rightarrow> Inl (Panic ''db'')
      | Inr b \<Rightarrow>
          (let stateBytes = (case b of None \<Rightarrow> [] | Some b \<Rightarrow> b) in
           if length stateBytes \<noteq> 0 then
             (case unmarshal_ok jd_AnchorState AnchorState_zero stateBytes of
                None \<Rightarrow> Inl (Panic ''json'')
              | Some st \<Rightarrow> Inr st)
           else Inr AnchorState_zero))"

definition saveState :: "'d DB \<Rightarrow> AnchorState \<Rightarrow> 'd \<Rightarrow> err + 'd" where
  "saveState D st d =
     (case AnchorState_json st of
        Inl e \<Rightarrow> Inl (Panic ''json: unsupported value'')
      | Inr j \<Rightarrow> Inr (fst (db_set D d stateKey (json_print j))))"

end
