(* ===== verification/Polling.thy ===== *)
theory Polling
  imports State_Store Abci_Anchor
begin

text \<open>
  The polling goroutines, \<open>src/abci/polling.go\<close>: the synchronisation monitor, one pass at a time, the
  beacon monitor and the fee monitor.
\<close>

text \<open>A pass of the synchronisation monitor. An error of \<open>GetPubKey\<close> leaves the nil key, of which
  the code asks the bytes exactly in that case.\<close>

definition SyncMonitor_pass :: "Rpc \<Rightarrow> err option \<Rightarrow> 'd App \<Rightarrow> err + 'd App" where
  "SyncMonitor_pass R pubkey_err app =
     (case rpc_status R of
        Inl e \<Rightarrow> Inr (set_state (\<lambda>st. st\<lparr>TMState := ResultStatus_zero\<rparr>) app)
      | Inr status \<Rightarrow>
         (let app = set_state (\<lambda>st. st\<lparr>TMState := status\<rparr>) app in
          case rpc_net_info R of
            Inl e \<Rightarrow> Inr (set_state (\<lambda>st. st\<lparr>TMNetInfo := []\<rparr>) app)
          | Inr peers \<Rightarrow>
             (let app = set_state (\<lambda>st. st\<lparr>TMNetInfo := peers\<rparr>) app;
                  named = (app_ID app = []);
                  app = (if named then set_state (\<lambda>st. st\<lparr>ID := ValidatorAddress status\<rparr>)
                    (app\<lparr>app_ID := ValidatorAddress status\<rparr>) else app);
                  app = set_state (\<lambda>st. st\<lparr>ChainSynced := \<not> CatchingUp status\<rparr>) app;
                  st = app_state app
              in if named \<and> pubkey_err \<noteq> None then Inl (Panic ''invalid memory address or nil pointer dereference'')
                 else Inr (if ChainSynced st \<and> Height st > 2 \<and> app_ID app \<noteq> []
                   then set_state (\<lambda>st. st\<lparr>AppReady := True\<rparr>) app else app))))"

text \<open>The seed is handed to the generator of proof ids whether or not the beacon answered.\<close>

definition BeaconMonitor :: "nat \<Rightarrow> err + bytes \<Rightarrow> 'd App \<Rightarrow> err + 'd App \<times> int option" where
  "BeaconMonitor cap resp app =
     (if AppReady (app_state app) then
        (case GetCloudflareRandomness resp of (n, randomness, err) \<Rightarrow>
           (let t = nat_digits n @ '':'' @ randomness;
                app = (if err = None then set_state (\<lambda>st. st\<lparr>LatestTimeRecord := t\<rparr>) (app\<lparr>LatestTime := t\<rparr>) else app)
            in bind_err (NewSeededEntropy cap randomness) (\<lambda>seed. Inr (app, Some seed))))
      else Inr (app, None))"

definition FeeMonitor :: "Ln \<Rightarrow> err + bytes \<Rightarrow> 'd App \<Rightarrow> 'd App" where
  "FeeMonitor L resp app =
     (let st = app_state app in
      if AppReady st \<and> i64 (Height st - LastBtcFeeHeight st) \<ge> FeeInterval (app_config app) then
        (let fee = MaxInt64 (MaxInt64 (lnd_fee L) (fst (GetThirdPartyFeeEstimate resp))) STATIC_FEE_AMT
         in app\<lparr>app_state := st\<lparr>LatestBtcFee := fee, LastBtcFeeHeight := Height st\<rparr>, LastFee := fee\<rparr>)
      else app)"

end
