(* ===== verification/Abci_App.thy ===== *)
theory Abci_App
  imports Polling
begin

text \<open>
  The ABCI application, \<open>src/abci/abci.go\<close>: its construction, the handlers that Tendermint calls, and
  the query that filters peers. A handler takes the application and returns it updated with its
  answer and the goroutines it starts; \<open>Inl\<close> is a panic, which ends the node.
\<close>

subsection \<open>Start\<close>

text \<open>The application on a loaded state; \<open>ln_ready\<close> tells whether the Lightning node answered within
  five minutes, and \<open>jwkJson\<close> is what the JWK library makes of the key.\<close>

definition NewAnchorApplication ::
  "'d Env \<Rightarrow> AnchorConfig \<Rightarrow> err option \<Rightarrow> err + string \<Rightarrow> string \<Rightarrow> 'd \<Rightarrow> err + 'd App \<times> effect list" where
  "NewAnchorApplication E cfg ln_ready jwkJson nodeID d =
     bind_err (loadState (e_db E) d) (\<lambda>st.
       let st = st\<lparr>CoreKeys := Map.empty, ChainSynced := False\<rparr> in
       if ln_ready \<noteq> None then Inl (Panic ''LND not ready after 5 minutes'')
       else bind_err (GenerateKey jwkJson nodeID) (\<lambda>jwkType. Inr (\<lparr>Db = d, app_state = st, app_config = cfg, app_ID = [], JWK = jwkType, ValUpdates = [],
          valAddrToPubKeyMap = Map.empty, PendingValidator = [], PendingChangeStake = 0, LastFee = 0,
          LatestTime = [], agg_queue = []\<rparr>,
          (if DoCal cfg then [GoEvent ''go'' ''StartAggregation''] else []) @
          map (GoEvent ''go'') [''SyncMonitor'', ''LoadIdentity'', ''SetStake'', ''StakeIdentity''])))"

fun init_validators :: "TmLib \<Rightarrow> 'd DB \<Rightarrow> ValidatorUpdate list \<Rightarrow> 'd App \<Rightarrow> err + 'd App" where
  "init_validators T D [] app = Inr app"
| "init_validators T D (v # vs) app = bind_err (updateValidator T D v app) (\<lambda>(app, r). init_validators T D vs app)"

definition InitChain :: "TmLib \<Rightarrow> 'd DB \<Rightarrow> ValidatorUpdate list \<Rightarrow> 'd App \<Rightarrow> err + 'd App" where
  "InitChain T D validators app = init_validators T D validators app"

record InfoResponse =
  in_Data :: string
  LastBlockAppHash :: bytes
  LastBlockHeight :: int

definition Info :: "'d App \<Rightarrow> InfoResponse" where
  "Info app =
     \<lparr>in_Data = (case AnchorState_json (app_state app) of Inl e \<Rightarrow> ''{}'' | Inr j \<Rightarrow> json_print j),
      LastBlockAppHash = AppHash (app_state app), LastBlockHeight = Height (app_state app)\<rparr>"

subsection \<open>A block\<close>

definition DeliverTx :: "'d Env \<Rightarrow> TmLib \<Rightarrow> bytes \<Rightarrow> 'd App \<Rightarrow> err + 'd App \<times> Response \<times> effect list" where
  "DeliverTx E T tx app = updateStateFromTx E T tx app"

definition CheckTx :: "'d Env \<Rightarrow> bytes \<Rightarrow> 'd App \<Rightarrow> err + 'd App \<times> Response" where
  "CheckTx E tx app = validateTx E tx app"

definition BeginBlock :: "'d App \<Rightarrow> 'd App" where
  "BeginBlock app = app\<lparr>ValUpdates := []\<rparr>"

definition EndBlock :: "'d Env \<Rightarrow> 'd App \<Rightarrow> err + 'd App \<times> ValidatorUpdate list \<times> effect list" where
  "EndBlock E app =
     (let synced = ChainSynced (app_state app);
          polls = (if synced then [GoBeaconMonitor, GoFeeMonitor] else []);
          (app, anchors) = StartAnchoring app;
          anchoring = DoAnchor (app_config app);
          monitors = (if ChainSynced (app_state app)
            then GoBlockMonitors anchoring # (if anchoring then [GoPruneOldState] else []) else [])
      in bind_err (CheckVoteValidator E app) (\<lambda>(app, votes).
           let (app, stakes) = CheckVoteChangeStake E app
           in Inr (app, ValUpdates app, polls @ anchors @ monitors @ votes @ stakes)))"

text \<open>The goroutine that \<open>EndBlock\<close> starts.\<close>

definition block_monitors :: "'d Env \<Rightarrow> bool \<Rightarrow> AnchorState \<Rightarrow> 'd \<Rightarrow> AnchorState \<times> 'd \<times> effect list" where
  "block_monitors E anchoring st d =
     (let (st, d) = BlockSyncMonitor E st d in
      if anchoring then
        (let (d, confirms) = MonitorConfirmedTx E st d;
             (st, d, fails) = MonitorFailedAnchor (e_db E) st d
         in (st, d, confirms @ fails))
      else (st, d, []))"

text \<open>The application hash is the height as a varint in eight bytes; a longer one does not fit.\<close>

definition app_hash :: "int \<Rightarrow> err + bytes" where
  "app_hash h =
     (let v = put_varint h in
      if length v \<le> 8 then Inr (v @ replicate (8 - length v) (CHR 0x00))
      else Inl (Panic ''index out of range''))"

definition Commit :: "'d Env \<Rightarrow> 'd App \<Rightarrow> err + 'd App \<times> bytes" where
  "Commit E app =
     bind_err (app_hash (Height (app_state app))) (\<lambda>appHash.
       let st = (app_state app)\<lparr>AppHash := appHash, Height := i64 (Height (app_state app) + 1)\<rparr>
       in bind_err (saveState (e_db E) st (Db app)) (\<lambda>d. Inr (app\<lparr>app_state := st, Db := d\<rparr>, appHash)))"

subsection \<open>Queries\<close>

text \<open>A block that does not parse is the nil network, and asking it panics.\<close>

fun cidr_blocked :: "ip option \<Rightarrow> string list \<Rightarrow> err + bool" where
  "cidr_blocked a [] = Inr False"
| "cidr_blocked a (blockCIDR # blocks) =
     (if blockCIDR = [] then cidr_blocked a blocks
      else (case ParseCIDR blockCIDR of
              None \<Rightarrow> Inl (Panic ''invalid memory address or nil pointer dereference'')
            | Some ipNet \<Rightarrow> if net_contains ipNet a then Inr True else cidr_blocked a blocks))"

definition Query :: "string \<Rightarrow> 'd App \<Rightarrow> err + code" where
  "Query urlPath app =
     (let base = path_base urlPath; cfg = app_config app in
      if contains urlPath ''/p2p/filter/addr'' then
        (let ipStr = (if contains base '':'' then hd (split_on (CHR '':'') base) else base) in
         bind_err (cidr_blocked (ParseIP ipStr) (CIDRBlockList cfg)) (\<lambda>blocked.
           Inr (if blocked \<or> list_ex (\<lambda>blockIP. contains blockIP ipStr) (IPBlockList cfg)
                then CodeTypeUnauthorized else CodeTypeOK)))
      else if contains urlPath ''/p2p/filter/id'' then
        (case IDMap (app_state app) base of
           None \<Rightarrow> Inr CodeTypeOK
         | Some coreID \<Rightarrow>
             Inr (if fst (GetJWKChanges coreID (app_state app)) > 3 then CodeTypeUnauthorized else CodeTypeOK))
      else Inr CodeTypeOK)"

end
