(* ===== verification/Abci_Api.thy ===== *)
theory Abci_Api
  imports Abci_App
begin

text \<open>
  The HTTP interface, \<open>src/abci/api.go\<close>, and the hashes that arrive with Lightning payments. A
  request is a record of what the handlers read of it; a handler gives the response, and where it
  accepts something the application updated. What the Lightning library answers by itself
  (\<open>RespondLSAT\<close>) is an argument.

  When a hash is accepted and what a request for proofs returns is shown in \<open>Api_Correct\<close>.
\<close>

subsection \<open>Requests and responses\<close>

record Request =
  RemoteAddr :: string
  ContentType :: string
  Body :: bytes
  ProofIdsHeader :: string
  Vars :: "string \<rightharpoonup> string"

record HttpResponse =
  Status :: int
  MimeType :: string
  Payload :: bytes

definition respondJSON :: "int \<Rightarrow> json \<Rightarrow> HttpResponse" where
  "respondJSON status payload = \<lparr>Status = status, MimeType = ''application/json'', Payload = json_print payload\<rparr>"

definition respond_error :: "int \<Rightarrow> string \<Rightarrow> HttpResponse" where
  "respond_error status msg = respondJSON status (JObj [(''error'', JStr msg)])"

definition HomeHandler :: HttpResponse where
  "HomeHandler = \<lparr>Status = 418, MimeType = ''text/plain; charset=utf-8'',
     Payload = ''This is an API endpoint. Please consult https://chainpoint.org''\<rparr>"

subsection \<open>Submitting hashes\<close>

definition is_hex_any :: "char \<Rightarrow> bool" where
  "is_hex_any c \<longleftrightarrow> from_hex_char c \<noteq> None"

text \<open>The expressions \<open>^([a-fA-F0-9]{2}){20,64}$\<close> and \<open>^[a-fA-F0-9]{64}$\<close>.\<close>

definition is_hash_text :: "string \<Rightarrow> bool" where
  "is_hash_text s \<longleftrightarrow> list_all is_hex_any s \<and> even (length s) \<and> 40 \<le> length s \<and> length s \<le> 128"

definition is_hash64 :: "string \<Rightarrow> bool" where
  "is_hash64 s \<longleftrightarrow> list_all is_hex_any s \<and> length s = 64"

text \<open>A decoder that refuses unknown fields.\<close>

definition jd_strict :: "'r jfields \<Rightarrow> 'r jdec" where
  "jd_strict fs j r =
     (case jd_struct fs j r of (r', e) \<Rightarrow>
        (r', e \<or> (case j of JObj ms \<Rightarrow> list_ex (\<lambda>(k, v). find_field fs k = None) ms | _ \<Rightarrow> False)))"

text \<open>The tag of the field lacks its closing quote, so its name is the Go name.\<close>

record Hash =
  Hash :: string

definition jd_Hash :: "Hash jdec" where
  "jd_Hash = jd_strict [(''Hash'', jfield jd_string Hash Hash_update)]"

definition HashResponse_json :: "string \<Rightarrow> string \<Rightarrow> string \<Rightarrow> string \<Rightarrow> string \<Rightarrow> json" where
  "HashResponse_json hash proofId received calHint btcHint =
     JObj [(''hash'', JStr hash), (''proof_id'', JStr proofId), (''hash_received'', JStr received),
       (''processing_hints'', JObj [(''cal'', JStr calHint), (''btc'', JStr btcHint)])]"

text \<open>\<open>lsat\<close> is the response of the Lightning library, when it gives one; \<open>ulid\<close> is the new id.\<close>

definition HashHandler ::
  "'d Env \<Rightarrow> HttpResponse option \<Rightarrow> err + string \<Rightarrow> Request \<Rightarrow> 'd App \<Rightarrow> 'd App \<times> HttpResponse" where
  "HashHandler E lsat ulid r app =
     (let cfg = app_config app; now = unix_now E; t = rfc3339 (e_ids E);
          ip = (case split_on (CHR '':'') (RemoteAddr r) of [a, _] \<Rightarrow> a | _ \<Rightarrow> RemoteAddr r);
          listed = UseAllowlist cfg \<and> ArrayContains (GatewayAllowlist cfg) ip
      in case (if listed then None else lsat) of
           Some resp \<Rightarrow> (app, resp)
         | None \<Rightarrow>
             if ContentType r \<noteq> ''application/json'' then (app, respond_error 400 ''invalid content type'')
             else (case json_decode jd_Hash \<lparr>Hash = []\<rparr> (Body r) of (hash, err) \<Rightarrow>
               if err \<or> length (Hash hash) = 0 then (app, respond_error 400 ''invalid JSON body: missing hash'')
               else if \<not> is_hash_text (Hash hash) then (app, respond_error 400 ''invalid JSON body: bad hash submitted'')
               else (case ulid of
                       Inl e \<Rightarrow> (app, respond_error 400 ''cannot compute ulid'')
                     | Inr proofId \<Rightarrow>
                         (app\<lparr>agg_queue := AddHashItem \<lparr>hi_ProofID = proofId, hi_Hash = Hash hash\<rparr> (agg_queue app)\<rparr>,
                          respondJSON 200 (HashResponse_json (Hash hash) proofId (t now) (t (now + 140)) (t (now + 90 * 60)))))))"

text \<open>A settled invoice; the values of the custom records come in the order of the iteration.\<close>

record Invoice =
  RHash :: bytes
  IsKeysend :: bool
  Settled :: bool
  inv_Value :: int
  ValueMsat :: int
  Htlcs :: "bytes list list"
  Memo :: string

definition invoice_hash :: "Invoice \<Rightarrow> string" where
  "invoice_hash res =
     (let values = filter is_hash64 (map hex_encode (concat (Htlcs res)));
          h = (if values = [] then [] else last values)
      in if is_hash64 (Memo res) then Memo res else h)"

text \<open>One invoice of \<open>LnPaymentHandler\<close>.\<close>

definition LnPaymentHandler_invoice :: "'d Env \<Rightarrow> Invoice \<Rightarrow> 'd App \<Rightarrow> 'd App" where
  "LnPaymentHandler_invoice E res app =
     (let price = HashPrice (app_config app); hash = invoice_hash res in
      if IsKeysend res \<and> Settled res \<and> (inv_Value res = price \<or> ValueMsat res = i64 (price * 1000)) \<and> hash \<noteq> [] then
        app\<lparr>agg_queue := AddHashItem \<lparr>hi_ProofID = hex_encode (RHash res), hi_Hash = hash\<rparr>
          (AddHashItem \<lparr>hi_ProofID = hex_encode (sha256 (e_crypto E) hash), hi_Hash = hash\<rparr> (agg_queue app))\<rparr>
      else app)"

text \<open>The inner loop of \<open>LnPaymentHandler\<close>: what one subscription delivers, up to its first error.
  \<open>LnPaymentHandler\<close> is a turn of the outer loop.\<close>

fun LnPaymentHandler_select :: "'d Env \<Rightarrow> (err + Invoice) list \<Rightarrow> 'd App \<Rightarrow> 'd App" where
  "LnPaymentHandler_select E [] app = app"
| "LnPaymentHandler_select E (Inl e # events) app = app"
| "LnPaymentHandler_select E (Inr res # events) app = LnPaymentHandler_select E events (LnPaymentHandler_invoice E res app)"

definition LnPaymentHandler :: "'d Env \<Rightarrow> (err + Invoice) list \<Rightarrow> 'd App \<Rightarrow> 'd App" where
  "LnPaymentHandler E events app = (if AppReady (app_state app) then LnPaymentHandler_select E events app else app)"

subsection \<open>Proofs\<close>

text \<open>The expression for proof ids is three alternatives, of which only the first is tied to the
  start and only the last to the end: a UUID at the start, 26 characters of a ULID anywhere, or 64
  hexadecimal characters at the end.\<close>

fun windows :: "nat \<Rightarrow> 'a list \<Rightarrow> 'a list list" where
  "windows n [] = []"
| "windows n (x # xs) = (if n \<le> Suc (length xs) then take n (x # xs) # windows n xs else [])"

definition is_proof_id :: "string \<Rightarrow> bool" where
  "is_proof_id s \<longleftrightarrow> IsUUID (take 36 s) \<or> list_ex IsULID (windows 26 s) \<or>
     (64 \<le> length s \<and> list_all (\<lambda>c. c \<in> set ''0123456789abcdef'') (drop (length s - 64) s))"

text \<open>A JSON object read into a Go map and written again: the members are sorted, of members with
  the same name the last counts. (A number is kept as it is written.)\<close>

fun sort_json :: "json \<Rightarrow> json" where
  "sort_json (JObj ms) =
     JObj (foldl (\<lambda>d (k, v). obj_set k v d) [] (map (\<lambda>(k, v). (k, sort_json v)) ms))"
| "sort_json (JArr xs) = JArr (map sort_json xs)"
| "sort_json j = j"

definition proof_entry :: "string \<Rightarrow> json \<Rightarrow> json" where
  "proof_entry i p = JObj [(''proof'', p), (''proof_id'', JStr i)]"

text \<open>What one id adds to the response: a proof that is not a JSON object adds two entries.\<close>

definition proof_entries :: "(string \<rightharpoonup> ProofState) \<Rightarrow> string \<Rightarrow> json list" where
  "proof_entries proofStates i =
     (case proofStates i of
        None \<Rightarrow> [proof_entry i JNull]
      | Some val \<Rightarrow>
          (case json_parse (ps_Proof val) of
             Some (JObj ms) \<Rightarrow> [proof_entry i (sort_json (JObj ms))]
           | Some JNull \<Rightarrow> [proof_entry i JNull]
           | _ \<Rightarrow> [proof_entry i JNull, proof_entry i JNull]))"

definition ProofHandler :: "'d DB \<Rightarrow> Request \<Rightarrow> 'd App \<Rightarrow> HttpResponse" where
  "ProofHandler D r app =
     (let header = ProofIdsHeader r in
      if length header = 0 then respond_error 400 ''invalid request, at least one hash id required''
      else
        (let proofids = split_on (CHR '','') (replace_all header '' '' []) in
         if length proofids > 250 then respond_error 400 ''invalid request, too many hash ids (250 max)''
         else (case List.find (\<lambda>i. \<not> is_proof_id i) proofids of
                 Some i \<Rightarrow> respond_error 400 (''invalid request, bad proof_id: '' @ i)
               | None \<Rightarrow>
                   (case GetProofsByProofIds D (Db app) proofids of
                      Inl e \<Rightarrow> respond_error 400 ''could not retrieve proofs''
                    | Inr proofStates \<Rightarrow>
                        respondJSON 200 (JArr (concat (map (proof_entries proofStates) proofids)))))))"

definition ProofUpgradeHandler :: "'d Env \<Rightarrow> Request \<Rightarrow> 'd App \<Rightarrow> HttpResponse" where
  "ProofUpgradeHandler E r app =
     (case Vars r ''txid'' of
        Some txid \<Rightarrow>
          (case ConstructProof E (app_config app) txid of
             Inl e \<Rightarrow> respond_error 400 ''could not reconstruct core proof''
           | Inr p \<Rightarrow> respondJSON 200 (JObj p))
      | None \<Rightarrow> respond_error 404 ''txid parameter required'')"

subsection \<open>Calendar transactions\<close>

text \<open>\<open>tx_json\<close> is the JSON form of the Tendermint library's result.\<close>

definition CalHandler :: "Rpc \<Rightarrow> (ResultTx \<Rightarrow> json) \<Rightarrow> Request \<Rightarrow> HttpResponse" where
  "CalHandler R tx_json r =
     (case Vars r ''txid'' of
        Some txid \<Rightarrow>
          (case GetTxByHash R txid of
             Inl e \<Rightarrow> respond_error 400 ''could not retrieve tx''
           | Inr result \<Rightarrow> respondJSON 200 (tx_json result))
      | None \<Rightarrow> respond_error 404 ''tx parameter required'')"

text \<open>The data of a transaction that is on the chain, or of one that is still in the cache.\<close>

definition cal_data :: "'d DB \<Rightarrow> 'd \<Rightarrow> Rpc \<Rightarrow> string \<Rightarrow> HttpResponse + string" where
  "cal_data D d R txid =
     (case GetTxByHash R txid of
        Inl e \<Rightarrow>
          (case kv_Get D d txid of
             (_, Some e) \<Rightarrow> Inl (respond_error 400 ''could not retrieve tx'')
           | (rt, None) \<Rightarrow> if length rt \<noteq> 0 then Inr rt else Inl (respond_error 400 ''could not retrieve tx from cache''))
      | Inr result \<Rightarrow>
          (case DecodeTx (rtx_Tx result) of (tx, err) \<Rightarrow>
             if err then Inl (respond_error 400 ''could not decode tx'') else Inr (Data tx)))"

definition CalDataHandler :: "'d DB \<Rightarrow> Rpc \<Rightarrow> Request \<Rightarrow> 'd App \<Rightarrow> HttpResponse" where
  "CalDataHandler D R r app =
     (case Vars r ''txid'' of
        Some txid \<Rightarrow>
          (case cal_data D (Db app) R txid of
             Inl resp \<Rightarrow> resp
           | Inr d \<Rightarrow> \<lparr>Status = 200, MimeType = ''text/plain'',
               Payload = (case unmarshal_ok jd_BtcMonMsg BtcMonMsg_zero d of
                 None \<Rightarrow> d | Some btcc \<Rightarrow> bmm_BtcHeadRoot btcc)\<rparr>)
      | None \<Rightarrow> respond_error 404 ''tx parameter required'')"

subsection \<open>The state of the node\<close>

record NodeReport =
  nr_IdentityPubkey :: string
  nr_Uris :: "string list"
  nr_NumActiveChannels :: int
  nr_Alias :: string

record Balance =
  TotalBalance :: int
  ConfirmedBalance :: int
  UnconfirmedBalance :: int

text \<open>\<open>node_json\<close> and \<open>sync_json\<close> are the JSON forms of the Tendermint library's structs, \<open>time\<close> is
  the time as text, \<open>base\<close> the environment variable.\<close>

definition StatusHandler ::
  "err + NodeReport \<Rightarrow> err + Balance \<Rightarrow> (ResultStatus \<Rightarrow> json) \<Rightarrow> (ResultStatus \<Rightarrow> json) \<Rightarrow> string \<Rightarrow>
     (string \<rightharpoonup> string) \<Rightarrow> 'd App \<Rightarrow> HttpResponse" where
  "StatusHandler ln_info ln_balance node_json sync_json time env app =
     (let status = TMState (app_state app); cfg = app_config app; st = app_state app in
      case ln_info of
        Inl e \<Rightarrow> respond_error 500 ''Could not query for status''
      | Inr info \<Rightarrow>
          (case ln_balance of
             Inl e \<Rightarrow> respond_error 500 ''Could not query for balance''
           | Inr balance \<Rightarrow> respondJSON 200 (JObj
               [(''version'', JStr ''0.0.2''), (''time'', JStr time),
                (''base_uri'', JStr (GetEnv env ''CHAINPOINT_CORE_BASE_URI'' ''http://0.0.0.0'')),
                (''jwk'', Jwk_json (JWK app)), (''network'', JStr (BitcoinNetwork cfg)),
                (''identity_pubkey'', JStr (nr_IdentityPubkey info)),
                (''lightning_address'', JStr (WalletAddress (cfg_Lightning cfg))),
                (''lightning_balance'', JObj
                  [(''total_balance'', JStr (format_int (TotalBalance balance))),
                   (''confirmed_balance'', JStr (format_int (ConfirmedBalance balance))),
                   (''unconfirmed_balance'', JStr (format_int (UnconfirmedBalance balance)))]),
                (''public_key'', JStr []), (''uris'', JArr (map JStr (nr_Uris info))), (''alias'', JStr (nr_Alias info)),
                (''hash_price_satoshis'', jint (HashPrice cfg)), (''total_stake_price'', jint (LnStakePrice st)),
                (''validator_stake_price'', jint (LnStakePerVal st)), (''num_channels_count'', jint (nr_NumActiveChannels info)),
                (''node_info'', node_json status), (''sync_info'', sync_json status)])))"

definition private_ranges :: "string list" where
  "private_ranges = [''0'', ''10'', ''172'', ''192'', ''127'']"

text \<open>The address of one peer: the part of a listen address after its last slash is computed, and then
  the whole part up to the port is taken.\<close>

definition peer_address :: "NetPeer \<Rightarrow> err + string list" where
  "peer_address p =
     (let ip = RemoteIP p in
      if length ip = 0 then Inr []
      else bind_err (slice_to ip (go_index ip ''.'')) (\<lambda>firstOctet.
        if firstOctet \<in> set private_ranges then
          (let listenAddr = ListenAddr (peer_NodeInfo p);
               port = last_index_char listenAddr (CHR '':'') in
           bind_err (if contains listenAddr ''//''
               then slice listenAddr (last_index_char listenAddr (CHR ''/'') + 1) port else Inr []) (\<lambda>_.
           bind_err (slice_to listenAddr port) (\<lambda>finalIp. Inr [finalIp])))
        else Inr [ip]))"

definition PeerHandler :: "'d App \<Rightarrow> err + HttpResponse" where
  "PeerHandler app =
     (let st = app_state app; uri = CoreURI (app_config app) in
      bind_err (GetPeers st (TMState st) (TMNetInfo st)) (\<lambda>peers.
      bind_err (map_err peer_address peers) (\<lambda>addrs.
        let self = (if length uri \<noteq> 0 then [hd (split_on (CHR '':'') (replace_all uri ''http://'' []))] else [])
        in Inr (respondJSON 200 (JArr (map JStr (UniquifyStrings (concat addrs @ self))))))))"

text \<open>The status is written first, and the type of the content with it, when the list is not in use;
  the list is written in either case.\<close>

definition GatewaysHandler :: "'d App \<Rightarrow> HttpResponse" where
  "GatewaysHandler app =
     (let resp = respondJSON 200 (JArr (map JStr (GatewayAllowlist (app_config app))))
      in if \<not> UseAllowlist (app_config app) then resp\<lparr>Status := 404, MimeType := ''text/plain; charset=utf-8''\<rparr> else resp)"

end
