(* ===== verification/State_Roundtrip.thy ===== *)
theory State_Roundtrip
  imports State_Store
begin

text \<open>
  The state on disk is read back (\<open>loadState\<close> and \<open>saveState\<close>, \<open>src/abci/abci.go\<close>). A state can be
  stored when its integers are 64-bit, its texts are UTF-8, its token buckets are finite
  \<open>float32\<close> numbers and its maps are finite; then what was saved is loaded, but for the fields
  that have no JSON form.
\<close>

subsection \<open>Texts, bytes and buckets\<close>

definition utf8 :: "string \<Rightarrow> bool" where
  "utf8 s \<longleftrightarrow> utf8_fix s = s"

lemma ascii_utf8 [simp]: "ascii s \<Longrightarrow> utf8 s"
  by (simp add: utf8_def)

lemma utf8_fixed [simp]: "utf8 s \<Longrightarrow> utf8_fix s = s"
  by (simp add: utf8_def)

text \<open>A value is stored by \<open>f\<close> and read back by \<open>d\<close>, through its text.\<close>

definition stored_by :: "('a \<Rightarrow> err + json) \<Rightarrow> 'a jdec \<Rightarrow> 'a \<Rightarrow> 'a \<Rightarrow> bool" where
  "stored_by f d zero x \<longleftrightarrow> (\<exists>j. f x = Inr j \<and> json_nums j \<and> d (fix_json j) zero = (x, False))"

lemma stored_byI: "f x = Inr j \<Longrightarrow> json_nums j \<Longrightarrow> d (fix_json j) zero = (x, False) \<Longrightarrow> stored_by f d zero x"
  by (auto simp: stored_by_def)

lemma json_bytes_stored [simp]: "json_nums (json_bytes b)" "jd_bytes (fix_json (json_bytes b)) [] = (b, False)"
  by (simp_all add: json_bytes_def jd_bytes_def codec_simps)

definition RateLimit_ok :: "RateLimit \<Rightarrow> bool" where
  "RateLimit_ok l \<longleftrightarrow> is_i64 (AllowedRate l) \<and> is_i64 (PerBlocks l) \<and> is_i64 (LastCheck l) \<and>
     (\<exists>x. Bucket l = Fin x \<and> is_f32 x)"

lemma RateLimit_stored:
  assumes "RateLimit_ok l"
  shows "stored_by RateLimit_json jd_RateLimit RateLimit_zero l"
proof -
  obtain x where x: "Bucket l = Fin x" "is_f32 x" using assms by (auto simp: RateLimit_ok_def)
  obtain b where b: "json_f32 (Fin x) = Inr b" by (simp add: json_f32_def)
  from jd_f32_roundtrip [OF x(2) b] have r: "json_nums b" "jd_f32 (fix_json b) old = (Fin x, False)" for old by simp_all
  show ?thesis
    using assms x b r
    by (cases l) (auto intro!: stored_byI simp: RateLimit_ok_def RateLimit_json_def jd_RateLimit_def RateLimit_zero_def jd_simps_struct)
qed

definition TxValidation_ok :: "TxValidation \<Rightarrow> bool" where
  "TxValidation_ok v \<longleftrightarrow>
     list_all is_i64 [LastJWKTxHeight v, JWKSubmissions v, LastCalTxHeight v, CalValidationSuccess v, CalValidationFailures v,
       LastBtcaTxHeight v, ConfirmedAnchors v, FailedAnchors v, LastBtccTxHeight v, LastNISTTxHeight v, LastFeeTxHeight v,
       FeeValidationFailures v, UnAuthValSubmissions v] \<and>
     list_all RateLimit_ok [JWKAllowedRate v, CalAllowedRate v, BtcaAllowedRate v, BtccAllowedRate v, NISTAllowedRate v,
       FeeAllowedRate v]"

lemma TxValidation_stored:
  assumes "TxValidation_ok v"
  shows "stored_by TxValidation_json jd_TxValidation TxValidation_zero v"
proof -
  have l: "\<exists>j. RateLimit_json l = Inr j \<and> json_nums j \<and> jd_RateLimit (fix_json j) RateLimit_zero = (l, False)" if "RateLimit_ok l" for l
    using RateLimit_stored [OF that] by (simp add: stored_by_def)
  obtain jwk cal btca btcc nist fee where
    "RateLimit_json (JWKAllowedRate v) = Inr jwk" "json_nums jwk" "jd_RateLimit (fix_json jwk) RateLimit_zero = (JWKAllowedRate v, False)"
    "RateLimit_json (CalAllowedRate v) = Inr cal" "json_nums cal" "jd_RateLimit (fix_json cal) RateLimit_zero = (CalAllowedRate v, False)"
    "RateLimit_json (BtcaAllowedRate v) = Inr btca" "json_nums btca" "jd_RateLimit (fix_json btca) RateLimit_zero = (BtcaAllowedRate v, False)"
    "RateLimit_json (BtccAllowedRate v) = Inr btcc" "json_nums btcc" "jd_RateLimit (fix_json btcc) RateLimit_zero = (BtccAllowedRate v, False)"
    "RateLimit_json (NISTAllowedRate v) = Inr nist" "json_nums nist" "jd_RateLimit (fix_json nist) RateLimit_zero = (NISTAllowedRate v, False)"
    "RateLimit_json (FeeAllowedRate v) = Inr fee" "json_nums fee" "jd_RateLimit (fix_json fee) RateLimit_zero = (FeeAllowedRate v, False)"
    using assms l [of "JWKAllowedRate v"] l [of "CalAllowedRate v"] l [of "BtcaAllowedRate v"] l [of "BtccAllowedRate v"]
      l [of "NISTAllowedRate v"] l [of "FeeAllowedRate v"] unfolding TxValidation_ok_def list_all_iff by auto
  then show ?thesis
    using assms
    by (cases v) (auto intro!: stored_byI simp: TxValidation_ok_def TxValidation_json_def jd_TxValidation_def TxValidation_zero_def jd_simps_struct)
qed

definition LnIdentity_utf8 :: "LnIdentity \<Rightarrow> bool" where
  "LnIdentity_utf8 l \<longleftrightarrow> utf8 (Peer l) \<and> is_i64 (RequiredChanAmt l)"

lemma LnIdentity_stored:
  "LnIdentity_utf8 l \<Longrightarrow> stored_by (\<lambda>l. Inr (LnIdentity_json l)) jd_LnIdentity LnIdentity_zero l"
  by (cases l) (auto intro!: stored_byI simp: LnIdentity_utf8_def LnIdentity_json_def jd_LnIdentity_def LnIdentity_zero_def jd_simps_struct)

subsection \<open>Maps\<close>

lemma map_members_read:
  assumes "\<And>k x. (k, x) \<in> set kvs \<Longrightarrow> utf8 k \<and> stored_by f d zero x"
  shows "\<exists>ms. map_err (\<lambda>(k, x). bind_err (f x) (\<lambda>j. Inr (k, j))) kvs = Inr ms \<and> list_all (\<lambda>(k, v). json_nums v) ms \<and>
    (\<forall>m. jd_map_members d zero (map (\<lambda>(k, v). (utf8_fix k, fix_json v)) ms) m = (m ++ map_of (rev kvs), False))"
  using assms
proof (induction kvs)
  case (Cons p kvs)
  obtain k x where p: "p = (k, x)" by fastforce
  with Cons.prems [of k x] obtain j where "utf8 k" "f x = Inr j" "json_nums j" "d (fix_json j) zero = (x, False)"
    by (auto simp: stored_by_def)
  moreover from Cons obtain ms where "map_err (\<lambda>(k, x). bind_err (f x) (\<lambda>j. Inr (k, j))) kvs = Inr ms"
    "list_all (\<lambda>(k, v). json_nums v) ms"
    "\<forall>m. jd_map_members d zero (map (\<lambda>(k, v). (utf8_fix k, fix_json v)) ms) m = (m ++ map_of (rev kvs), False)"
    by (metis list.set_intros(2))
  ultimately show ?case by (intro exI [of _ "(k, j) # ms"]) (simp add: p)
qed simp

lemma map_of_members: "finite (dom m) \<Longrightarrow> map_of (rev (map_members m)) = m"
proof -
  assume fin: "finite (dom m)"
  have "map_of (map (\<lambda>k. (k, the (m k))) ks) k = (if k \<in> set ks then Some (the (m k)) else None)" for ks k
    by (induction ks) auto
  from this [of "rev (sorted_list_of_set (dom m))"] show ?thesis
    using fin by (auto simp: map_members_def rev_map domIff intro!: ext)
qed

lemma json_map_stored:
  assumes "finite (dom m)" "\<And>k x. m k = Some x \<Longrightarrow> utf8 k \<and> stored_by f d zero x"
  shows "stored_by (json_map f) (jd_map d zero) Map.empty m"
proof -
  have "utf8 k \<and> stored_by f d zero x" if "(k, x) \<in> set (map_members m)" for k x
    using that assms by (auto simp: map_members_def)
  from map_members_read [of "map_members m" f d zero, OF this] map_of_members [OF assms(1)] show ?thesis
    by (auto simp: stored_by_def json_map_def jd_map_def)
qed

text \<open>A map with integer keys goes through the texts of the keys.\<close>

lemma jd_int_members_texts:
  assumes "\<And>k. k \<in> set ks \<Longrightarrow> is_i64 k"
  shows "jd_int_members d zero (map (\<lambda>k. (format_int k, g k)) ks) m =
    (m ++ map_of (rev (map (\<lambda>k. (k, fst (d (g k) zero))) ks)), list_ex (\<lambda>k. snd (d (g k) zero)) ks)"
  using assms by (induction ks arbitrary: m) (auto simp: codec_simps case_prod_beta Let_def)

lemma int_keys_iff:
  assumes "\<And>k. k \<in> dom m \<Longrightarrow> is_i64 k"
  shows "int_keys m s = Some x \<longleftrightarrow> (\<exists>k. s = format_int k \<and> m k = Some x)"
  using assms by (auto simp: int_keys_def codec_simps domIff split: option.splits)

lemma int_map_stored:
  assumes "finite (dom m)" "\<And>k x. m k = Some x \<Longrightarrow> is_i64 k \<and> utf8 x"
  shows "stored_by (\<lambda>m. json_map (\<lambda>t. Inr (JStr t)) (int_keys m)) (jd_int_map jd_string []) Map.empty m"
proof -
  have i: "is_i64 k" if "k \<in> dom m" for k using assms(2) that by auto
  note iff = int_keys_iff [of m, OF i]
  have dom: "dom (int_keys m) = format_int ` dom m"
  proof (rule set_eqI)
    show "s \<in> dom (int_keys m) \<longleftrightarrow> s \<in> format_int ` dom m" for s
      using iff [of s] by (auto simp: domIff)
  qed
  define ss where "ss = sorted_list_of_set (dom (int_keys m))"
  define ks where "ks = map (\<lambda>s. the (parse_int_ok s)) ss"
  have ss: "set ss = format_int ` dom m" using assms(1) dom by (simp add: ss_def)
  have "format_int (the (parse_int_ok s)) = s" if s: "s \<in> set ss" for s
  proof -
    obtain k where "s = format_int k" "k \<in> dom m" using s ss by blast
    then show ?thesis using parse_int_ok_format_int [OF i] by simp
  qed
  then have "map (\<lambda>s. format_int (the (parse_int_ok s))) ss = ss" by (rule map_idI)
  then have ks: "ss = map format_int ks" by (simp add: ks_def comp_def)
  have "set ks = (\<lambda>k. the (parse_int_ok (format_int k))) ` dom m" using ss by (simp add: ks_def image_image)
  also have "\<dots> = (\<lambda>k. k) ` dom m" using parse_int_ok_format_int [OF i] by (intro image_cong) simp_all
  finally have dks: "set ks = dom m" by simp
  have key: "int_keys m (format_int k) = m k" if "k \<in> set ks" for k
    using iff [of "format_int k" "the (m k)"] that dks by force
  have "map_members (int_keys m) = map (\<lambda>s. (s, the (int_keys m s))) ss" by (simp add: map_members_def ss_def)
  also have "\<dots> = map (\<lambda>k. (format_int k, the (m k))) ks" using key by (simp add: ks)
  finally have mm: "map_members (int_keys m) = map (\<lambda>k. (format_int k, the (m k))) ks" .
  define j where "j = JObj (map (\<lambda>k. (format_int k, JStr (the (m k)))) ks)"
  have mj: "json_map (\<lambda>t. Inr (JStr t)) (int_keys m) = Inr j"
    using map_err_Inr [of "map (\<lambda>k. (format_int k, the (m k))) ks" "\<lambda>(k, x). bind_err (Inr (JStr x)) (\<lambda>j. Inr (k, j))" "\<lambda>(k, x). (k, JStr x)"]
    by (simp add: json_map_def mm j_def comp_def case_prod_beta)
  moreover have "utf8 (the (m k))" if "k \<in> set ks" for k using assms(2) dks that by auto
  then have fj: "fix_json j = j"
    by (simp add: j_def ascii_format_int)
  moreover have nj: "json_nums j" by (simp add: j_def list_all_iff)
  moreover have "map_of (rev (map (\<lambda>k. (k, the (m k))) ks)) = m"
  proof -
    have "map_of (map (\<lambda>k. (k, the (m k))) xs) k = (if k \<in> set xs then Some (the (m k)) else None)" for xs k
      by (induction xs) auto
    from this [of "rev ks"] dks show ?thesis by (auto simp: rev_map domIff intro!: ext)
  qed
  moreover have "jd_int_map jd_string [] j Map.empty =
      (Map.empty ++ map_of (rev (map (\<lambda>k. (k, the (m k))) ks)), False)"
    using jd_int_members_texts [of ks jd_string "[]" "\<lambda>k. JStr (the (m k))" Map.empty] i dks
    by (simp add: j_def jd_int_map_def list_ex_iff)
  ultimately have "jd_int_map jd_string [] (fix_json j) Map.empty = (m, False)" by (simp only: fj) simp
  with mj nj show ?thesis by (intro stored_byI)
qed

subsection \<open>The state\<close>

definition storable :: "AnchorState \<Rightarrow> bool" where
  "storable st \<longleftrightarrow>
     list_all is_i64 [TxInt st, Height st, BeginCalTxInt st, EndCalTxInt st, LatestCalTxInt st, CurrentCalInts st,
       LatestBtcaTxInt st, LatestBtcaHeight st, LatestBtccTxInt st, LatestBtccHeight st, BtcHeight st, LnStakePrice st,
       LnStakePerVal st, LatestBtcFee st, LastBtcFeeHeight st] \<and>
     list_all utf8 [ID st, LatestBtcTx st, LatestBtcAggRoot st, LatestErrRoot st, LastElectedCoreID st, LastAnchorCoreID st,
       LastErrorCoreID st, LatestNistRecord st, LatestTimeRecord st] \<and>
     finite (dom (TxValidations st)) \<and> finite (dom (LnUris st)) \<and> finite (dom (Migrations st)) \<and>
     (\<forall>k v. TxValidations st k = Some v \<longrightarrow> utf8 k \<and> TxValidation_ok v) \<and>
     (\<forall>k l. LnUris st k = Some l \<longrightarrow> utf8 k \<and> LnIdentity_utf8 l) \<and>
     (\<forall>n t. Migrations st n = Some t \<longrightarrow> is_i64 n \<and> utf8 t)"

text \<open>What has no JSON form.\<close>

definition on_disk :: "AnchorState \<Rightarrow> AnchorState" where
  "on_disk st = st\<lparr>CoreKeys := Map.empty, IDMap := Map.empty, Validators := [], TMState := ResultStatus_zero,
     TMNetInfo := [], LNState := LnInfo_zero, AppReady := False\<rparr>"

lemma jd_struct_members: "jd_struct fs (JObj ms) r = jd_members fs ms r"
  by (simp add: jd_struct_def)

lemma AnchorState_stored:
  assumes "storable st"
  shows "\<exists>j. AnchorState_json st = Inr j \<and> json_nums j \<and> jd_AnchorState (fix_json j) AnchorState_zero = (on_disk st, False)"
proof -
  obtain records where r: "json_map TxValidation_json (TxValidations st) = Inr records" "json_nums records"
    "jd_map jd_TxValidation TxValidation_zero (fix_json records) Map.empty = (TxValidations st, False)"
    using json_map_stored [of "TxValidations st" TxValidation_json jd_TxValidation TxValidation_zero] TxValidation_stored assms
    by (auto simp: storable_def stored_by_def)
  obtain uris where u: "json_map (\<lambda>l. Inr (LnIdentity_json l)) (LnUris st) = Inr uris" "json_nums uris"
    "jd_map jd_LnIdentity LnIdentity_zero (fix_json uris) Map.empty = (LnUris st, False)"
    using json_map_stored [of "LnUris st" "\<lambda>l. Inr (LnIdentity_json l)" jd_LnIdentity LnIdentity_zero] LnIdentity_stored assms
    by (auto simp: storable_def stored_by_def)
  obtain migs where m: "json_map (\<lambda>t. Inr (JStr t)) (int_keys (Migrations st)) = Inr migs" "json_nums migs"
    "jd_int_map jd_string [] (fix_json migs) Map.empty = (Migrations st, False)"
    using int_map_stored [of "Migrations st"] assms by (auto simp: storable_def stored_by_def)
  show ?thesis
    using assms r u m
    by (cases st) (simp add: storable_def AnchorState_json_def jd_AnchorState_def AnchorState_zero_def on_disk_def jd_struct_members find_field_exact jfield_def)
qed

lemma json_print_not_Nil: "json_nums j \<Longrightarrow> json_print j \<noteq> []"
  using json_print_head [of j] by auto

lemma saved_state_loads:
  assumes "db_laws D view" "db_reliable D" "storable st"
  shows "\<exists>d'. saveState D st d = Inr d' \<and> loadState D d' = Inr (on_disk st)"
proof -
  obtain j where j: "AnchorState_json st = Inr j" "json_nums j" "jd_AnchorState (fix_json j) AnchorState_zero = (on_disk st, False)"
    using AnchorState_stored [OF assms(3)] by blast
  let ?d = "fst (db_set D d stateKey (json_print j))"
  have "db_set D d stateKey (json_print j) = (?d, None)" using assms(2) by (simp add: db_reliable_def prod_eq_iff)
  from db_set_view [OF assms(1) this] have "view ?d stateKey = Some (json_print j)" by simp
  moreover obtain v where "db_get D ?d stateKey = Inr v" using assms(2) by (metis db_reliable_def is_ok_simps(1) sumE)
  ultimately have "db_get D ?d stateKey = Inr (Some (json_print j))" using db_get_view [OF assms(1)] by metis
  moreover have "unmarshal_ok jd_AnchorState AnchorState_zero (json_print j) = Some (on_disk st)"
    using j(2,3) by (simp add: unmarshal_ok_iff unmarshal_def json_parse_print_fix)
  ultimately show ?thesis using j json_print_not_Nil [OF j(2)] by (simp add: saveState_def loadState_def Let_def)
qed

end
