(* ===== verification/Abci_System.thy ===== *)
theory Abci_System
  imports Abci_Api State_Roundtrip
begin

text \<open>
  The program as a whole: a step relation on the application, in which a step is a handler that
  Tendermint calls, a pass of a goroutine, or a request, in any order and with whatever the outside
  answers; after a commit the node may also stop and start again on what it saved. Its invariant
  says that the state can always be saved, so that no commit ends the node for that reason. What was
  saved is what the node starts with.
\<close>

subsection \<open>Finite token buckets\<close>

definition bucket_ok :: "int \<Rightarrow> RateLimit \<Rightarrow> bool" where
  "bucket_ok h l \<longleftrightarrow> limit_ok l \<and> 0 \<le> LastCheck l \<and> LastCheck l \<le> h \<and>
     (\<exists>q. Bucket l = Fin q \<and> - 16777216 \<le> q \<and> q \<le> 16777216)"

lemma mk32_between:
  assumes "lo \<le> x" "x \<le> hi" "rnd lo = lo" "rnd hi = hi" "- (2 ^ 128) < lo" "hi < 2 ^ 128"
  shows "\<exists>y. mk32 x = Fin y \<and> lo \<le> y \<and> y \<le> hi"
proof -
  have "lo \<le> rnd x" "rnd x \<le> hi" using rnd_mono [OF assms(1)] rnd_mono [OF assms(2)] assms(3,4) by simp_all
  then show ?thesis using assms(5,6) by (simp add: mk32_def)
qed

lemma rnd_powers: "rnd 0 = 0" "rnd (2 ^ 63) = 2 ^ 63" "rnd (2 ^ 87) = 2 ^ 87" "rnd (2 ^ 88) = 2 ^ 88"
  "rnd 16777216 = 16777216" "rnd (- 16777216) = - 16777216" "rnd (- 16777217) = - 16777216"
  by code_simp+

lemma bucket_ok_mono: "bucket_ok h l \<Longrightarrow> h \<le> h' \<Longrightarrow> bucket_ok h' l"
  by (auto simp: bucket_ok_def)

lemma bucket_ok_accept:
  assumes "bucket_ok h l"
  shows "bucket_ok h (UpdateAcceptTx l)"
proof -
  obtain q where q: "Bucket l = Fin q" "- 16777216 \<le> q" "q \<le> 16777216" using assms by (auto simp: bucket_ok_def)
  have "rnd (- 16777217) \<le> rnd (q - 1)" "rnd (q - 1) \<le> rnd 16777216" using q by (auto intro!: rnd_mono)
  then have r: "- 16777216 \<le> rnd (q - 1)" "rnd (q - 1) \<le> 16777216" by (simp_all add: rnd_powers)
  then have "mk32 (q - 1) = Fin (rnd (q - 1))" by (simp add: mk32_def)
  with q r assms show ?thesis by (simp add: bucket_ok_def UpdateAcceptTx_def limit_ok_def)
qed

lemma ratio_bounds:
  assumes "limit_ok l"
  shows "\<exists>q. f_div (f_of_int (AllowedRate l)) (f_of_int (PerBlocks l)) = Fin q \<and> 0 \<le> q \<and> q \<le> 16777216"
proof -
  let ?a = "AllowedRate l" and ?p = "PerBlocks l"
  have s: "small ?a" "small ?p" and p: "1 \<le> ?p" and a: "0 \<le> ?a" "?a < 16777216"
    using assms by (auto simp: limit_ok_def small_def)
  have p1: "(1 :: rat) \<le> of_int ?p" using p by simp
  have a0: "(0 :: rat) \<le> of_int ?a" using a by simp
  have "of_int ?a / of_int ?p \<le> (of_int ?a / 1 :: rat)" using p1 a0 by (intro divide_left_mono) simp_all
  also have "\<dots> \<le> 16777216" using a(2) by simp
  finally have "of_int ?a / of_int ?p \<le> (16777216 :: rat)" .
  moreover have "0 \<le> (of_int ?a / of_int ?p :: rat)" using p1 a0 by simp
  ultimately obtain y where "mk32 (of_int ?a / of_int ?p) = Fin y" "0 \<le> y" "y \<le> 16777216"
    using mk32_between [of 0 "of_int ?a / of_int ?p" 16777216] by (auto simp: rnd_powers)
  then show ?thesis using s p by (simp add: f_div_fin_def)
qed

lemma bucket_ok_update:
  assumes "bucket_ok h l" "h < 2 ^ 63"
  shows "bucket_ok h (RateLimitUpdate h l)"
proof -
  obtain b where b: "Bucket l = Fin b" "- 16777216 \<le> b" "b \<le> 16777216" and ok: "limit_ok l"
    "0 \<le> LastCheck l" "LastCheck l \<le> h"
    using assms by (auto simp: bucket_ok_def)
  let ?d = "h - LastCheck l"
  have i: "i64 ?d = ?d" using ok assms(2) by (simp add: is_i64_def)
  have dl: "(of_int ?d :: rat) \<le> of_int (2 ^ 63)" and d0: "(of_int 0 :: rat) \<le> of_int ?d"
    unfolding of_int_le_iff using ok assms(2) by simp_all
  have "0 \<le> (of_int ?d :: rat)" "(of_int ?d :: rat) \<le> 2 ^ 63" using d0 dl by simp_all
  from mk32_between [OF this rnd_powers(1,2)] obtain d where d: "f_of_int ?d = Fin d" "0 \<le> d" "d \<le> 2 ^ 63"
    by (auto simp: f_of_int_def)
  obtain q where q: "f_div (f_of_int (AllowedRate l)) (f_of_int (PerBlocks l)) = Fin q" "0 \<le> q" "q \<le> 16777216"
    using ratio_bounds [OF ok(1)] by blast
  have "d * q \<le> 2 ^ 63 * 16777216" using d q by (intro mult_mono) simp_all
  then have "0 \<le> d * q" "d * q \<le> 2 ^ 87" using d q by simp_all
  from mk32_between [OF this rnd_powers(1,3)] obtain p where p: "mk32 (d * q) = Fin p" "0 \<le> p" "p \<le> 2 ^ 87"
    by auto
  have "- 16777216 \<le> b + p" "b + p \<le> 2 ^ 88" using b p by simp_all
  from mk32_between [OF this rnd_powers(6,4)] obtain s where s: "mk32 (b + p) = Fin s" "- 16777216 \<le> s" "s \<le> 2 ^ 88"
    by auto
  have a: "f_of_int (AllowedRate l) = Fin (of_int (AllowedRate l))" "0 \<le> AllowedRate l" "AllowedRate l < 16777216"
    using ok(1) by (simp_all add: limit_ok_def small_def)
  have "(of_int (AllowedRate l) :: rat) < of_int 16777216" "(of_int 0 :: rat) \<le> of_int (AllowedRate l)"
    unfolding of_int_less_iff of_int_le_iff using a by simp_all
  then have "\<exists>q. Bucket (RateLimitUpdate h l) = Fin q \<and> - 16777216 \<le> q \<and> q \<le> 16777216"
    using b s p d q a by (auto simp: RateLimitUpdate_def Let_def i)
  then show ?thesis using ok by (simp add: bucket_ok_def limit_ok_def)
qed

definition record_ok :: "int \<Rightarrow> TxValidation \<Rightarrow> bool" where
  "record_ok h r \<longleftrightarrow> bucket_ok h (JWKAllowedRate r) \<and> bucket_ok h (CalAllowedRate r) \<and> bucket_ok h (BtcaAllowedRate r) \<and>
     bucket_ok h (BtccAllowedRate r) \<and> bucket_ok h (NISTAllowedRate r) \<and> bucket_ok h (FeeAllowedRate r)"

lemma record_ok_mono: "record_ok h r \<Longrightarrow> h \<le> h' \<Longrightarrow> record_ok h' r"
  by (auto simp: record_ok_def intro: bucket_ok_mono)

lemma record_ok_new: "0 \<le> h \<Longrightarrow> record_ok h NewTxValidation"
  by (simp add: record_ok_def bucket_ok_def NewTxValidation_def rate_def limit_ok_def)

lemma validate_record_ok:
  assumes "validate_record tx st r = (r', v, e)" "record_ok (Height st) r" "Height st < 2 ^ 63"
  shows "record_ok (Height st) r'"
proof -
  have u: "bucket_ok (Height st) l \<Longrightarrow> bucket_ok (Height st) (RateLimitUpdate (Height st) l)"
    "bucket_ok (Height st) l \<Longrightarrow> bucket_ok (Height st) (UpdateAcceptTx (RateLimitUpdate (Height st) l))" for l
    using bucket_ok_update [OF _ assms(3)] bucket_ok_accept by blast+
  show ?thesis
    using assms(1,2)
    by (auto simp: validate_record_def Let_def record_ok_def u
        split: if_splits option.splits prod.splits)
qed

subsection \<open>The hash of a block\<close>

lemma put_uvarint_long: "128 ^ n \<le> x \<Longrightarrow> n < length (put_uvarint x)"
proof (induction x arbitrary: n rule: put_uvarint.induct)
  case (1 x)
  show ?case
  proof (cases "x < 128")
    case True
    have "n = 0"
    proof (rule ccontr)
      assume "n \<noteq> 0"
      then have "128 ^ 1 \<le> (128 :: nat) ^ n" by (intro power_increasing) simp_all
      then show False using "1.prems" True by simp
    qed
    then show ?thesis by (simp add: put_uvarint.simps [of x])
  next
    case False
    show ?thesis
    proof (cases n)
      case (Suc m)
      then have "128 ^ m \<le> x div 128" using "1.prems" by (simp add: less_eq_div_iff_mult_less_eq)
      then show ?thesis using "1.IH" [of m] False Suc by (simp add: put_uvarint.simps [of x])
    qed (simp add: put_uvarint.simps [of x])
  qed
qed

lemma app_hash_iff:
  assumes "0 \<le> h" "h < 2 ^ 63"
  shows "is_ok (app_hash h) \<longleftrightarrow> h < 2 ^ 55"
proof -
  have z: "put_varint h = put_uvarint (nat (2 * h))"
    using unat_zigzag_nonneg [OF assms] by (simp add: put_varint_def)
  have "length (put_varint h) \<le> 8" if "h < 2 ^ 55"
    unfolding z using that assms(1) by (intro put_uvarint_length) (simp_all add: nat_less_iff)
  moreover have "\<not> length (put_varint h) \<le> 8" if "\<not> h < 2 ^ 55"
  proof -
    have "(128 :: nat) ^ 8 \<le> nat (2 * h)" using that by (simp add: le_nat_iff)
    then show ?thesis unfolding z using put_uvarint_long [of 8 "nat (2 * h)"] by simp
  qed
  ultimately show ?thesis by (auto simp: app_hash_def Let_def)
qed

lemma app_hash_height:
  assumes "app_hash h = Inr b" "0 \<le> h" "h < 2 ^ 63"
  shows "map_option fst (get_uvarint b) = Some (nat (2 * h))"
proof -
  have "put_varint h = put_uvarint (nat (2 * h))"
    using unat_zigzag_nonneg [OF assms(2,3)] by (simp add: put_varint_def)
  with assms(1) show ?thesis by (auto simp: app_hash_def Let_def get_put_uvarint split: if_splits)
qed

subsection \<open>The invariant\<close>

text \<open>Every known key has a record, and every record has finite buckets.\<close>

definition state_ok :: "AnchorState \<Rightarrow> bool" where
  "state_ok st \<longleftrightarrow> 0 \<le> Height st \<and> Height st \<le> 2 ^ 55 \<and>
     (\<forall>c pk. CoreKeys st c = Some pk \<longrightarrow> TxValidations st (hex_encode (elliptic_marshal pk)) \<noteq> None) \<and>
     (\<forall>k r. TxValidations st k = Some r \<longrightarrow> record_ok (Height st) r)"

definition core :: "AnchorState \<Rightarrow> int \<times> (string \<rightharpoonup> PublicKey) \<times> (string \<rightharpoonup> TxValidation)" where
  "core st = (Height st, CoreKeys st, TxValidations st)"

lemma state_ok_core: "core st' = core st \<Longrightarrow> state_ok st' = state_ok st"
  by (simp add: core_def state_ok_def)

lemma core_updates [simp]:
  "core (st\<lparr>TxInt := a\<rparr>) = core st" "core (st\<lparr>ID := i\<rparr>) = core st" "core (st\<lparr>AmValidator := x\<rparr>) = core st"
  "core (st\<lparr>AppHash := b\<rparr>) = core st" "core (st\<lparr>BeginCalTxInt := a\<rparr>) = core st" "core (st\<lparr>EndCalTxInt := a\<rparr>) = core st"
  "core (st\<lparr>LatestCalTxInt := a\<rparr>) = core st" "core (st\<lparr>CurrentCalInts := a\<rparr>) = core st"
  "core (st\<lparr>LatestBtcaTx := b\<rparr>) = core st" "core (st\<lparr>LatestBtcaTxInt := a\<rparr>) = core st"
  "core (st\<lparr>LatestBtcaHeight := a\<rparr>) = core st" "core (st\<lparr>LatestBtcTx := i\<rparr>) = core st"
  "core (st\<lparr>LatestBtcAggRoot := i\<rparr>) = core st" "core (st\<lparr>LatestBtccTx := b\<rparr>) = core st"
  "core (st\<lparr>LatestBtccTxInt := a\<rparr>) = core st" "core (st\<lparr>LatestBtccHeight := a\<rparr>) = core st"
  "core (st\<lparr>LatestErrRoot := i\<rparr>) = core st" "core (st\<lparr>LastElectedCoreID := i\<rparr>) = core st"
  "core (st\<lparr>LastAnchorCoreID := i\<rparr>) = core st" "core (st\<lparr>LastErrorCoreID := i\<rparr>) = core st"
  "core (st\<lparr>BtcHeight := a\<rparr>) = core st" "core (st\<lparr>LnUris := m\<rparr>) = core st" "core (st\<lparr>IDMap := im\<rparr>) = core st"
  "core (st\<lparr>Validators := vs\<rparr>) = core st" "core (st\<lparr>TMState := ts\<rparr>) = core st" "core (st\<lparr>TMNetInfo := ps\<rparr>) = core st"
  "core (st\<lparr>LNState := lni\<rparr>) = core st" "core (st\<lparr>ChainSynced := x\<rparr>) = core st" "core (st\<lparr>JWKStaked := x\<rparr>) = core st"
  "core (st\<lparr>LnStakePrice := a\<rparr>) = core st" "core (st\<lparr>LnStakePerVal := a\<rparr>) = core st"
  "core (st\<lparr>LatestTimeRecord := i\<rparr>) = core st" "core (st\<lparr>LatestBtcFee := a\<rparr>) = core st"
  "core (st\<lparr>LastBtcFeeHeight := a\<rparr>) = core st" "core (st\<lparr>AppReady := x\<rparr>) = core st"
  by (simp_all add: core_def)

lemmas state_ok_updates [simp] = core_updates [THEN state_ok_core]

lemma known_record:
  assumes "state_ok st" "CoreKeys st c \<noteq> None"
  shows "\<exists>r. GetValidationRecord c st = (GetPubKeyHex c st, r, None) \<and> TxValidations st (GetPubKeyHex c st) = Some r \<and>
    record_ok (Height st) r"
proof -
  obtain pk where pk: "CoreKeys st c = Some pk" using assms(2) by blast
  then have g: "GetPubKeyHex c st = hex_encode (elliptic_marshal pk)" "GetPubKeyHex c st \<noteq> []"
    by (simp_all add: GetPubKeyHex_def elliptic_marshal_def)
  obtain r where "TxValidations st (hex_encode (elliptic_marshal pk)) = Some r"
    using assms(1) pk unfolding state_ok_def by blast
  with g assms(1) show ?thesis by (auto simp: GetValidationRecord_def state_ok_def)
qed

lemma state_ok_record:
  "state_ok st \<Longrightarrow> record_ok (Height st) r \<Longrightarrow> state_ok (st\<lparr>TxValidations := (TxValidations st)(k \<mapsto> r)\<rparr>)"
  by (auto simp: state_ok_def)

lemma Validate_state_ok:
  assumes "Validate cr b st = (st', tx, v, e)" "state_ok st"
  shows "state_ok st'"
proof (cases "DecodeTxAndVerifySig cr (CoreKeys st) b")
  case (Inr t)
  show ?thesis
  proof (cases "CoreKeys st (CoreID t) = None")
    case False
    obtain r where r: "GetValidationRecord (CoreID t) st = (GetPubKeyHex (CoreID t) st, r, None)" "record_ok (Height st) r"
      using known_record [OF assms(2) False] by blast
    obtain r' v' e' where v: "validate_record t st r = (r', v', e')" by (metis prod_cases3)
    have "Height st < 2 ^ 63" using assms(2) by (simp add: state_ok_def)
    from validate_record_ok [OF v r(2) this] assms Inr False r v show ?thesis
      by (auto simp: Validate_def intro: state_ok_record)
  qed (use assms Inr in \<open>auto simp: Validate_def split: if_splits\<close>)
qed (use assms in \<open>simp add: Validate_def\<close>)

lemma IncrementSuccessAnchor_state_ok: "state_ok st \<Longrightarrow> state_ok (fst (IncrementSuccessAnchor c st))"
proof (cases "CoreKeys st c = None")
  case False
  assume ok: "state_ok st"
  obtain r where r: "GetValidationRecord c st = (GetPubKeyHex c st, r, None)" "record_ok (Height st) r"
    using known_record [OF ok False] by blast
  then have "record_ok (Height st) (r\<lparr>ConfirmedAnchors := n\<rparr>)" for n by (simp add: record_ok_def)
  with ok r(1) show ?thesis
    by (auto simp: IncrementSuccessAnchor_def SetValidationRecord_def Let_def intro: state_ok_record)
qed (simp add: IncrementSuccessAnchor_def GetValidationRecord_def GetPubKeyHex_def)

lemma SetIdentity_state_ok:
  assumes "SetIdentity E tx app = Inr (app', j)" "state_ok (app_state app)"
  shows "state_ok (app_state app')"
proof -
  let ?st = "app_state app" and ?st' = "app_state app'"
  obtain pk where pk: "DecodePubKey (e_crypto E) tx = Inr pk"
    using assms(1) by (auto simp: SetIdentity_def split: option.splits sum.splits)
  let ?k = "hex_encode (elliptic_marshal pk)"
  have "Height ?st' = Height ?st" "CoreKeys ?st' = (CoreKeys ?st)(CoreID tx \<mapsto> pk)"
    "TxValidations ?st' = (case TxValidations ?st ?k of Some _ \<Rightarrow> TxValidations ?st
      | None \<Rightarrow> (TxValidations ?st)(?k \<mapsto> NewTxValidation))"
    using assms(1) pk by (auto simp: SetIdentity_def Let_def split: option.splits if_splits)
  then show ?thesis
    using assms(2) record_ok_new [of "Height ?st"] by (auto simp: state_ok_def split: option.splits if_splits)
qed

subsection \<open>What leaves the keys and the records alone\<close>

lemma core_if: "core (if b then s else t) = (if b then core s else core t)"
  by simp

text \<open>These follow the control flow of an operation that returns the state first.\<close>

lemma core_fst:
  "(\<And>a b. core (fst (f a b)) = c) \<Longrightarrow> core (fst (case p of (a, b) \<Rightarrow> f a b)) = c"
  "(\<And>a. core (fst (g a)) = c) \<Longrightarrow> (\<And>b. core (fst (h b)) = c) \<Longrightarrow>
    core (fst (case s of Inl a \<Rightarrow> g a | Inr b \<Rightarrow> h b)) = c"
  "core (fst x) = c \<Longrightarrow> core (fst y) = c \<Longrightarrow> core (fst (if b then x else y)) = c"
  by (simp_all split: prod.split sum.split)

lemma core_AnchorToChain: "core (fst (AnchorToChain E cfg b e st d)) = core st"
  unfolding AnchorToChain_def Let_def by (intro core_fst) (simp_all add: core_if)

lemma core_BlockSyncMonitor: "core (fst (BlockSyncMonitor E st d)) = core st"
  by (auto simp: BlockSyncMonitor_def core_def Let_def split: sum.splits prod.splits option.splits if_splits)

lemma core_StartAnchoring: "core (app_state (fst (StartAnchoring app))) = core (app_state app)"
  by (simp add: StartAnchoring_def core_def Let_def)

lemma core_CheckVoteValidator: "CheckVoteValidator E app = Inr (app', e) \<Longrightarrow> app_state app' = app_state app"
  by (auto simp: CheckVoteValidator_def Let_def split: sum.splits err.splits if_splits)

lemma core_CheckVoteChangeStake: "app_state (fst (CheckVoteChangeStake E app)) = app_state app"
  by (simp add: CheckVoteChangeStake_def Let_def split: list.splits option.splits)

lemma core_updateValidator: "updateValidator T D v app = Inr (app', r) \<Longrightarrow> app_state app' = app_state app"
  by (auto simp: updateValidator_def Let_def split: sum.splits option.splits if_splits)

lemma core_BeginTxMonitor: "core (fst (BeginTxMonitor E m st d)) = core st"
  by (auto simp: BeginTxMonitor_def core_def Let_def split: sum.splits prod.splits option.splits if_splits)

lemma core_check_failed: "core (fst (check_failed D h (st, d, effs) s)) = core st"
  by (auto simp: check_failed_def ResetAnchor_def core_def Let_def split: sum.splits prod.splits option.splits if_splits)

lemma core_checks: "core (fst (foldl (check_failed D h) (st, d, effs) ss)) = core st"
proof (induction ss arbitrary: st d effs)
  case (Cons s ss)
  obtain st' d' effs' where c: "check_failed D h (st, d, effs) s = (st', d', effs')" by (metis prod_cases3)
  with Cons [of st' d' effs'] core_check_failed [of D h st d effs s] show ?case by simp
qed simp

lemma core_MonitorFailedAnchor: "core (fst (MonitorFailedAnchor D st d)) = core st"
  by (simp add: MonitorFailedAnchor_def core_checks split: sum.splits)

lemma core_block_monitors: "core (fst (block_monitors E a st d)) = core st"
proof -
  obtain st1 d1 where b: "BlockSyncMonitor E st d = (st1, d1)" by (cases "BlockSyncMonitor E st d")
  obtain d2 c where m: "MonitorConfirmedTx E st1 d1 = (d2, c)" by (cases "MonitorConfirmedTx E st1 d1")
  have "core st1 = core st" using core_BlockSyncMonitor [of E st d] b by simp
  then show ?thesis using core_MonitorFailedAnchor [of "e_db E" st1 d2]
    by (auto simp: block_monitors_def b m split: prod.splits)
qed

lemma core_set_stake_pass: "set_stake_pass E fuel app = Some (Inr (app', b)) \<Longrightarrow> core (app_state app') = core (app_state app)"
  by (auto simp: set_stake_pass_def core_def Let_def bind_err_Inr_iff split: sum.splits option.splits if_splits)

lemma core_check_credentials: "check_credentials E app = Inr app' \<Longrightarrow> core (app_state app') = core (app_state app)"
  by (auto simp: check_credentials_def core_def Let_def split: sum.splits option.splits list.splits if_splits)

lemma core_stake_pass: "core (app_state (fst (stake_pass E app))) = core (app_state app)"
  by (simp add: stake_pass_def core_def Let_def split: prod.splits option.splits)

lemma core_SyncMonitor_pass: "SyncMonitor_pass R pe app = Inr app' \<Longrightarrow> core (app_state app') = core (app_state app)"
  by (auto simp: SyncMonitor_pass_def set_state_def core_def Let_def split: sum.splits if_splits)

lemma core_BeaconMonitor: "BeaconMonitor cap r app = Inr (app', s) \<Longrightarrow> core (app_state app') = core (app_state app)"
  by (auto simp: BeaconMonitor_def set_state_def core_def Let_def bind_err_Inr_iff split: prod.splits if_splits)

lemma core_FeeMonitor: "core (app_state (FeeMonitor L r app)) = core (app_state app)"
  by (simp add: FeeMonitor_def core_def Let_def)

lemma core_validate_val:
  assumes "validate_val app tx = Inr (app', r)" "state_ok (app_state app)"
  shows "app' = app"
proof -
  have "app\<lparr>app_state := fst (SetValidationRecord (CoreID tx) q (app_state app))\<rparr> = app"
    if "GetValidationRecord (CoreID tx) (app_state app) = (k, r, Some e)" for k r e q
    using that known_record [OF assms(2), of "CoreID tx"]
    by (cases "CoreKeys (app_state app) (CoreID tx)") (auto simp: SetValidationRecord_def GetPubKeyHex_def)
  then have "(case GetValidationRecord (CoreID tx) (app_state app) of
      (_, r, Some e) \<Rightarrow> app\<lparr>app_state := fst (SetValidationRecord (CoreID tx)
        (r\<lparr>UnAuthValSubmissions := i64 (UnAuthValSubmissions r + 1)\<rparr>) (app_state app))\<rparr>
    | (_, _, None) \<Rightarrow> app) = app"
    by (auto split: prod.splits option.splits)
  with assms(1) show ?thesis
    by (auto simp: validate_val_def Let_def split: sum.splits err.splits prod.splits if_splits)
qed

subsection \<open>Transactions\<close>

lemma state_ok_same: "state_ok (app_state app) \<Longrightarrow> core (app_state app') = core (app_state app) \<Longrightarrow> state_ok (app_state app')"
  using state_ok_core by blast

lemma validateTx_state_ok:
  assumes "validateTx E b app = Inr (app', r)" "state_ok (app_state app)"
  shows "state_ok (app_state app')"
proof -
  obtain st tx v e where v: "Validate (e_crypto E) b (app_state app) = (st, tx, v, e)" by (metis prod_cases4)
  have ok: "state_ok st" using Validate_state_ok [OF v assms(2)] .
  then have "validate_val (app\<lparr>app_state := st\<rparr>) t = Inr (app', r) \<Longrightarrow> state_ok (app_state app')" for t
    using core_validate_val by fastforce
  then show ?thesis
    using assms v ok core_validate_val [of app _ app' r]
    by (auto simp: validateTx_def Let_def split: if_splits option.splits prod.splits)
qed

lemma incrementTxInt_core: "incrementTxInt tags app = (app', t) \<Longrightarrow> core (app_state app') = core (app_state app)"
  by (auto simp: incrementTxInt_def Let_def)

lemma deliver_btcc_state_ok: "state_ok (app_state app) \<Longrightarrow> state_ok (app_state (fst (deliver_btcc tx app)))"
proof -
  assume ok: "state_ok (app_state app)"
  then have "state_ok (app_state app1)" if "btcc_seen tx app = Some (app1, tags)" for app1 tags
    using that by (auto simp: btcc_seen_def set_state_def split: if_splits option.splits)
  with ok show ?thesis
    by (auto simp: deliver_btcc_def ignored_def set_state_def incrementTxInt_def Let_def
        intro!: IncrementSuccessAnchor_state_ok split: option.splits)
qed

lemma deliver_jwk_state_ok:
  assumes "deliver_jwk E tx app = Inr (app', r)" "state_ok (app_state app)"
  shows "state_ok (app_state app')"
proof (cases "SetIdentity E tx app")
  case (Inl e)
  then show ?thesis using assms by (auto simp: deliver_jwk_def SaveIdentity_def ignored_def split: err.splits)
next
  case (Inr p)
  then obtain a j where p: "SetIdentity E tx app = Inr (a, j)" by (cases p) simp
  have "state_ok (app_state a)" using SetIdentity_state_ok [OF p assms(2)] .
  moreover have "core (app_state app') = core (app_state a)"
    using assms(1) p by (auto simp: deliver_jwk_def SaveIdentity_def incrementTxInt_def Let_def)
  ultimately show ?thesis by (rule state_ok_same)
qed

lemma DeliverTx_state_ok:
  assumes "DeliverTx E T b app = Inr (app', r)" "state_ok (app_state app)"
  shows "state_ok (app_state app')"
proof -
  obtain tx a tags resp effs where d: "deliver E T b tx app = Inr (a, tags, resp, effs)" "app' = a"
    using assms(1) by (auto simp: DeliverTx_def updateStateFromTx_def Let_def bind_err_Inr_iff)
  have val: "core (app_state a) = core (app_state app)" if "deliver_val T (e_db E) tx app = Inr (a, tags, resp, effs)"
    using that core_updateValidator
    by (fastforce simp: deliver_val_def execValidatorTx_def incrementTxInt_def Let_def bind_err_Inr_iff
        split: sum.splits err.splits prod.splits)
  show ?thesis unfolding d(2)
    using d(1) assms(2) val state_ok_core [of "app_state a" "app_state app"] deliver_jwk_state_ok [of E tx app a]
      deliver_btcc_state_ok [of app tx]
    by (auto simp: deliver_def deliver_stake_def deliver_cal_def deliver_btca_def deliver_fee_def ignored_def
        set_state_def incrementTxInt_def Let_def split: if_splits option.splits)
qed

lemma set_identities_state_ok:
  "set_identities E txs app = Inr app' \<Longrightarrow> state_ok (app_state app) \<Longrightarrow> state_ok (app_state app')"
proof (induction E txs app rule: set_identities.induct)
  case (2 E tx txs app)
  then show ?case using SetIdentity_state_ok [of E tx app] by (auto split: sum.splits err.splits)
qed simp

subsection \<open>The steps of a node\<close>

text \<open>A step is one call of a handler, one pass of a goroutine or one request that changes the
  application and does not panic. Its environment is free: between two steps the outside world may
  have changed in any way.\<close>

inductive app_step :: "'d App \<Rightarrow> 'd App \<Rightarrow> bool" where
  step_init: "InitChain T D vs app = Inr app' \<Longrightarrow> app_step app app'"
| step_check: "CheckTx E tx app = Inr (app', r) \<Longrightarrow> app_step app app'"
| step_begin: "app_step app (BeginBlock app)"
| step_deliver: "DeliverTx E T tx app = Inr (app', r, effs) \<Longrightarrow> app_step app app'"
| step_end: "EndBlock E app = Inr (app', us, effs) \<Longrightarrow> app_step app app'"
| step_commit: "Commit E app = Inr (app', h) \<Longrightarrow> app_step app app'"
| step_sync: "SyncMonitor_pass R e app = Inr app' \<Longrightarrow> app_step app app'"
| step_beacon: "BeaconMonitor c b app = Inr (app', seed) \<Longrightarrow> app_step app app'"
| step_fee: "app_step app (FeeMonitor L b app)"
| step_stake: "set_stake_pass E n app = Some (Inr (app', fin)) \<Longrightarrow> app_step app app'"
| step_identities: "load_identity_pass E n app = Some (Inr (app', fin)) \<Longrightarrow> app_step app app'"
| step_credentials: "check_credentials E app = Inr app' \<Longrightarrow> app_step app app'"
| step_staking: "app_step app (fst (stake_pass E app))"
| step_calendar: "AnchorCalendar E s app = (s', app', effs, r) \<Longrightarrow> app_step app app'"
| step_anchor: "AnchorToChain E (app_config app) b e (app_state app) (Db app) = (st, d, effs, err) \<Longrightarrow>
    app_step app (app\<lparr>app_state := st, Db := d\<rparr>)"
| step_monitor: "BeginTxMonitor E m (app_state app) (Db app) = (st, d, err) \<Longrightarrow>
    app_step app (app\<lparr>app_state := st, Db := d\<rparr>)"
| step_blocks: "block_monitors E a (app_state app) (Db app) = (st, d, effs) \<Longrightarrow>
    app_step app (app\<lparr>app_state := st, Db := d\<rparr>)"
| step_confirm: "ConfirmAnchor E (app_config app) rs m (Db app) = (d, effs) \<Longrightarrow> app_step app (app\<lparr>Db := d\<rparr>)"
| step_prune: "app_step app (app\<lparr>Db := PruneOldState D now (Db app)\<rparr>)"
| step_hash: "HashHandler E lsat ulid req app = (app', resp) \<Longrightarrow> app_step app app'"
| step_invoice: "app_step app (LnPaymentHandler_invoice E paid app)"

text \<open>A node starts on an empty database, or again on the database that its last commit left. (Of the
  saved state only what a JSON text and a 64-bit integer can hold is assumed, \<open>storable\<close>.)\<close>

definition app_start :: "'d App \<Rightarrow> bool" where
  "app_start app \<longleftrightarrow> (\<exists>E cfg ln_ready jwk i d effs.
     db_get (e_db E) d stateKey = Inr None \<and> NewAnchorApplication E cfg ln_ready jwk i d = Inr (app, effs))"

inductive app_restart :: "'d App \<Rightarrow> 'd App \<Rightarrow> bool" where
  restart: "Commit E app = Inr (app', h) \<Longrightarrow> storable (app_state app') \<Longrightarrow> db_laws (e_db E) view \<Longrightarrow> db_reliable (e_db E) \<Longrightarrow>
    NewAnchorApplication E cfg ln_ready jwk i (Db app') = Inr (app'', effs) \<Longrightarrow> app_restart app app''"

abbreviation app_reachable :: "'d App \<Rightarrow> bool" where
  "app_reachable \<equiv> reachable app_start (\<lambda>app app'. app_step app app' \<or> app_restart app app')"

lemma init_validators_state: "init_validators T D vs app = Inr app' \<Longrightarrow> app_state app' = app_state app"
  by (induction vs arbitrary: app) (auto simp: bind_err_Inr_iff dest: core_updateValidator)

lemma AnchorCalendar_state: "AnchorCalendar E s app = (s', app', effs, r) \<Longrightarrow> app_state app' = app_state app"
  by (auto simp: AnchorCalendar_def Let_def split: if_splits sum.splits prod.splits)

lemma HashHandler_state: "app_state (fst (HashHandler E lsat ulid req app)) = app_state app"
  by (simp add: HashHandler_def Let_def split: option.split prod.split sum.split)

lemma LnPaymentHandler_state: "app_state (LnPaymentHandler_invoice E paid app) = app_state app"
  by (simp add: LnPaymentHandler_invoice_def Let_def)

text \<open>A whole subscription is a sequence of steps.\<close>

lemma LnPaymentHandler_steps: "app_step\<^sup>*\<^sup>* app (LnPaymentHandler E events app)"
proof -
  have "app_step\<^sup>*\<^sup>* app (LnPaymentHandler_select E events app)"
    by (induction E events app rule: LnPaymentHandler_select.induct)
      (auto intro: step_invoice converse_rtranclp_into_rtranclp)
  then show ?thesis by (simp add: LnPaymentHandler_def)
qed

lemma EndBlock_core: "EndBlock E app = Inr (app', us, effs) \<Longrightarrow> core (app_state app') = core (app_state app)"
proof -
  assume e: "EndBlock E app = Inr (app', us, effs)"
  obtain app1 anchors where a: "StartAnchoring app = (app1, anchors)" by (cases "StartAnchoring app")
  obtain app2 votes where v: "CheckVoteValidator E app1 = Inr (app2, votes)" and "app' = fst (CheckVoteChangeStake E app2)"
    using e by (auto simp: EndBlock_def a Let_def bind_err_Inr_iff case_prod_beta)
  then have "app_state app' = app_state app1" using core_CheckVoteChangeStake core_CheckVoteValidator [OF v] by metis
  then show ?thesis using core_StartAnchoring [of app] a by simp
qed

lemma Commit_Inr_iff:
  "Commit E app = Inr (app', h) \<longleftrightarrow> app_hash (Height (app_state app)) = Inr h \<and>
    (\<exists>st d. st = (app_state app)\<lparr>AppHash := h, Height := i64 (Height (app_state app) + 1)\<rparr> \<and>
       saveState (e_db E) st (Db app) = Inr d \<and> app' = app\<lparr>app_state := st, Db := d\<rparr>)"
  by (auto simp: Commit_def bind_err_Inr_iff Let_def)

lemma state_ok_height: "state_ok st \<Longrightarrow> Height st < 2 ^ 55 \<Longrightarrow> state_ok (st\<lparr>AppHash := h, Height := Height st + 1\<rparr>)"
  using record_ok_mono [of "Height st" _ "Height st + 1"] by (auto simp: state_ok_def)

lemma Commit_state_ok:
  assumes "Commit E app = Inr (app', h)" "state_ok (app_state app)"
  shows "state_ok (app_state app')"
proof -
  have b: "0 \<le> Height (app_state app)" "Height (app_state app) < 2 ^ 63" using assms(2) by (simp_all add: state_ok_def)
  have "is_ok (app_hash (Height (app_state app)))" using assms(1) by (auto simp: Commit_Inr_iff)
  then have l: "Height (app_state app) < 2 ^ 55" using app_hash_iff [OF b] by simp
  then have "i64 (Height (app_state app) + 1) = Height (app_state app) + 1" using b by (simp add: is_i64_def)
  with state_ok_height [OF assms(2) l] assms(1) show ?thesis by (auto simp: Commit_Inr_iff)
qed

lemma app_step_state_ok: "app_step app app' \<Longrightarrow> state_ok (app_state app) \<Longrightarrow> state_ok (app_state app')"
proof (induction rule: app_step.induct)
  case (step_init T D vs app app')
  then show ?case by (simp add: InitChain_def init_validators_state)
next
  case (step_check E tx app app' r)
  then show ?case unfolding CheckTx_def by (rule validateTx_state_ok)
next
  case (step_begin app)
  then show ?case by (simp add: BeginBlock_def)
next
  case (step_deliver E T tx app app' r effs)
  then show ?case by (rule DeliverTx_state_ok)
next
  case (step_end E app app' us effs)
  show ?case using state_ok_same [OF step_end(2) EndBlock_core [OF step_end(1)]] .
next
  case (step_commit E app app' h)
  then show ?case by (rule Commit_state_ok)
next
  case (step_sync R e app app')
  show ?case using state_ok_same [OF step_sync(2) core_SyncMonitor_pass [OF step_sync(1)]] .
next
  case (step_beacon c b app app' seed)
  show ?case using state_ok_same [OF step_beacon(2) core_BeaconMonitor [OF step_beacon(1)]] .
next
  case (step_fee app L b)
  show ?case using state_ok_same [OF step_fee core_FeeMonitor] .
next
  case (step_stake E n app app' fin)
  show ?case using state_ok_same [OF step_stake(2) core_set_stake_pass [OF step_stake(1)]] .
next
  case (step_identities E n app app' fin)
  then show ?case
    by (auto simp: load_identity_pass_def bind_err_Inr_iff split: sum.splits option.splits intro: set_identities_state_ok)
next
  case (step_credentials E app app')
  show ?case using state_ok_same [OF step_credentials(2) core_check_credentials [OF step_credentials(1)]] .
next
  case (step_staking app E)
  show ?case using state_ok_same [OF step_staking core_stake_pass] .
next
  case (step_calendar E s app s' app' effs r)
  then show ?case by (simp add: AnchorCalendar_state [OF step_calendar(1)])
next
  case (step_anchor E app b e st d effs err)
  then show ?case using core_AnchorToChain [of E "app_config app" b e "app_state app" "Db app"] state_ok_core [of st "app_state app"] by simp
next
  case (step_monitor E m app st d err)
  then show ?case using core_BeginTxMonitor [of E m "app_state app" "Db app"] state_ok_core [of st "app_state app"] by simp
next
  case (step_blocks E a app st d effs)
  then show ?case using core_block_monitors [of E a "app_state app" "Db app"] state_ok_core [of st "app_state app"] by simp
next
  case (step_hash E lsat ulid req app app' resp)
  then show ?case using HashHandler_state [of E lsat ulid req app] by simp
qed (simp_all add: LnPaymentHandler_state)

lemma app_start_state_ok: "app_start app \<Longrightarrow> state_ok (app_state app)"
  by (auto simp: app_start_def NewAnchorApplication_def loadState_def Let_def bind_err_Inr_iff state_ok_def AnchorState_zero_def
      split: if_splits)

text \<open>What a node starts with after a commit: the state it had, but for what it learns again.\<close>

definition restarted :: "AnchorState \<Rightarrow> AnchorState" where
  "restarted st = (on_disk st)\<lparr>ChainSynced := False\<rparr>"

lemma restart_state:
  assumes "db_laws (e_db E) view" "db_reliable (e_db E)" "Commit E app = Inr (app', h)" "storable (app_state app')"
  shows "NewAnchorApplication E cfg ln_ready jwk i (Db app') = Inr (app'', effs) \<Longrightarrow> app_state app'' = restarted (app_state app')"
    and "ln_ready = None \<Longrightarrow> is_ok (GenerateKey jwk i) \<Longrightarrow> is_ok (NewAnchorApplication E cfg ln_ready jwk i (Db app'))"
proof -
  obtain d where "saveState (e_db E) (app_state app') d = Inr (Db app')" using assms(3) by (auto simp: Commit_Inr_iff)
  then have l: "loadState (e_db E) (Db app') = Inr (on_disk (app_state app'))"
    using saved_state_loads [OF assms(1,2,4), of d] by auto
  then show "NewAnchorApplication E cfg ln_ready jwk i (Db app') = Inr (app'', effs) \<Longrightarrow> app_state app'' = restarted (app_state app')"
    by (auto simp: NewAnchorApplication_def bind_err_Inr_iff Let_def restarted_def on_disk_def split: if_splits)
  show "ln_ready = None \<Longrightarrow> is_ok (GenerateKey jwk i) \<Longrightarrow> is_ok (NewAnchorApplication E cfg ln_ready jwk i (Db app'))"
    using l by (simp add: NewAnchorApplication_def is_ok_bind Let_def)
qed

lemma state_ok_restarted: "state_ok st \<Longrightarrow> state_ok (restarted st)"
  by (simp add: state_ok_def restarted_def on_disk_def)

lemma app_restart_state_ok: "app_restart app app' \<Longrightarrow> state_ok (app_state app) \<Longrightarrow> state_ok (app_state app')"
proof (induction rule: app_restart.induct)
  case (restart E app app' h view cfg ln_ready jwk i app'' effs)
  then show ?case using restart_state(1) [OF restart(3,4,1,2,5)] Commit_state_ok state_ok_restarted by metis
qed

interpretation node: invariant app_start "\<lambda>app app'. app_step app app' \<or> app_restart app app'" "\<lambda>app. state_ok (app_state app)"
  by unfold_locales (auto intro: app_start_state_ok app_step_state_ok app_restart_state_ok)

subsection \<open>Saving the state\<close>

lemma map_err_ok: "(\<And>x. x \<in> set xs \<Longrightarrow> is_ok (f x)) \<Longrightarrow> is_ok (map_err f xs)"
  by (induction xs) (auto simp: is_ok_bind)

lemma json_map_ok:
  assumes "\<And>k x. m k = Some x \<Longrightarrow> is_ok (f x)"
  shows "is_ok (json_map f m)"
proof -
  have "is_ok (case p of (k, x) \<Rightarrow> bind_err (f x) (\<lambda>j. Inr (k, j)))" if p: "p \<in> set (map_members m)" for p
  proof -
    have "set (sorted_list_of_set (dom m)) \<subseteq> dom m" by (cases "finite (dom m)") auto
    then obtain k x where "p = (k, x)" "m k = Some x" using p by (auto simp: map_members_def)
    with assms show ?thesis by (simp add: is_ok_bind)
  qed
  then show ?thesis by (simp add: json_map_def is_ok_bind map_err_ok)
qed

lemma RateLimit_json_ok: "bucket_ok h l \<Longrightarrow> is_ok (RateLimit_json l)"
  by (auto simp: bucket_ok_def RateLimit_json_def json_f32_def)

lemma TxValidation_json_ok: "record_ok h r \<Longrightarrow> is_ok (TxValidation_json r)"
  using RateLimit_json_ok by (auto simp: record_ok_def TxValidation_json_def is_ok_bind)

lemma AnchorState_json_ok:
  assumes "state_ok st"
  shows "is_ok (AnchorState_json st)"
proof -
  have "is_ok (json_map TxValidation_json (TxValidations st))"
    using assms by (intro json_map_ok TxValidation_json_ok [of "Height st"]) (auto simp: state_ok_def)
  moreover have "is_ok (json_map (\<lambda>l. Inr (LnIdentity_json l)) (LnUris st))"
    "is_ok (json_map (\<lambda>t. Inr (JStr t)) (int_keys (Migrations st)))"
    by (simp_all add: json_map_ok)
  ultimately show ?thesis by (simp add: AnchorState_json_def is_ok_bind)
qed

text \<open>C6. Whatever the handlers, the goroutines and the requests did since the node started, in whatever
  order, the state can be saved: \<open>Commit\<close> increases the height, answers with the hash of the old
  one and writes the whole state as JSON (no token bucket is ever infinite or NaN, which JSON
  cannot express), and it panics from height 2^55 on, where the varint of the height needs nine
  bytes.\<close>

theorem reachable_commits:
  assumes "app_reachable app"
  shows "0 \<le> Height (app_state app) \<and>
    (if Height (app_state app) < 2 ^ 55 then
       (\<exists>h st j. app_hash (Height (app_state app)) = Inr h \<and>
          st = (app_state app)\<lparr>AppHash := h, Height := Height (app_state app) + 1\<rparr> \<and> AnchorState_json st = Inr j \<and>
          Commit E app = Inr (app\<lparr>app_state := st, Db := fst (db_set (e_db E) (Db app) stateKey (json_print j))\<rparr>, h))
     else Commit E app = Inl (Panic ''index out of range''))"
proof -
  let ?h = "Height (app_state app)"
  have ok: "state_ok (app_state app)" using assms by (rule node.reachable_inv)
  then have b: "0 \<le> ?h" "?h < 2 ^ 63" by (simp_all add: state_ok_def)
  note iff = app_hash_iff [OF b]
  show ?thesis
  proof (cases "?h < 2 ^ 55")
    case True
    then obtain h where h: "app_hash ?h = Inr h" using iff by (cases "app_hash ?h") auto
    define st where "st = (app_state app)\<lparr>AppHash := h, Height := ?h + 1\<rparr>"
    obtain j where j: "AnchorState_json st = Inr j"
      using AnchorState_json_ok [OF state_ok_height [OF ok True], of h] unfolding st_def [symmetric]
      by (cases "AnchorState_json st") simp_all
    have "i64 (?h + 1) = ?h + 1" using b(1) True by (simp add: is_i64_def)
    then have "Commit E app = Inr (app\<lparr>app_state := st, Db := fst (db_set (e_db E) (Db app) stateKey (json_print j))\<rparr>, h)"
      using h j by (simp add: Commit_def saveState_def Let_def st_def)
    with True b h j st_def show ?thesis by auto
  next
    case False
    then have "app_hash ?h = Inl (Panic ''index out of range'')" using iff by (auto simp: app_hash_def Let_def)
    with False b show ?thesis by (simp add: Commit_def)
  qed
qed

theorem reachable_commits_witness:
  "\<exists>app st j. app_reachable app \<and> Height (app_state app) = 0 \<and> AnchorState_json st = Inr j \<and>
    Commit toy_world app = Inr (app\<lparr>app_state := st, Db := [(stateKey, json_print j)]\<rparr>, replicate 8 (CHR 0x00))"
proof -
  define app where "app = toy_app\<lparr>app_state := AnchorState_zero\<lparr>CoreKeys := Map.empty, ChainSynced := False\<rparr>, app_ID := [],
    JWK := Jwk_zero\<lparr>Kid := ''k''\<rparr>\<rparr>"
  have f: "Db app = []" "Height (app_state app) = 0" by (simp_all add: app_def toy_app_def AnchorState_zero_def)
  have k: "GenerateKey (Inr ''{}'') ''k'' = Inr (Jwk_zero\<lparr>Kid := ''k''\<rparr>)" by code_simp
  have "app_start app"
    unfolding app_start_def
  proof (intro exI conjI)
    show "NewAnchorApplication toy_world toy_cfg None (Inr ''{}'') ''k'' [] = Inr (app,
      (if DoCal toy_cfg then [GoEvent ''go'' ''StartAggregation''] else []) @
      map (GoEvent ''go'') [''SyncMonitor'', ''LoadIdentity'', ''SetStake'', ''StakeIdentity''])"
      by (simp add: NewAnchorApplication_def loadState_def mem_db_def k app_def toy_app_def Let_def)
    show "db_get (e_db toy_world) [] stateKey = Inr None" by (simp add: mem_db_def)
  qed
  then have r: "app_reachable app" by (rule reach_first)
  have "app_hash 0 = Inr (replicate 8 (CHR 0x00))" by code_simp
  then show ?thesis using reachable_commits [OF r, of toy_world] r f by (auto simp: mem_db_def intro!: exI [of _ app])
qed

text \<open>C9. A node that stops after a commit and starts again goes on with the state it had. The start does
  not fail because of what is on disk, and every field of the state that has a JSON form is as the
  commit left it, the token buckets, which are \<open>float32\<close> numbers, included; the others are empty and
  the chain counts as not synced.\<close>

theorem restart_resumes:
  assumes "db_laws (e_db E) view" "db_reliable (e_db E)" "Commit E app = Inr (app', h)" "storable (app_state app')"
    "is_ok (GenerateKey jwk i)"
  shows "\<exists>app'' effs. NewAnchorApplication E cfg None jwk i (Db app') = Inr (app'', effs) \<and>
    app_state app'' = (app_state app')\<lparr>CoreKeys := Map.empty, IDMap := Map.empty, Validators := [],
      TMState := ResultStatus_zero, TMNetInfo := [], LNState := LnInfo_zero, ChainSynced := False, AppReady := False\<rparr>"
proof -
  obtain app'' effs where n: "NewAnchorApplication E cfg None jwk i (Db app') = Inr (app'', effs)"
    using restart_state(2) [OF assms(1-4) refl assms(5), of cfg]
    by (cases "NewAnchorApplication E cfg None jwk i (Db app')") auto
  with restart_state(1) [OF assms(1-4) n] show ?thesis by (auto simp: restarted_def on_disk_def)
qed

theorem restart_resumes_witness:
  "\<exists>app app' h app'' effs. Commit toy_world app = Inr (app', h) \<and> TxValidations (app_state app') = [''key'' \<mapsto> NewTxValidation] \<and>
    NewAnchorApplication toy_world toy_cfg None (Inr ''{}'') ''k'' (Db app') = Inr (app'', effs) \<and>
    TxValidations (app_state app'') = [''key'' \<mapsto> NewTxValidation] \<and> Height (app_state app'') = 1"
proof -
  define app where "app = toy_app\<lparr>app_state := AnchorState_zero\<lparr>TxValidations := [''key'' \<mapsto> NewTxValidation]\<rparr>\<rparr>"
  have h: "app_hash 0 = Inr (replicate 8 (CHR 0x00))" by code_simp
  define st where "st = (app_state app)\<lparr>AppHash := replicate 8 (CHR 0x00), Height := 1\<rparr>"
  have f: "is_f32 80" "is_f32 6" "is_f32 4" "is_f32 2" "is_f32 1" "is_f32 0"
    using rnd_int [of 80] rnd_int [of 6] rnd_int [of 4] rnd_int [of 2] rnd_int [of 1] by (simp_all add: is_f32_def)
  have "TxValidation_ok NewTxValidation"
    by (simp add: TxValidation_ok_def NewTxValidation_def TxValidation_zero_def RateLimit_ok_def RateLimit_zero_def rate_def is_i64_def f)
  then have ok: "storable st"
    by (auto simp: storable_def st_def app_def toy_app_def AnchorState_zero_def is_i64_def split: if_splits)
  obtain d where d: "saveState mem_db st [] = Inr d" using saved_state_loads [OF mem_db_laws mem_db_reliable ok, of "[]"] by blast
  define app' where "app' = app\<lparr>app_state := st, Db := d\<rparr>"
  have i1: "i64 1 = 1" by (simp add: i64_def)
  have c: "Commit toy_world app = Inr (app', replicate 8 (CHR 0x00))"
    using h d i1 by (simp add: Commit_def Let_def st_def app'_def app_def toy_app_def AnchorState_zero_def)
  have k: "is_ok (GenerateKey (Inr ''{}'') ''k'')" by code_simp
  have "storable (app_state app')" using ok by (simp add: app'_def)
  from restart_resumes [of toy_world map_of, OF _ _ c this k, of toy_cfg] obtain app'' effs where
    "NewAnchorApplication toy_world toy_cfg None (Inr ''{}'') ''k'' (Db app') = Inr (app'', effs)"
    "TxValidations (app_state app'') = TxValidations (app_state app')" "Height (app_state app'') = Height (app_state app')"
    using mem_db_laws mem_db_reliable by auto
  then show ?thesis using c by (intro exI [of _ app] exI [of _ app'] exI [of _ app''] exI) (auto simp: app'_def st_def app_def)
qed

end
