(* ===== verification/Node_Status.thy ===== *)
theory Node_Status
  imports Abci_Api
begin

text \<open>
  Small operations that other parts are built from or that report on a node: the queries of
  \<open>src/tendermintrpc/rpc.go\<close> that pass an answer on, the status of another Core and further helpers of
  \<open>src/util/util.go\<close>, the success ratios of \<open>src/txratelimiter/validation.go\<close> and the id generator of
  \<open>src/ulidthreadsafe/threadsafe_ulid.go\<close>.
\<close>

subsection \<open>Queries that pass an answer on\<close>

text \<open>\<open>None\<close> is the nil client.\<close>

definition GetStatus :: "Rpc option \<Rightarrow> ResultStatus \<times> err option" where
  "GetStatus R =
     (case R of
        None \<Rightarrow> (ResultStatus_zero, Some (Err ''tendermintRpc failure''))
      | Some R \<Rightarrow> (case rpc_status R of Inl e \<Rightarrow> (ResultStatus_zero, Some e) | Inr st \<Rightarrow> (st, None)))"

definition GetNetInfo :: "Rpc option \<Rightarrow> NetPeer list \<times> err option" where
  "GetNetInfo R =
     (case R of
        None \<Rightarrow> ([], Some (Err ''tendermintRpc failure''))
      | Some R \<Rightarrow> (case rpc_net_info R of Inl e \<Rightarrow> ([], Some e) | Inr ps \<Rightarrow> (ps, None)))"

text \<open>\<open>resp\<close> is the data of the node's answer; it counts as far as it decodes.\<close>

definition GetAbciInfo :: "err + bytes \<Rightarrow> AnchorState \<times> err option" where
  "GetAbciInfo resp =
     (case resp of
        Inl e \<Rightarrow> (AnchorState_zero, Some e)
      | Inr d \<Rightarrow> (fst (unmarshal jd_AnchorState AnchorState_zero d), None))"

definition GetValidators :: "Rpc \<Rightarrow> int \<Rightarrow> Validator list \<times> err option" where
  "GetValidators R height =
     (case rpc_validators R height of Inl e \<Rightarrow> ([], Some e) | Inr vs \<Rightarrow> (vs, None))"

subsection \<open>The status of another Core\<close>

text \<open>\<open>'n\<close> and \<open>'s\<close> are the Tendermint library's types of the node and the synchronisation info,
  \<open>jd_n\<close> and \<open>jd_s\<close> their decoders.\<close>

record LightningBalance =
  lb_total_balance :: string
  lb_confirmed_balance :: string
  lb_unconfirmed_balance :: string

record ('n, 's) CoreAPIStatus =
  cas_Version :: string
  cas_Time :: string
  cas_BaseURI :: string
  cas_Jwk :: Jwk
  cas_Network :: string
  cas_IdentityPubkey :: string
  cas_LightningAddress :: string
  cas_LightningBalance :: LightningBalance
  cas_PublicKey :: string
  cas_Uris :: "string list"
  cas_Alias :: string
  cas_HashPriceSatoshis :: int
  cas_TotalStakePrice :: int
  cas_ValidatorStakePrice :: int
  cas_ActiveChannelsCount :: int
  cas_NodeInfo :: 'n
  cas_SyncInfo :: 's

definition CoreAPIStatus_zero :: "'n \<Rightarrow> 's \<Rightarrow> ('n, 's) CoreAPIStatus" where
  "CoreAPIStatus_zero n s =
     \<lparr>cas_Version = [], cas_Time = [], cas_BaseURI = [], cas_Jwk = Jwk_zero, cas_Network = [],
      cas_IdentityPubkey = [], cas_LightningAddress = [],
      cas_LightningBalance = \<lparr>lb_total_balance = [], lb_confirmed_balance = [], lb_unconfirmed_balance = []\<rparr>,
      cas_PublicKey = [], cas_Uris = [], cas_Alias = [], cas_HashPriceSatoshis = 0, cas_TotalStakePrice = 0,
      cas_ValidatorStakePrice = 0, cas_ActiveChannelsCount = 0, cas_NodeInfo = n, cas_SyncInfo = s\<rparr>"

definition jd_LightningBalance :: "LightningBalance jdec" where
  "jd_LightningBalance = jd_struct
     [(''total_balance'', jfield jd_string lb_total_balance lb_total_balance_update),
      (''confirmed_balance'', jfield jd_string lb_confirmed_balance lb_confirmed_balance_update),
      (''unconfirmed_balance'', jfield jd_string lb_unconfirmed_balance lb_unconfirmed_balance_update)]"

definition jd_CoreAPIStatus :: "'n jdec \<Rightarrow> 's jdec \<Rightarrow> ('n, 's) CoreAPIStatus jdec" where
  "jd_CoreAPIStatus jd_n jd_s = jd_struct
     [(''version'', jfield jd_string cas_Version cas_Version_update),
      (''time'', jfield jd_string cas_Time cas_Time_update),
      (''base_uri'', jfield jd_string cas_BaseURI cas_BaseURI_update),
      (''jwk'', jfield jd_Jwk cas_Jwk cas_Jwk_update),
      (''network'', jfield jd_string cas_Network cas_Network_update),
      (''identity_pubkey'', jfield jd_string cas_IdentityPubkey cas_IdentityPubkey_update),
      (''lightning_address'', jfield jd_string cas_LightningAddress cas_LightningAddress_update),
      (''lightning_balance'', jfield jd_LightningBalance cas_LightningBalance cas_LightningBalance_update),
      (''public_key'', jfield jd_string cas_PublicKey cas_PublicKey_update),
      (''uris'', jfield (jd_list jd_string []) cas_Uris cas_Uris_update),
      (''alias'', jfield jd_string cas_Alias cas_Alias_update),
      (''hash_price_satoshis'', jfield jd_int cas_HashPriceSatoshis cas_HashPriceSatoshis_update),
      (''total_stake_price'', jfield jd_int cas_TotalStakePrice cas_TotalStakePrice_update),
      (''validator_stake_price'', jfield jd_int cas_ValidatorStakePrice cas_ValidatorStakePrice_update),
      (''num_channels_count'', jfield jd_int cas_ActiveChannelsCount cas_ActiveChannelsCount_update),
      (''node_info'', jfield jd_n cas_NodeInfo cas_NodeInfo_update),
      (''sync_info'', jfield jd_s cas_SyncInfo cas_SyncInfo_update)]"

text \<open>\<open>get\<close> is the answer of an HTTP request, its body read; a body that does not decode counts as
  no answer.\<close>

definition GetAPIStatus ::
  "'n jdec \<Rightarrow> 's jdec \<Rightarrow> ('n, 's) CoreAPIStatus \<Rightarrow> (string \<Rightarrow> err + bytes) \<Rightarrow> string \<Rightarrow> ('n, 's) CoreAPIStatus" where
  "GetAPIStatus jd_n jd_s zero get ip =
     (case get (''http://'' @ ip @ ''/status'') of
        Inl e \<Rightarrow> zero
      | Inr contents \<Rightarrow>
          (case unmarshal_ok (jd_CoreAPIStatus jd_n jd_s) zero contents of None \<Rightarrow> zero | Some st \<Rightarrow> st))"

subsection \<open>Helpers\<close>

definition hex_of_key :: "PublicKey \<Rightarrow> string" where
  "hex_of_key pk = hex_encode (elliptic_marshal pk)"

text \<open>The first part of the result is meant for the log.\<close>

definition DecodeJWK :: "Crypto \<Rightarrow> Jwk \<Rightarrow> err + string \<times> PublicKey" where
  "DecodeJWK cr jwkType =
     bind_err (jwk_parse cr (Jwk_marshal jwkType)) (\<lambda>ks.
     bind_err (first_ec_key ks) (\<lambda>pubKey. Inr (''Loading self pubkey as '' @ hex_of_key pubKey, pubKey)))"

definition GetClientIP :: "Request \<Rightarrow> string" where
  "GetClientIP r = RemoteAddr r"

definition ValidateIPAddress :: "string \<Rightarrow> err option" where
  "ValidateIPAddress ip = (if ParseIP ip = None then Some (Err ''IP address invalid'') else None)"

text \<open>A value that is not a slice has no members.\<close>

definition Contains :: "'a list option \<Rightarrow> 'a \<Rightarrow> bool" where
  "Contains s elem = (case s of None \<Rightarrow> False | Some xs \<Rightarrow> list_ex (\<lambda>x. x = elem) xs)"

definition UniquifyAddresses :: "'a list \<Rightarrow> 'a list" where
  "UniquifyAddresses s = (case uniquify_loop (length s) 0 0 {} s of (j, s') \<Rightarrow> take j s')"

text \<open>A quotient of two counters as \<open>float64\<close> values (the sign of a zero is left out).\<close>

definition ratio64 :: "int \<Rightarrow> int \<Rightarrow> f32" where
  "ratio64 a b =
     (if b = 0 then (if a = 0 then NaN32 else if 0 < a then PInf else NInf)
      else Fin (rnd64 (rnd64 (of_int a) / rnd64 (of_int b))))"

definition GetAnchorSuccessRatio :: "string \<Rightarrow> AnchorState \<Rightarrow> f32 \<times> err option" where
  "GetAnchorSuccessRatio coreID state =
     (case GetValidationRecord coreID state of
        (_, r, Some e) \<Rightarrow> (Fin 0, Some e)
      | (_, r, None) \<Rightarrow> (ratio64 (ConfirmedAnchors r) (FailedAnchors r), None))"

definition GetCalSuccessRatio :: "string \<Rightarrow> AnchorState \<Rightarrow> f32 \<times> err option" where
  "GetCalSuccessRatio coreID state =
     (case GetValidationRecord coreID state of
        (_, r, Some e) \<Rightarrow> (Fin 0, Some e)
      | (_, r, None) \<Rightarrow> (ratio64 (CalValidationSuccess r) (CalValidationFailures r), None))"

subsection \<open>Proof ids\<close>

text \<open>The time of the last seed, the seed, and how many bytes were read from the generator since.
  \<open>rand_bytes seed n\<close> are ten bytes of the generator after \<open>n\<close> were read, \<open>ulid_new\<close> is the text of
  an id for a time in milliseconds and an entropy.\<close>

record ThreadSafeUlid =
  ul_Time :: int
  ul_Seed :: int
  ul_Read :: nat

definition NewThreadSafeUlid :: "int \<Rightarrow> ThreadSafeUlid" where
  "NewThreadSafeUlid now = \<lparr>ul_Time = now, ul_Seed = now, ul_Read = 0\<rparr>"

definition NewUlid ::
  "(int \<Rightarrow> nat \<Rightarrow> bytes) \<Rightarrow> (int \<Rightarrow> bytes \<Rightarrow> err + string) \<Rightarrow> ThreadSafeUlid \<Rightarrow> ThreadSafeUlid \<times> (err + string)" where
  "NewUlid rand_bytes ulid_new u =
     (u\<lparr>ul_Read := ul_Read u + 10\<rparr>,
      ulid_new (ul_Time u div 10 ^ 6) (rand_bytes (ul_Seed u) (ul_Read u)))"

definition seed_entropy :: "int \<Rightarrow> nat \<Rightarrow> string \<Rightarrow> ThreadSafeUlid \<Rightarrow> err + ThreadSafeUlid" where
  "seed_entropy now cap seed u =
     bind_err (NewSeededEntropy cap seed) (\<lambda>n. Inr (u\<lparr>ul_Time := now, ul_Seed := n, ul_Read := 0\<rparr>))"

text \<open>All ids between two seedings share their time, so only the entropy tells them apart.\<close>

lemma NewUlid_time: "ul_Time (fst (NewUlid rb un u)) = ul_Time u"
  by (simp add: NewUlid_def)

lemma GetNetInfo_zero: "snd (GetNetInfo R) \<noteq> None \<Longrightarrow> fst (GetNetInfo R) = []"
  by (auto simp: GetNetInfo_def split: option.splits sum.splits)

text \<open>The synchronisation monitor takes these answers.\<close>

lemma SyncMonitor_queries:
  "SyncMonitor_pass R e app = Inr app' \<Longrightarrow> TMState (app_state app') = fst (GetStatus (Some R)) \<and>
     (snd (GetStatus (Some R)) = None \<longrightarrow> TMNetInfo (app_state app') = fst (GetNetInfo (Some R)))"
  by (auto simp: SyncMonitor_pass_def GetStatus_def GetNetInfo_def set_state_def Let_def split: sum.splits if_splits)

end
