(* ===== verification/Core_Main.thy ===== *)
theory Core_Main
  imports Node_Status
begin

text \<open>
  The entry point, \<open>src/chainpoint-core.go\<close>: the first run, which asks for the settings, sets up the
  Lightning node and writes the configuration file; the arguments of the Lightning daemon; and the
  handlers of the HTTP interface with their rate limits. What the terminal prints is left out.
\<close>

subsection \<open>The Lightning daemon\<close>

definition lnd_common :: "string \<Rightarrow> string \<Rightarrow> string \<Rightarrow> string list" where
  "lnd_common lndHome coreIPOnly logLevel =
     [''--lnddir='' @ lndHome, ''--logdir='' @ lndHome @ ''/logs'', ''--datadir='' @ lndHome @ ''/data'',
      ''--bitcoin.active'', ''--bitcoin.node=neutrino'', ''--externalip='' @ coreIPOnly @ '':9735'',
      ''--listen=0.0.0.0:9735'', ''--restlisten=0.0.0.0:8080'', ''--rpclisten=0.0.0.0:10009'',
      ''--bitcoin.defaultchanconfs=3'', ''--tlsextradomain=lnd'', ''--tlsextraip='' @ coreIPOnly,
      ''--debuglevel='' @ logLevel, ''--accept-amp'', ''--accept-keysend'']"

text \<open>The addresses of the peers are appended without a flag in front of them.\<close>

definition lnd_network :: "string \<Rightarrow> string list" where
  "lnd_network network =
     (if network = ''mainnet'' then
        [''--feeurl=https://nodes.lightning.computer/fees/v1/btc-fee-estimates.json'',
         ''btcd-mainnet.lightning.computer'', ''mainnet1-btcd.zaphq.io'', ''mainnet2-btcd.zaphq.io'',
         ''24.155.196.246:8333'', ''75.103.209.147:8333'', ''--bitcoin.mainnet'', ''--routing.assumechanvalid'']
      else if network = ''testnet'' then
        [''--bitcoin.testnet'', ''faucet.lightning.community:18333'', ''btcd-testnet.lightning.computer'',
         ''testnet1-btcd.zaphq.io'', ''testnet2-btcd.zaphq.io'']
      else [])"

definition lnd_args :: "string \<Rightarrow> AnchorConfig \<Rightarrow> string list \<Rightarrow> err + string list" where
  "lnd_args home config args =
     (if UseChainpointLndConfig config then
        bind_err (GetIPOnly (CoreURI config)) (\<lambda>coreIPOnly.
          Inr (args @ lnd_common (home @ ''/.lnd'') coreIPOnly (LndLogLevel (cfg_Lightning config)) @
            lnd_network (BitcoinNetwork config)))
      else Inr args)"

text \<open>How a run ends; the daemon runs until it fails or is stopped.\<close>

datatype ending = Returns | Exits int | Panics string

text \<open>The arguments the daemon starts with, and how it ends. \<open>intercept\<close>, \<open>load\<close> and \<open>lnd_main\<close> are the
  errors of the library's functions, the last two of the arguments.\<close>

definition runLnd ::
  "string \<Rightarrow> AnchorConfig \<Rightarrow> string list \<Rightarrow> err option \<Rightarrow> (string list \<Rightarrow> err option) \<Rightarrow> (string list \<Rightarrow> err option) \<Rightarrow>
     string list \<times> ending" where
  "runLnd home config args intercept load lnd_main =
     (case lnd_args home config args of
        Inl e \<Rightarrow> (args, Panics (err_text e))
      | Inr args \<Rightarrow>
          (args,
           if intercept \<noteq> None then Panics ''signal''
           else if load args \<noteq> None then Panics ''lnd config''
           else if lnd_main args \<noteq> None then Exits 1
           else Returns))"

subsection \<open>The first run\<close>

datatype host_op =
    MkdirAll string
  | WriteKey string
  | HttpGet string
  | StartLnd bool "err + string list"
  | AppendFile string string

text \<open>What the user answers, which files exist, and what the libraries answer. The wallet functions
  are given the configuration at the time of the call.\<close>

record Terminal =
  ans_ip :: "err + string"
  ans_network :: "err + string"
  ans_public :: "err + string"
  file_exists :: "string \<Rightarrow> bool"
  wait_connection :: "err option"
  gen_seed :: "err + string list"
  gen_password :: "err + string"
  init_wallet :: "LightningConfig \<Rightarrow> err option"
  wait_macaroon :: "err option"
  wait_address :: "err + string"
  session_bytes :: "err + bytes"
  open_conf :: "err option"

definition public_seed :: "string \<Rightarrow> string \<times> string" where
  "public_seed network =
     (if network = ''mainnet'' then (''24ba3a2556ebae073b42d94815836b29594a2456@18.220.31.138:26656'', ''18.220.31.138'')
      else if network = ''testnet'' then (''5c285f74977733ea970ac2c66e515cc767837644@3.135.54.225:26656'', ''3.135.54.225'')
      else ([], []))"

text \<open>The wallet: the configuration lines it adds, after the operations that led there.\<close>

definition setup_wallet :: "Terminal \<Rightarrow> string \<Rightarrow> string list \<Rightarrow> AnchorConfig \<Rightarrow> host_op list \<times> (ending + string list)" where
  "setup_wallet T home args config =
     (let lc = (cfg_Lightning config)\<lparr>Testnet := BitcoinNetwork config = ''testnet'',
            MacPath := home @ ''/.lnd/data/chain/bitcoin/'' @ BitcoinNetwork config @ ''/admin.macaroon''\<rparr>;
          config = config\<lparr>cfg_Lightning := lc\<rparr>;
          ops = [MkdirAll (home @ ''/.lnd''), StartLnd True (lnd_args home config args)];
          fail = (\<lambda>m. (ops, Inl (Panics m)))
      in if wait_connection T \<noteq> None then fail ''LND not ready after 5 minutes''
         else
         (case (if length (WalletSeed lc) \<noteq> 24 then gen_seed T else Inr (WalletSeed lc)) of
            Inl e \<Rightarrow> fail (err_text e)
          | Inr seed \<Rightarrow>
         (case (if length (WalletPass lc) = 0 then gen_password T else Inr (WalletPass lc)) of
            Inl e \<Rightarrow> fail (err_text e)
          | Inr pass \<Rightarrow>
         (let lc = lc\<lparr>WalletSeed := seed, WalletPass := pass\<rparr> in
          if init_wallet T lc \<noteq> None then fail ''Failed to initialize lnd wallet!''
          else if wait_macaroon T \<noteq> None then fail ''LND admin not ready after 5 minutes''
          else case wait_address T of
                 Inl e \<Rightarrow> fail (err_text e)
               | Inr address \<Rightarrow>
                   (case session_bytes T of
                      Inl e \<Rightarrow> fail (err_text e)
                    | Inr b \<Rightarrow> (ops, Inr [''hot_wallet_pass='' @ pass, ''hot_wallet_address='' @ address,
                        ''session_secret='' @ hex_encode b]))))))"

definition setup_conf :: "Terminal \<Rightarrow> string \<Rightarrow> string list \<Rightarrow> AnchorConfig \<Rightarrow> host_op list \<times> ending" where
  "setup_conf T home args config =
     (case ans_ip T of
        Inl e \<Rightarrow> ([], Panics (err_text e))
      | Inr ip \<Rightarrow>
     (case ans_network T of
        Inl e \<Rightarrow> ([], Panics (err_text e))
      | Inr network \<Rightarrow>
     (case ans_public T of
        Inl e \<Rightarrow> ([], Panics (err_text e))
      | Inr public \<Rightarrow>
         (let config = config\<lparr>CoreURI := ip, BitcoinNetwork := network\<rparr>;
              joins = (public = ''Public Chainpoint Network'');
              (seed, seedIp) = public_seed network;
              ops = (if joins then [HttpGet (''http://'' @ seedIp @ ''/status'')] else []);
              configs = [''chainpoint_core_base_uri=http://'' @ ip, ''network='' @ network] @
                (if joins then [''seeds='' @ seed] else []);
              (wops, wallet) = (if file_exists T (home @ ''/.lnd'') then ([], Inr []) else setup_wallet T home args config)
          in case wallet of
               Inl e \<Rightarrow> (ops @ wops, e)
             | Inr ls \<Rightarrow>
                 if open_conf T \<noteq> None then (ops @ wops, Exits 1)
                 else (ops @ wops @ [AppendFile (home @ ''/core.conf'') (concat (map (\<lambda>l. l @ [CHR 0x0A]) (configs @ ls)))],
                   Exits 0)))))"

definition setup_node :: "Terminal \<Rightarrow> string \<Rightarrow> string list \<Rightarrow> AnchorConfig \<Rightarrow> host_op list \<times> ending" where
  "setup_node T home args config =
     (let homes = (if file_exists T home then [] else [MkdirAll home]);
          keys = (if file_exists T (home @ ''/data/keys/ecdsa_key.pem'') then []
            else [MkdirAll (home @ ''/data/keys''), WriteKey (home @ ''/data/keys/ecdsa_key.pem'')])
      in if file_exists T (home @ ''/core.conf'') then (homes @ keys, Returns)
         else (case setup_conf T home args config of (ops, e) \<Rightarrow> (homes @ keys @ ops, e)))"

subsection \<open>The HTTP interface\<close>

datatype handler = HomeH | HashH | ProofH | ProofUpgradeH | CalH | CalDataH | StatusH | PeerH | GatewaysH

datatype rate = PerMin int | PerSec int

text \<open>A quota is a rate with a burst; every limiter keeps one account per remote address.\<close>

type_synonym quota = "rate \<times> int"

text \<open>The handlers in the order of the struct, each with its limiter, if it has one.\<close>

record APIHandlers =
  ah_Home :: "handler \<times> quota option"
  ah_Hash :: "handler \<times> quota option"
  ah_Proof :: "handler \<times> quota option"
  ah_ProofUpgrade :: "handler \<times> quota option"
  ah_Cal :: "handler \<times> quota option"
  ah_CalData :: "handler \<times> quota option"
  ah_Status :: "handler \<times> quota option"
  ah_Peer :: "handler \<times> quota option"
  ah_Gateways :: "handler \<times> quota option"

text \<open>\<open>new_store\<close> is the error of making the last of the three stores, \<open>new_limiter\<close> that of a limiter;
  of the three limiters only the last is checked, so the first two may be the nil limiter.\<close>

definition setupAPI :: "err option \<Rightarrow> (quota \<Rightarrow> err option) \<Rightarrow> AnchorConfig \<Rightarrow> err + APIHandlers" where
  "setupAPI new_store new_limiter config =
     (if RemoveRateLimits config then
        Inr \<lparr>ah_Home = (HomeH, None), ah_Hash = (HashH, None), ah_Proof = (ProofH, None),
             ah_ProofUpgrade = (ProofUpgradeH, None), ah_Cal = (CalH, None), ah_CalData = (CalDataH, None),
             ah_Status = (StatusH, None), ah_Peer = (PeerH, None), ah_Gateways = (GatewaysH, None)\<rparr>
      else if new_store \<noteq> None then Inl (Panic ''memstore'')
      else
        (let hashQuota = (PerMin (HashQuota config), 5); apiQuota = (PerSec (ApiQuota config), 50);
             proofQuota = (PerSec (ProofQuota config), 100)
         in if new_limiter proofQuota \<noteq> None then Inl (Panic ''limiter'')
            else Inr \<lparr>ah_Home = (HomeH, Some apiQuota), ah_Hash = (HashH, Some hashQuota),
                      ah_Proof = (ProofH, Some proofQuota), ah_ProofUpgrade = (ProofUpgradeH, Some proofQuota),
                      ah_Cal = (CalH, Some apiQuota), ah_CalData = (CalDataH, Some apiQuota),
                      ah_Status = (StatusH, Some apiQuota), ah_Peer = (PeerH, Some apiQuota),
                      ah_Gateways = (GatewaysH, Some apiQuota)\<rparr>))"

definition routes :: "APIHandlers \<Rightarrow> (string \<times> handler \<times> quota option) list" where
  "routes h =
     [(''/'', ah_Home h), (''/hash'', ah_Hash h), (''/proofs'', ah_Proof h), (''/proofs/upgrade/{txid}'', ah_ProofUpgrade h),
      (''/calendar/{txid}'', ah_Cal h), (''/calendar/{txid}/data'', ah_CalData h), (''/status'', ah_Status h),
      (''/peers'', ah_Peer h), (''/gateways/public'', ah_Gateways h)]"

subsection \<open>The start of a node\<close>

text \<open>\<open>node_err\<close> and \<open>start_err\<close> are the errors of making and of starting the Tendermint node. The result
  is how the process ended, or the application, the goroutines started and the handlers.\<close>

definition core_main ::
  "err + string \<Rightarrow> 'p NodeEnv \<Rightarrow> Host \<Rightarrow> Flags \<Rightarrow> Terminal \<Rightarrow> string list \<Rightarrow> 'd Env \<Rightarrow> err option \<Rightarrow> err + string \<Rightarrow>
     string \<Rightarrow> 'd \<Rightarrow> err option \<Rightarrow> err option \<Rightarrow> err option \<Rightarrow> (quota \<Rightarrow> err option) \<Rightarrow>
     host_op list \<times> (ending + 'd App \<times> effect list \<times> APIHandlers)" where
  "core_main homedir N H f T args E ln_ready jwkJson nodeID d node_err start_err new_store new_limiter =
     (case homedir of
        Inl e \<Rightarrow> ([], Inl (Panics (err_text e)))
      | Inr dir \<Rightarrow>
         (let home = dir @ ''/.chainpoint/core'' in
          case InitConfig N H home f of
            Inl e \<Rightarrow> ([], Inl (Panics (err_text e)))
          | Inr config \<Rightarrow>
             (case setup_node T home args config of
                (ops, e) \<Rightarrow>
                  if e \<noteq> Returns then (ops, Inl e)
                  else
                    (let ops = ops @ [StartLnd False (lnd_args home config args)] in
                     case NewAnchorApplication E config ln_ready jwkJson nodeID d of
                       Inl e \<Rightarrow> (ops, Inl (Panics (err_text e)))
                     | Inr (app, effs) \<Rightarrow>
                         if node_err \<noteq> None \<or> start_err \<noteq> None then (ops, Inl (Panics ''node''))
                         else (case setupAPI new_store new_limiter config of
                                 Inl e \<Rightarrow> (ops, Inl (Panics (err_text e)))
                               | Inr h \<Rightarrow> (ops, Inr (app, effs @ [GoEvent ''go'' ''LnPaymentHandler''], h)))))))"

subsection \<open>Properties\<close>

definition harmless :: "host_op list \<times> (ending + 'a) \<Rightarrow> bool" where
  "harmless r \<longleftrightarrow> (\<forall>p d. AppendFile p d \<notin> set (fst r)) \<and> (\<forall>e. snd r = Inl e \<longrightarrow> (\<exists>m. e = Panics m))"

lemma harmless_flow:
  "harmless x \<Longrightarrow> harmless y \<Longrightarrow> harmless (if b then x else y)"
  "(\<And>a. harmless (g a)) \<Longrightarrow> (\<And>b. harmless (h b)) \<Longrightarrow> harmless (case s of Inl a \<Rightarrow> g a | Inr b \<Rightarrow> h b)"
  by (simp_all split: sum.split)

lemma setup_wallet_harmless: "harmless (setup_wallet T home args config)"
  unfolding setup_wallet_def Let_def by (intro harmless_flow) (simp_all add: harmless_def)

lemma setup_conf_ends:
  assumes "setup_conf T home args config = (ops, e)"
  shows "e \<noteq> Returns" "e = Exits 0 \<longleftrightarrow> (\<exists>c. AppendFile (home @ ''/core.conf'') c \<in> set ops)"
proof -
  define step where "step c = (if file_exists T (home @ ''/.lnd'') then ([], Inr []) else setup_wallet T home args c)" for c
  have h: "harmless (step c)" for c using setup_wallet_harmless by (simp add: step_def harmless_def [of "([], Inr [])"])
  have f: "AppendFile p d \<notin> set wops" if "step c = (wops, w)" for c wops w p d
    using h [of c] that by (simp add: harmless_def)
  have m: "(\<exists>m. e' = Panics m) \<and> (\<forall>p d. AppendFile p d \<notin> set wops)" if "step c = (wops, Inl e')" for c wops e'
    using h [of c] that by (simp add: harmless_def)
  show "e \<noteq> Returns" "e = Exits 0 \<longleftrightarrow> (\<exists>c. AppendFile (home @ ''/core.conf'') c \<in> set ops)"
    using assms unfolding setup_conf_def Let_def step_def [symmetric]
    by (auto simp: f dest!: m split: sum.splits prod.splits if_splits)
qed

text \<open>A run that finds a configuration file goes on without asking and writes no second one; a run
  that does not find one never goes on: it ends the process, with status 0 exactly when it has
  written the file.\<close>

lemma setup_first_run:
  assumes "setup_node T home args config = (ops, e)"
  shows "(e = Returns \<longleftrightarrow> file_exists T (home @ ''/core.conf'')) \<and>
    (e = Exits 0 \<longleftrightarrow> (\<exists>c. AppendFile (home @ ''/core.conf'') c \<in> set ops))"
proof -
  obtain cops ce where c: "setup_conf T home args config = (cops, ce)" by fastforce
  show ?thesis using assms setup_conf_ends [OF c] by (auto simp: setup_node_def c Let_def split: if_splits)
qed

text \<open>Unless the limits are switched off, every route has one.\<close>

lemma setupAPI_limited:
  "setupAPI s l config = Inr h \<Longrightarrow> \<not> RemoveRateLimits config \<Longrightarrow> \<forall>r \<in> set (routes h). snd (snd r) \<noteq> None"
  by (auto simp: setupAPI_def routes_def Let_def split: if_splits)

end
