(* ===== verification/Api_Correct.thy ===== *)
theory Api_Correct
  imports Abci_Api
begin

text \<open>
  What the HTTP interface guarantees (\<open>src/abci/api.go\<close>): which requests put a hash into the queue of
  the aggregator, that a stored proof is handed out as it was published, and which accepted hashes
  the aggregator (\<open>src/aggregator/aggregator.go\<close>) cannot tell apart.
\<close>

subsection \<open>Submitting hashes\<close>

lemma is_hash_text_bytes:
  assumes "is_hash_text s"
  shows "\<exists>b. hex_decode_ok s = Some b \<and> 20 \<le> length b \<and> length b \<le> 64"
proof -
  have "\<forall>c \<in> set s. is_hex_char c" "even (length s)" "40 \<le> length s" "length s \<le> 128"
    using assms by (auto simp: is_hash_text_def is_hex_any_def is_hex_char_def list_all_iff)
  then show ?thesis using hex_decode_no_error [of s] by (auto simp: hex_decode_ok_def split: prod.splits)
qed

text \<open>C19. When the Lightning library does not answer a submission itself, the hash is accepted exactly if
  the content type is JSON, the body decodes without unknown fields to a text of hexadecimal
  pairs for 20 to 64 bytes, and an id can be made; then the response is 200 and the item goes
  to the end of the queue of the aggregator. In every other case the response is 400 and the
  node is as before.\<close>

theorem HashHandler_exact:
  assumes "HashHandler E None ulid r app = (app', resp)" "json_decode jd_Hash \<lparr>Hash = []\<rparr> (Body r) = (hash, bad)"
  shows "if ContentType r = ''application/json'' \<and> \<not> bad \<and> is_hash_text (Hash hash) \<and> is_ok ulid
    then Status resp = 200 \<and>
      (\<exists>i b. ulid = Inr i \<and> hex_decode_ok (Hash hash) = Some b \<and> 20 \<le> length b \<and> length b \<le> 64 \<and>
        app' = app\<lparr>agg_queue := agg_queue app @ [\<lparr>hi_ProofID = i, hi_Hash = Hash hash\<rparr>]\<rparr>)
    else Status resp = 400 \<and> app' = app"
proof (cases "ContentType r = ''application/json'' \<and> \<not> bad \<and> is_hash_text (Hash hash) \<and> is_ok ulid")
  case True
  then obtain i where i: "ulid = Inr i" by (cases ulid) auto
  have "Hash hash \<noteq> []" using True by (auto simp: is_hash_text_def)
  then show ?thesis
    using assms True i is_hash_text_bytes [of "Hash hash"]
    by (auto simp: HashHandler_def Let_def respondJSON_def AddHashItem_def)
next
  case False
  with assms show ?thesis
    by (auto simp: HashHandler_def Let_def respond_error_def respondJSON_def split: sum.splits if_splits)
qed

theorem HashHandler_exact_witness:
  "\<exists>app' resp. HashHandler toy_world None (Inr ''id'') \<lparr>RemoteAddr = ''1.2.3.4:5'', ContentType = ''application/json'',
      Body = json_print (JObj [(''Hash'', JStr (replicate 40 (CHR ''a'')))]), ProofIdsHeader = [], Vars = Map.empty\<rparr> toy_app = (app', resp) \<and>
    Status resp = 200 \<and> agg_queue app' = [\<lparr>hi_ProofID = ''id'', hi_Hash = replicate 40 (CHR ''a'')\<rparr>]"
proof -
  define r where "r = \<lparr>RemoteAddr = ''1.2.3.4:5'', ContentType = ''application/json'',
      Body = json_print (JObj [(''Hash'', JStr (replicate 40 (CHR ''a'')))]), ProofIdsHeader = [], Vars = Map.empty\<rparr>"
  obtain app' resp where h: "HashHandler toy_world None (Inr ''id'') r toy_app = (app', resp)" by fastforce
  have b: "json_decode jd_Hash \<lparr>Hash = []\<rparr> (Body r) = (\<lparr>Hash = replicate 40 (CHR ''a'')\<rparr>, False)" unfolding r_def by code_simp
  have c: "ContentType r = ''application/json''" by (simp add: r_def)
  have t: "is_hash_text (replicate 40 (CHR ''a''))" by code_simp
  have q: "agg_queue toy_app = []" by (simp add: toy_app_def)
  show ?thesis using HashHandler_exact [OF h b] c t h q unfolding r_def by auto
qed

subsection \<open>Long hashes\<close>

lemma ProcessAggregation_same_leaf:
  assumes "leaf_of cr drand x = leaf_of cr drand y" "i < length items"
  shows "map (leaf_of cr drand) (items[i := x]) = map (leaf_of cr drand) (items[i := y])"
  using assms by (simp add: map_update)

text \<open>C40. Without a value of the beacon the aggregator keeps 32 bytes of a hash. Two longer hashes, which the
  interface accepts, with the same first 32 bytes therefore give the same tree: the aggregation
  of a batch with one of them has the same root as with the other, and the same proof operations
  in every row, so the proof handed out for one is a proof for the other.\<close>

theorem truncated_hashes_collide:
  assumes "hex_decode_ok (hi_Hash x) = Some a" "hex_decode_ok (hi_Hash y) = Some b"
    "32 \<le> length a" "32 \<le> length b" "take 32 a = take 32 b" "i < length items" "j < length items"
  shows "AggRoot (ProcessAggregation cr M (Some u) (items[i := x]) []) = AggRoot (ProcessAggregation cr M (Some u) (items[i := y]) []) \<and>
    as_AggState (AggStates (ProcessAggregation cr M (Some u) (items[i := x]) []) ! j) =
    as_AggState (AggStates (ProcessAggregation cr M (Some u) (items[i := y]) []) ! j)"
proof -
  have "fst (hex_decode (hi_Hash x)) = a" "fst (hex_decode (hi_Hash y)) = b"
    using assms(1,2) by (auto simp: hex_decode_ok_def split: prod.splits if_splits)
  then have "leaf_of cr [] x = leaf_of cr [] y" using assms(3-5) by (simp add: leaf_of_def)
  from ProcessAggregation_same_leaf [OF this assms(6)] assms(7) show ?thesis
    by (auto simp: ProcessAggregation_def agg_state_of_def Let_def)
qed

theorem truncated_hashes_collide_witness:
  "AggRoot (ProcessAggregation toy_crypto toy_merkle (Some ''u'') [\<lparr>hi_ProofID = ''p'', hi_Hash = hex_encode (replicate 32 (CHR ''a'') @ ''b'')\<rparr>] []) =
   AggRoot (ProcessAggregation toy_crypto toy_merkle (Some ''u'') [\<lparr>hi_ProofID = ''p'', hi_Hash = hex_encode (replicate 32 (CHR ''a'') @ ''c'')\<rparr>] [])"
  using truncated_hashes_collide [of "\<lparr>hi_ProofID = ''p'', hi_Hash = hex_encode (replicate 32 (CHR ''a'') @ ''b'')\<rparr>" "replicate 32 (CHR ''a'') @ ''b''"
    "\<lparr>hi_ProofID = ''p'', hi_Hash = hex_encode (replicate 32 (CHR ''a'') @ ''c'')\<rparr>" "replicate 32 (CHR ''a'') @ ''c''" 0 "[toy_item]" 0
    toy_crypto toy_merkle "''u''"]
  by (simp add: hex_decode_ok_encode del: hex_encode.simps)

subsection \<open>Proofs\<close>

definition stored_proof :: "('d \<Rightarrow> view) \<Rightarrow> 'd \<Rightarrow> string \<Rightarrow> (string \<times> json) list \<Rightarrow> bool" where
  "stored_proof view d i p \<longleftrightarrow> ascii i \<and> json_wf (JObj p) \<and>
     view d (''proof:'' @ i) = Some (ProofState_marshal \<lparr>ps_ProofID = i, ps_Proof = json_print (JObj p)\<rparr>)"

lemma get_proofs_stored:
  assumes db: "db_laws D view" "db_reliable D" and "\<forall>i \<in> set is. stored_proof view d i (p i)"
  shows "get_proofs_loop D d m is =
    Inr (\<lambda>i. if i \<in> set is then Some \<lparr>ps_ProofID = i, ps_Proof = json_print (JObj (p i))\<rparr> else m i)"
  using assms(3)
proof (induction "is" arbitrary: m)
  case (Cons i "is")
  let ?p = "\<lparr>ps_ProofID = i, ps_Proof = json_print (JObj (p i))\<rparr>"
  have s: "ascii i" "json_wf (JObj (p i))" "view d (''proof:'' @ i) = Some (ProofState_marshal ?p)"
    using Cons.prems by (simp_all add: stored_proof_def)
  have "ProofState_ok ?p" using s(1) ascii_json_print(1) [OF s(2)] by (simp only: ProofState_ok_def ProofState.simps simp_thms)
  then have "fst (unmarshal jd_ProofState ProofState_zero (ProofState_marshal ?p)) = ?p"
    by (simp add: ProofState_codec.unmarshal_marshal)
  then have "get_proofs_loop D d m (i # is) = get_proofs_loop D d (m(i \<mapsto> ?p)) is"
    by (simp add: kv_Get_reliable [OF db] s(3) del: append_Cons)
  also have "\<dots> = Inr (\<lambda>j. if j \<in> set is then Some \<lparr>ps_ProofID = j, ps_Proof = json_print (JObj (p j))\<rparr> else (m(i \<mapsto> ?p)) j)"
    using Cons.prems by (intro Cons.IH) simp
  finally show ?case by (auto simp: fun_eq_iff)
qed simp

lemma split_join: "is \<noteq> [] \<Longrightarrow> \<forall>i \<in> set is. c \<notin> set i \<Longrightarrow> split_on c (join [c] is) = is"
proof (induction "is" rule: induct_list012)
  case (3 x y zs)
  then have "split_on c (x @ c # join [c] (y # zs)) = x # split_on c (join [c] (y # zs))"
    by (intro split_on_append) simp
  with 3 show ?case by (simp add: join_Cons)
qed (simp_all add: split_on_no_sep)

lemma join_no_space: "c \<notin> set sep \<Longrightarrow> \<forall>i \<in> set is. c \<notin> set i \<Longrightarrow> c \<notin> set (join sep is)"
proof (induction "is" rule: induct_list012)
  case (3 x y zs)
  then show ?case by (simp add: join_Cons)
qed simp_all

lemma ProofHandler_stored:
  assumes db: "db_laws D view" "db_reliable D"
    and req: "ProofIdsHeader r = join '','' ids" "ids \<noteq> []" "length ids \<le> 250"
    and ids: "\<And>i. i \<in> set ids \<Longrightarrow> is_proof_id i \<and> CHR '','' \<notin> set i \<and> CHR '' '' \<notin> set i"
    and st: "\<And>i. i \<in> set ids \<Longrightarrow> stored_proof view (Db app) i (p i)"
  shows "ProofHandler D r app = respondJSON 200 (JArr (map (\<lambda>i. proof_entry i (sort_json (JObj (p i)))) ids))"
proof -
  have sp: "split_on (CHR '','') (join '','' ids) = ids" using req(2) ids by (intro split_join) auto
  have "CHR '' '' \<notin> set (join '','' ids)" using ids by (intro join_no_space) auto
  then have ne: "replace_all (join '','' ids) '' '' [] = join '','' ids"
    by (intro replace_all_absent) (auto simp: contains_iff)
  have "join '','' ids \<noteq> []"
  proof
    assume "join '','' ids = []"
    then have "ids = [[]]" using sp by simp
    then show False using ids [of "[]"] by (auto simp: is_proof_id_def IsUUID_def)
  qed
  moreover have "List.find (\<lambda>i. \<not> is_proof_id i) ids = None" using ids by (simp add: find_None_iff)
  moreover have "GetProofsByProofIds D (Db app) ids =
      Inr (\<lambda>i. if i \<in> set ids then Some \<lparr>ps_ProofID = i, ps_Proof = json_print (JObj (p i))\<rparr> else None)"
    unfolding GetProofsByProofIds_def using st by (simp add: get_proofs_stored [OF db])
  moreover have "concat (map (proof_entries m) ids) = map (\<lambda>i. proof_entry i (sort_json (JObj (p i)))) ids"
    if "m = (\<lambda>i. if i \<in> set ids then Some \<lparr>ps_ProofID = i, ps_Proof = json_print (JObj (p i))\<rparr> else None)" for m
  proof -
    have "proof_entries m i = [proof_entry i (sort_json (JObj (p i)))]" if "i \<in> set ids" for i
    proof -
      have "json_wf (JObj (p i))" using st [OF that] unfolding stored_proof_def by blast
      note json_parse_print [OF this]
      moreover have "m i = Some \<lparr>ps_ProofID = i, ps_Proof = json_print (JObj (p i))\<rparr>" using that \<open>m = _\<close> by simp
      ultimately show ?thesis by (simp only: proof_entries_def option.case ProofState.simps json.case)
    qed
    then show ?thesis by (induction ids) auto
  qed
  moreover have "\<not> 250 < length ids" using req(3) by simp
  ultimately show ?thesis by (simp add: ProofHandler_def Let_def req(1) sp ne del: sort_json.simps)
qed


text \<open>A database with one proof, under a 64 digit id.\<close>

definition toy_id :: string where
  "toy_id = replicate 64 (CHR ''0'')"

definition toy_proof :: "(string \<times> json) list" where
  "toy_proof = [(''hash'', JStr ''ab''), (''branches'', JArr [])]"


subsection \<open>Hashes that are paid for\<close>

text \<open>What an invoice buys: two entries of the queue, under the hash of the hash and under the hash of
  the payment.\<close>

definition paid_items :: "'d Env \<Rightarrow> int \<Rightarrow> Invoice \<Rightarrow> HashItem list" where
  "paid_items E price res =
     (if IsKeysend res \<and> Settled res \<and> (inv_Value res = price \<or> ValueMsat res = i64 (price * 1000)) \<and> invoice_hash res \<noteq> []
      then [\<lparr>hi_ProofID = hex_encode (sha256 (e_crypto E) (invoice_hash res)), hi_Hash = invoice_hash res\<rparr>,
        \<lparr>hi_ProofID = hex_encode (RHash res), hi_Hash = invoice_hash res\<rparr>] else [])"

lemma LnPaymentHandler_invoice_queue:
  "LnPaymentHandler_invoice E res app = app\<lparr>agg_queue := agg_queue app @ paid_items E (HashPrice (app_config app)) res\<rparr>"
  by (simp add: LnPaymentHandler_invoice_def paid_items_def AddHashItem_def Let_def)

text \<open>A subscription puts into the queue what the invoices before its first error buy, in their order,
  and changes nothing else; the text of each hash is 64 hexadecimal digits.\<close>

lemma LnPaymentHandler_queue:
  "AppReady (app_state app) \<Longrightarrow> LnPaymentHandler E (map Inr invoices @ Inl e # events) app =
    app\<lparr>agg_queue := agg_queue app @ concat (map (paid_items E (HashPrice (app_config app))) invoices)\<rparr>"
  unfolding LnPaymentHandler_def
  by (induction invoices arbitrary: app) (simp_all add: LnPaymentHandler_invoice_queue)

lemma invoice_hash_text: "invoice_hash res \<noteq> [] \<Longrightarrow> is_hash64 (invoice_hash res)"
  using last_in_set [of "filter is_hash64 (map hex_encode (concat (Htlcs res)))"]
  by (auto simp: invoice_hash_def Let_def split: if_splits)

lemma paid_items_hash: "item \<in> set (paid_items E price res) \<Longrightarrow> is_hash64 (hi_Hash item)"
  by (auto simp: paid_items_def invoice_hash_text split: if_splits)

end
