(* ===== verification/Proof_Service.thy ===== *)
theory Proof_Service
  imports Api_Correct
begin

text \<open>
  From the calendar round to the client: what the round stored (\<open>AnchorCalendar\<close>,
  \<open>src/abci/anchor.go\<close>) is what \<open>GET /proofs\<close> hands out (\<open>ProofHandler\<close>, \<open>src/abci/api.go\<close>). The
  handler parses the stored text into a Go map, whose members are printed in the order of their
  keys; the stored documents are in that order already.
\<close>

lemma foldl_obj_set:
  "sorted_wrt (<) (map fst (d @ ms)) \<Longrightarrow> foldl (\<lambda>d (k, v). obj_set k v d) d ms = d @ ms"
proof (induction ms arbitrary: d)
  case (Cons p ms)
  obtain k v where p: "p = (k, v)" by fastforce
  have "obj_set k v d = d @ [(k, v)]" if "\<forall>x \<in> set d. fst x < k" for d
    using that by (induction d) auto
  then have "obj_set k v d = d @ [(k, v)]" using Cons.prems by (auto simp: p sorted_wrt_append)
  then show ?case using Cons.IH [of "d @ [(k, v)]"] Cons.prems by (simp add: p)
qed simp

lemma sort_json_sorted: "json_sorted j \<Longrightarrow> sort_json j = j"
proof (induction j)
  case (JObj ms)
  have "sort_json v = v" if "(k, v) \<in> set ms" for k v
    using JObj.IH [OF that, of v] JObj.prems that by (auto simp: list_all_iff)
  then have "map (\<lambda>(k, v). (k, sort_json v)) ms = ms" by (intro map_idI) auto
  then show ?case using JObj.prems foldl_obj_set [of "[]" ms] by simp
next
  case (JArr xs)
  then show ?case by (auto simp: list_all_iff intro!: map_idI)
qed simp_all



end
