(* ===== verification/Anchor_Publish.thy ===== *)
theory Anchor_Publish
  imports Proof_Service
begin

text \<open>
  From the confirmed Bitcoin transaction to the client: \<open>ConfirmAnchor\<close> and \<open>GenerateBtcBatch\<close>
  (\<open>src/anchor/bitcoin/bitcoinanchor.go\<close>) read the segments of every stage from the database, join
  them along their links and store the finished proofs, which \<open>GET /proofs\<close> then hands out.
\<close>

subsection \<open>The lookups over what the queries return\<close>

lemma lookup_by_simps [simp]:
  "lookup_by key [] k = None"
  "lookup_by key (x # xs) k = (case lookup_by key xs k of None \<Rightarrow> if key x = k then Some x else None | Some y \<Rightarrow> Some y)"
  by (simp_all add: lookup_by_def map_add_def split: option.splits)

lemma lookup_by_append:
  "lookup_by key (xs @ ys) k = (case lookup_by key ys k of None \<Rightarrow> lookup_by key xs k | Some y \<Rightarrow> Some y)"
  by (induction xs) (auto split: option.splits)

lemma lookup_by_filter: "lookup_by key (filter (\<lambda>x. key x = i) xs) k = (if i = k then lookup_by key xs k else None)"
  by (induction xs) (auto split: option.splits)

lemma lookup_by_collected:
  "lookup_by key (concat (map (\<lambda>i. filter (\<lambda>x. key x = i) xs) is)) k = (if k \<in> set is then lookup_by key xs k else None)"
  by (induction "is") (auto simp: lookup_by_append lookup_by_filter split: option.splits)

lemma set_map_filter: "set (List.map_filter f xs) = {y. \<exists>x \<in> set xs. f x = Some y}"
  by (force simp: List.map_filter_def)

lemma lookup_by_SomeD: "lookup_by key xs k = Some x \<Longrightarrow> x \<in> set xs \<and> key x = k"
  by (induction xs) (auto split: option.splits if_splits)

subsection \<open>A finished proof is stored\<close>

text \<open>The row of a hash, its calendar entry and its anchor are found along their links (of several
  anchors of one calendar transaction the last one counts), and the document of both branches is
  stored under the proof id.\<close>

lemma GenerateBtcBatch_stores:
  assumes db: "db_laws (e_db E) view" "db_reliable (e_db E)"
    and T: "holds (view d) T" "tables_ok T" "t_txs T (abt_BtcTxId tx) = Some tx"
    and row: "g \<in> set (t_rows T)" "\<forall>g' \<in> set (t_rows T). as_ProofID g' = as_ProofID g \<longrightarrow> g' = g" "as_ProofID g \<in> set ids"
    and links: "lookup_by cso_AggID (t_cals T) (as_AggID g) = Some c" "lookup_by aba_CalId (t_anchors T) (cso_CalId c) = Some a"
      "abh_BtcTxId hst = abt_BtcTxId tx" "abt_BtcTxId tx \<noteq> []"
    and fresh: "\<forall>b. view d (''proof:'' @ as_ProofID g) = Some b \<longrightarrow> \<not> contains b ''btc_anchor_branch''"
    and doc: "AddCalendarBranch g (cso_CalState c) (SetProofType (BitcoinNetwork cfg) ''cal'') (chainpoint_header (e_ids E) g) = Inr p"
      "AddChainBranch a tx hst (SetProofType (BitcoinNetwork cfg) ''btc'') p = Inr p'"
  shows "view (fst (GenerateBtcBatch E cfg ids hst d)) (''proof:'' @ as_ProofID g) =
    Some (ProofState_marshal \<lparr>ps_ProofID = as_ProofID g, ps_Proof = json_print (JObj p')\<rparr>)"
proof -
  define aggS where "aggS = concat (map (\<lambda>i. filter (\<lambda>g. as_ProofID g = i) (t_rows T)) ids)"
  define calS where "calS = concat (map (\<lambda>i. filter (\<lambda>c. cso_AggID c = i) (t_cals T)) (map as_AggID aggS))"
  define ancS where "ancS = concat (map (\<lambda>i. filter (\<lambda>a. aba_CalId a = i) (t_anchors T)) (map cso_CalId calS))"
  let ?f = "btc_proof E cfg (lookup_by cso_AggID calS) (lookup_by aba_CalId ancS) tx hst"
  define pr where "pr = \<lparr>ps_ProofID = as_ProofID g, ps_Proof = json_print (JObj p')\<rparr>"
  then have id: "ps_ProofID pr = as_ProofID g" by simp
  have g: "g \<in> set aggS" using row by (auto simp: aggS_def)
  then have c: "lookup_by cso_AggID calS (as_AggID g) = Some c" unfolding calS_def lookup_by_collected using links(1) by simp
  from lookup_by_SomeD [OF c] have a: "lookup_by aba_CalId ancS (cso_CalId c) = Some a"
    unfolding ancS_def lookup_by_collected using links(2) by simp
  have "?f g = Some pr" using c a doc by (simp add: pr_def btc_proof_def Let_def or_zero_def keep_on_error_def)
  moreover have "g' = g" if "?f g' = Some q" "g' \<in> set aggS" "ps_ProofID q = as_ProofID g" for g' q
  proof -
    have "ps_ProofID q = as_ProofID g'" using that(1) by (auto simp: btc_proof_def Let_def split: option.splits)
    moreover have "g' \<in> set (t_rows T)" using that(2) by (auto simp: aggS_def)
    ultimately show ?thesis using that(3) row(2) by metis
  qed
  ultimately have ps: "pr \<in> set (List.map_filter ?f aggS)"
    "\<forall>q \<in> set (List.map_filter ?f aggS). ps_ProofID q = ps_ProofID pr \<longrightarrow> q = pr"
    using g unfolding set_map_filter id by fastforce+
  have "GetAggStateObjectsByProofIds (e_db E) d ids = Inr aggS" "GetCalStateObjectsByAggIds (e_db E) d (map as_AggID aggS) = Inr calS"
    "GetAnchorBTCAggStateObjectsByCalIds (e_db E) d (map cso_CalId calS) = ancS"
    "GetBTCTxStateObjectByBtcHeadState (e_db E) d (abh_BtcTxId hst) = Inr tx"
    unfolding aggS_def calS_def ancS_def links(3) by (rule table_queries [OF db T(1,2)], (fact T(3))?)+
  moreover have "ancS \<noteq> []" using a by auto
  ultimately have "fst (GenerateBtcBatch E cfg ids hst d) = fst (BulkInsertProofs (e_db E) (e_now E) (List.map_filter ?f aggS) d)"
    using links(4) by (simp add: GenerateBtcBatch_def Let_def)
  then show ?thesis
    using BulkInsertProofs_stores [OF db ps(2), of d "e_now E"] ps(1) fresh unfolding id pr_def [symmetric] by metis
qed

text \<open>The proof ids that the transaction confirms.\<close>

lemma confirmed_proof_id:
  assumes db: "db_laws D view" "db_reliable D"
    and T: "holds (view d) T" "tables_ok T" "t_txs T (abt_BtcTxId tx) = Some tx"
    and links: "g \<in> set (t_rows T)" "c \<in> set (t_cals T)" "a \<in> set (t_anchors T)" "cso_AggID c = as_AggID g" "aba_CalId a = cso_CalId c"
      "aba_AnchorBtcAggId a = abt_AnchorBtcAggId tx"
  shows "\<exists>ids. GetProofIdsByBtcTxId D d (abt_BtcTxId tx) = Inr ids \<and> as_ProofID g \<in> set ids"
  unfolding table_queries(5) [OF db T] using links by force

lemma ConfirmAnchor_batch:
  "\<exists>hash. fst (ConfirmAnchor E cfg rounds m d) = fst (GenerateBtcBatch E cfg
     (case GetProofIdsByBtcTxId (e_db E) d (bmm_BtcTxID m) of Inl _ \<Rightarrow> [] | Inr is \<Rightarrow> is)
     (GenerateHeadStateObject (CoreURI cfg) hash m) d)"
  by (auto simp: ConfirmAnchor_def Let_def case_prod_beta)

text \<open>What the two stages make of the row of a hash.\<close>

lemma confirmed_doc:
  assumes mk: "merkle_ok (sha256 (e_crypto E)) (e_merkle E)"
    "merkle_ok (\<lambda>b. sha256 (e_crypto E) (sha256 (e_crypto E) b)) (e_btc_tree E)"
    and agg: "j < length aggs" "aggs ! j = ProcessAggregation (e_crypto E) (e_merkle E) (Some u) items drand" "i < length items"
    and roots: "\<forall>a \<in> set aggs. \<exists>r. AggRoot a = hex_encode r"
    and nd: "\<forall>p \<in> set (mt_proof (e_merkle E) (map (leaf_of (e_crypto E) drand) items) i). \<not> contains (snd p) ''drand''"
    and asc: "ascii drand" "ascii uri" "\<forall>t. ascii (rfc3339 (e_ids E) t)" "ascii (hi_ProofID (items ! i))"
    and h: "hex_decode_ok (hi_Hash (items ! i)) = Some h" "drand = [] \<longrightarrow> length h = 32"
    and cal: "AggregateAnchorTx (e_merkle E) uuid txs = Inr btcAgg" "n < length (List.map_filter cal_leaf txs)"
      "hex_encode (fst (List.map_filter cal_leaf txs ! n)) = CalRoot (GenerateCalendarTree (e_merkle E) aggs)"
    and tx: "btm_BtcTxBody m = hex_encode body" "btm_AnchorBtcAggRoot m = ba_AggRoot btcAgg"
      "go_index (btm_BtcTxBody m) (ba_AggRoot btcAgg) = int (2 * k)" "GenerateAnchorBtcTxState m = Inr txState"
    and block: "tid_TxID t = hex_encode (rev (sha256 (e_crypto E) (sha256 (e_crypto E) body)))"
      "GenerateBtcHeaderProof E t = Inr mon"
  shows "\<exists>p p' b. AddCalendarBranch (AggStates (aggs ! j) ! i)
      (cso_CalState (CreateCalStateMessage uri calTx (GenerateCalendarTree (e_merkle E) aggs) ! j)) (SetProofType net ''cal'')
      (chainpoint_header (e_ids E) (AggStates (aggs ! j) ! i)) = Inr p \<and>
    AddChainBranch (PrepareBtcaStateData btcAgg ! n) txState (GenerateHeadStateObject uri btcc mon) (SetProofType net ''btc'') p = Inr p' \<and>
    get_block (e_ln E) (tid_BlockHeight t) = Inr b \<and> map_of p' ''hash'' = Some (JStr (hi_Hash (items ! i))) \<and>
    run_json_ops (e_crypto E) (branch_ops (first_branch (first_branch p')))
      (run_json_ops (e_crypto E) (branch_ops (first_branch p')) h) = MerkleRoot b \<and> doc_ok p'"
proof -
  let ?row = "AggStates (aggs ! j) ! i"
  obtain p p' b where p: "AddCalendarBranch ?row
      (cso_CalState (CreateCalStateMessage uri calTx (GenerateCalendarTree (e_merkle E) aggs) ! j)) (SetProofType net ''cal'')
      (chainpoint_header (e_ids E) ?row) = Inr p"
    "AddChainBranch (PrepareBtcaStateData btcAgg ! n) txState (GenerateHeadStateObject uri btcc mon) (SetProofType net ''btc'') p = Inr p'"
    "get_block (e_ln E) (tid_BlockHeight t) = Inr b"
    "run_json_ops (e_crypto E) (branch_ops (first_branch (first_branch p')))
      (run_json_ops (e_crypto E) (branch_ops (first_branch p')) h) = MerkleRoot b"
    "doc_ok p \<and> ascii (SetProofType net ''btc'') \<longrightarrow> doc_ok p'"
    using finished_proof [OF mk agg roots nd asc(1,2) h cal tx block] by blast
  moreover have "doc_ok p" by (rule calendar_doc_ok [OF agg nd asc(1,2) h(1) p(1) asc(4,3)])
  moreover have "map_of p' ''hash'' = Some (JStr (hi_Hash (items ! i)))"
    using AddCalendarBranch_keeps [OF p(1)] AddChainBranch_keeps [OF p(2)] header_fields [of "e_ids E" ?row] batch_row(2) [OF agg] by simp
  ultimately show ?thesis by (auto simp: SetProofType_def)
qed

subsection \<open>The finished proof is served\<close>

lemma tx_state_ids:
  assumes "GenerateAnchorBtcTxState m = Inr txState"
  shows "abt_BtcTxId txState = btm_BtcTxID m" "abt_AnchorBtcAggId txState = btm_AnchorBtcAggID m"
  using assms by (auto simp: GenerateAnchorBtcTxState_def Let_def bind_err_def split: sum.splits)

lemma header_proof_id: "GenerateBtcHeaderProof E t = Inr mon \<Longrightarrow> bmm_BtcTxID mon = tid_TxID t"
  by (auto simp: GenerateBtcHeaderProof_def bind_err_def split: sum.splits)

lemma confirmed_anchor_served:
  assumes mk: "merkle_ok (sha256 (e_crypto E)) (e_merkle E)"
    "merkle_ok (\<lambda>b. sha256 (e_crypto E) (sha256 (e_crypto E) b)) (e_btc_tree E)"
    and db: "db_laws (e_db E) view" "db_reliable (e_db E)"
    and T: "holds (view (Db app)) T" "tables_ok T" "t_txs T (tid_TxID t) = Some txState"
    and agg: "j < length aggs" "aggs ! j = ProcessAggregation (e_crypto E) (e_merkle E) (Some u) items drand" "i < length items"
    and roots: "\<forall>a \<in> set aggs. \<exists>r. AggRoot a = hex_encode r"
    and row: "AggStates (aggs ! j) ! i \<in> set (t_rows T)"
      "\<forall>g \<in> set (t_rows T). as_ProofID g = hi_ProofID (items ! i) \<longrightarrow> g = AggStates (aggs ! j) ! i"
    and links: "lookup_by cso_AggID (t_cals T) (AggID (aggs ! j)) =
        Some (CreateCalStateMessage (CoreURI (app_config app)) calTx (GenerateCalendarTree (e_merkle E) aggs) ! j)"
      "lookup_by aba_CalId (t_anchors T) (hex_encode (tm_Hash calTx)) = Some (PrepareBtcaStateData btcAgg ! n)"
    and nd: "\<forall>p \<in> set (mt_proof (e_merkle E) (map (leaf_of (e_crypto E) drand) items) i). \<not> contains (snd p) ''drand''"
    and asc: "ascii drand" "ascii (CoreURI (app_config app))" "\<forall>t. ascii (rfc3339 (e_ids E) t)" "ascii (hi_ProofID (items ! i))"
    and h: "hex_decode_ok (hi_Hash (items ! i)) = Some h" "drand = [] \<longrightarrow> length h = 32"
    and cal: "AggregateAnchorTx (e_merkle E) uuid txs = Inr btcAgg" "n < length (List.map_filter cal_leaf txs)"
      "hex_encode (fst (List.map_filter cal_leaf txs ! n)) = CalRoot (GenerateCalendarTree (e_merkle E) aggs)"
    and tx: "btm_BtcTxBody m = hex_encode body" "btm_AnchorBtcAggRoot m = ba_AggRoot btcAgg"
      "go_index (btm_BtcTxBody m) (ba_AggRoot btcAgg) = int (2 * k)" "GenerateAnchorBtcTxState m = Inr txState"
      "btm_AnchorBtcAggID m = ba_AnchorBtcAggID btcAgg" "btm_BtcTxID m = tid_TxID t" "tid_TxID t \<noteq> []"
    and block: "tid_TxID t = hex_encode (rev (sha256 (e_crypto E) (sha256 (e_crypto E) body)))"
      "GenerateBtcHeaderProof E t = Inr mon"
    and fresh: "\<forall>b. view (Db app) (''proof:'' @ hi_ProofID (items ! i)) = Some b \<longrightarrow> \<not> contains b ''btc_anchor_branch''"
    and run: "ConfirmAnchor E (app_config app) rounds mon (Db app) = (d, effs)"
    and r: "ProofIdsHeader r = hi_ProofID (items ! i)" "is_proof_id (hi_ProofID (items ! i))"
      "CHR '','' \<notin> set (hi_ProofID (items ! i))" "CHR '' '' \<notin> set (hi_ProofID (items ! i))"
  shows "\<exists>doc b. get_block (e_ln E) (tid_BlockHeight t) = Inr b \<and>
    ProofHandler (e_db E) r (app\<lparr>Db := d\<rparr>) = respondJSON 200 (JArr [proof_entry (hi_ProofID (items ! i)) (JObj doc)]) \<and>
    map_of doc ''hash'' = Some (JStr (hi_Hash (items ! i))) \<and>
    run_json_ops (e_crypto E) (branch_ops (first_branch (first_branch doc)))
      (run_json_ops (e_crypto E) (branch_ops (first_branch doc)) h) = MerkleRoot b"
proof -
  let ?i = "hi_ProofID (items ! i)" and ?row = "AggStates (aggs ! j) ! i" and ?a = "PrepareBtcaStateData btcAgg ! n"
  let ?c = "CreateCalStateMessage (CoreURI (app_config app)) calTx (GenerateCalendarTree (e_merkle E) aggs) ! j"
  note fields = batch_row [OF agg] and ids = tx_state_ids [OF tx(4)] header_proof_id [OF block(2)]
  have c: "?c \<in> set (t_cals T)" "cso_AggID ?c = AggID (aggs ! j)" and a: "?a \<in> set (t_anchors T)" "aba_CalId ?a = hex_encode (tm_Hash calTx)"
    using lookup_by_SomeD [OF links(1)] lookup_by_SomeD [OF links(2)] by blast+
  have cid: "cso_CalId ?c = hex_encode (tm_Hash calTx)"
    using agg(1) by (simp add: CreateCalStateMessage_def Let_def calendar_tree_fields)
  have aid: "aba_AnchorBtcAggId ?a = abt_AnchorBtcAggId txState"
    using anchor_tree_sound(4) [OF mk(1) cal(1) refl cal(2)] cal(2) tx(5) ids(2) by (simp add: PrepareBtcaStateData_def)
  have tx': "t_txs T (abt_BtcTxId txState) = Some txState" using T(3) ids tx(6) by simp
  note T = T(1,2) tx'
  obtain pids where pids: "GetProofIdsByBtcTxId (e_db E) (Db app) (bmm_BtcTxID mon) = Inr pids" "?i \<in> set pids"
    using confirmed_proof_id [OF db T row(1) c(1) a(1)] c a cid aid fields ids tx(6) by auto
  obtain btcc where d: "d = fst (GenerateBtcBatch E (app_config app) pids (GenerateHeadStateObject (CoreURI (app_config app)) btcc mon) (Db app))"
    using ConfirmAnchor_batch [of E "app_config app" rounds mon "Db app"] run pids(1) by auto
  obtain p p' b where p: "AddCalendarBranch ?row (cso_CalState ?c) (SetProofType (BitcoinNetwork (app_config app)) ''cal'')
      (chainpoint_header (e_ids E) ?row) = Inr p"
    "AddChainBranch ?a txState (GenerateHeadStateObject (CoreURI (app_config app)) btcc mon)
      (SetProofType (BitcoinNetwork (app_config app)) ''btc'') p = Inr p'"
    and b: "get_block (e_ln E) (tid_BlockHeight t) = Inr b" "map_of p' ''hash'' = Some (JStr (hi_Hash (items ! i)))"
    "run_json_ops (e_crypto E) (branch_ops (first_branch (first_branch p')))
      (run_json_ops (e_crypto E) (branch_ops (first_branch p')) h) = MerkleRoot b" "doc_ok p'"
    using confirmed_doc [OF mk agg roots nd asc h cal tx(1-4) block] by blast
  have hst: "abh_BtcTxId (GenerateHeadStateObject (CoreURI (app_config app)) btcc mon) = abt_BtcTxId txState"
    using ids tx(6) by (simp add: GenerateHeadStateObject_def Let_def)
  have "view d (''proof:'' @ as_ProofID ?row) = Some (ProofState_marshal \<lparr>ps_ProofID = as_ProofID ?row, ps_Proof = json_print (JObj p')\<rparr>)"
    unfolding d
    by (rule GenerateBtcBatch_stores [OF db T row(1) _ _ _ _ hst _ _ p])
      (use fields row(2) pids(2) links cid ids tx(6,7) fresh in simp_all)
  moreover have w: "json_wf (JObj p')" "sort_json (JObj p') = JObj p'" using b(4) sort_json_sorted by (simp_all only: doc_ok_def)
  ultimately have st: "stored_proof view (Db (app\<lparr>Db := d\<rparr>)) x p'" if "x \<in> set [?i]" for x
    using that asc(4) fields(1) unfolding stored_proof_def by simp
  have "ProofHandler (e_db E) r (app\<lparr>Db := d\<rparr>) = respondJSON 200 (JArr (map (\<lambda>x. proof_entry x (sort_json (JObj p'))) [?i]))"
    by (rule ProofHandler_stored [OF db _ _ _ _ st]) (use r in simp_all)
  with b w(2) show ?thesis by (intro exI [of _ p'] exI [of _ b]) simp
qed

text \<open>C7. A confirmed anchor finishes the proofs, and they are served. Suppose the database holds the rows of
  the aggregations, the calendar entries and the anchors, and among them the row of a hash, its
  calendar entry and the (last) anchor of its calendar transaction; and the Bitcoin transaction with
  this anchor root is in a block. After \<open>ConfirmAnchor\<close>, a request for the proof id of the hash is
  answered with 200 and one entry, a document of this hash; its first branch leads from the hash to
  the calendar root, and the branch below that on to the Merkle root of the block. (No other row has
  the proof id, no finished proof is stored under it, and no sibling in the tree proof of the hash
  contains the bytes "drand".)\<close>

theorem confirmed_anchor_is_served:
  assumes mk: "merkle_ok (sha256 (e_crypto E)) (e_merkle E)"
    "merkle_ok (\<lambda>b. sha256 (e_crypto E) (sha256 (e_crypto E) b)) (e_btc_tree E)"
    and db: "db_laws (e_db E) view" "db_reliable (e_db E)"
    and T: "holds (view (Db app)) T" "tables_ok T" "t_txs T (tid_TxID t) = Some txState"
    and agg: "j < length aggs" "aggs ! j = ProcessAggregation (e_crypto E) (e_merkle E) (Some u) items drand" "i < length items"
    and roots: "\<forall>a \<in> set aggs. \<exists>r. AggRoot a = hex_encode r"
    and row: "AggStates (aggs ! j) ! i \<in> set (t_rows T)"
      "\<forall>g \<in> set (t_rows T). as_ProofID g = hi_ProofID (items ! i) \<longrightarrow> g = AggStates (aggs ! j) ! i"
    and links: "lookup_by cso_AggID (t_cals T) (AggID (aggs ! j)) =
        Some (CreateCalStateMessage (CoreURI (app_config app)) calTx (GenerateCalendarTree (e_merkle E) aggs) ! j)"
      "lookup_by aba_CalId (t_anchors T) (hex_encode (tm_Hash calTx)) = Some (PrepareBtcaStateData btcAgg ! n)"
    and nd: "\<forall>p \<in> set (mt_proof (e_merkle E) (map (leaf_of (e_crypto E) drand) items) i). \<not> contains (snd p) ''drand''"
    and asc: "ascii drand" "ascii (CoreURI (app_config app))" "\<forall>t. ascii (rfc3339 (e_ids E) t)" "ascii (hi_ProofID (items ! i))"
    and h: "hex_decode_ok (hi_Hash (items ! i)) = Some h" "drand = [] \<longrightarrow> length h = 32"
    and cal: "AggregateAnchorTx (e_merkle E) uuid txs = Inr btcAgg" "n < length (List.map_filter cal_leaf txs)"
      "hex_encode (fst (List.map_filter cal_leaf txs ! n)) = CalRoot (GenerateCalendarTree (e_merkle E) aggs)"
    and tx: "btm_BtcTxBody m = hex_encode body" "btm_AnchorBtcAggRoot m = ba_AggRoot btcAgg"
      "go_index (btm_BtcTxBody m) (ba_AggRoot btcAgg) = int (2 * k)" "GenerateAnchorBtcTxState m = Inr txState"
      "btm_AnchorBtcAggID m = ba_AnchorBtcAggID btcAgg" "btm_BtcTxID m = tid_TxID t" "tid_TxID t \<noteq> []"
    and block: "tid_TxID t = hex_encode (rev (sha256 (e_crypto E) (sha256 (e_crypto E) body)))"
      "GenerateBtcHeaderProof E t = Inr mon"
    and fresh: "\<forall>b. view (Db app) (''proof:'' @ hi_ProofID (items ! i)) = Some b \<longrightarrow> \<not> contains b ''btc_anchor_branch''"
    and run: "ConfirmAnchor E (app_config app) rounds mon (Db app) = (d, effs)"
    and r: "ProofIdsHeader r = hi_ProofID (items ! i)" "is_proof_id (hi_ProofID (items ! i))"
      "CHR '','' \<notin> set (hi_ProofID (items ! i))" "CHR '' '' \<notin> set (hi_ProofID (items ! i))"
  shows "\<exists>doc b. get_block (e_ln E) (tid_BlockHeight t) = Inr b \<and>
    ProofHandler (e_db E) r (app\<lparr>Db := d\<rparr>) = respondJSON 200 (JArr [proof_entry (hi_ProofID (items ! i)) (JObj doc)]) \<and>
    map_of doc ''hash'' = Some (JStr (hi_Hash (items ! i))) \<and>
    run_json_ops (e_crypto E) (branch_ops (first_branch (first_branch doc)))
      (run_json_ops (e_crypto E) (branch_ops (first_branch doc)) h) = MerkleRoot b"
  using confirmed_anchor_served [OF assms] .

text \<open>One hash, one calendar transaction, one anchor.\<close>

lemma insert_all_keeps_proofs: "db_laws D view \<Longrightarrow> has_prefix k ''proof:'' \<Longrightarrow> view (insert_all D now aggs cals anchors tx s) k = view s k"
  using state_inserts_keep_proofs [of D view now] by (simp add: keeps_def insert_all_def)

definition toy_confirm_msg :: "BtcAgg \<Rightarrow> BtcTxMsg" where
  "toy_confirm_msg agg = toy_btc_msg\<lparr>btm_BtcTxID := hex_encode (rev toy_body), btm_AnchorBtcAggID := ba_AnchorBtcAggID agg\<rparr>"

definition toy_message :: "CalStateObject list" where
  "toy_message = CreateCalStateMessage ''u'' \<lparr>tm_Hash = ''H'', tm_Data = []\<rparr>
     (GenerateCalendarTree (ref_merkle (\<lambda>b. b)) [toy_round_batch toy_id])"

lemma toy_anchor:
  assumes "AggregateAnchorTx (ref_merkle (\<lambda>b. b)) (\<lambda>b. b) [x] = Inr agg" "cal_leaf x = Some (toy_hash (CHR ''1''), x)"
  shows "ba_AggRoot agg = hex_encode (toy_hash (CHR ''1''))" "ba_AnchorBtcAggID agg = replicate 16 (CHR ''1'')"
    "length (PrepareBtcaStateData agg) = 1" "aba_CalId (PrepareBtcaStateData agg ! 0) = hex_encode (rtx_Hash x)"
proof -
  have "take 16 (toy_hash (CHR ''1'')) = replicate 16 (CHR ''1'')"
    by (simp add: toy_hash_def)
  then have "agg = \<lparr>ba_AnchorBtcAggID = replicate 16 (CHR ''1''), ba_AggRoot = hex_encode (toy_hash (CHR ''1'')),
      ba_ProofData = [\<lparr>bpd_CalID = hex_encode (rtx_Hash x), bpd_Proof = hex_steps (mt_proof (ref_merkle (\<lambda>b. b)) [toy_hash (CHR ''1'')] 0)\<rparr>]\<rparr>"
    using assms by (simp add: AggregateAnchorTx_def toy_root slice_def toy_hash_length Let_def del: hex_encode.simps)
  then show "ba_AggRoot agg = hex_encode (toy_hash (CHR ''1''))" "ba_AnchorBtcAggID agg = replicate 16 (CHR ''1'')"
    "length (PrepareBtcaStateData agg) = 1" "aba_CalId (PrepareBtcaStateData agg ! 0) = hex_encode (rtx_Hash x)"
    by (simp_all add: PrepareBtcaStateData_def del: hex_encode.simps)
qed

lemma toy_sent_hash: "rtx_Hash toy_cal_tx = ''H''"
  by (simp add: toy_cal_tx_def)

lemma toy_batch_fields:
  "AggID (toy_round_batch toy_id) = ''u''" "AggRoot (toy_round_batch toy_id) = hex_encode (toy_hash (CHR ''1''))"
  "length (AggStates (toy_round_batch toy_id)) = 1" "list_all AggState_ok (AggStates (toy_round_batch toy_id))"
proof -
  have "ascii toy_id" "ascii (hex_encode (toy_hash (CHR ''1'')))" unfolding toy_id_def toy_hash_def by code_simp+
  moreover have "mt_proof (ref_merkle (\<lambda>b. b)) [toy_hash (CHR ''1'')] 0 = []" by (simp add: ref_merkle_def ref_proof.simps)
  ultimately show "AggID (toy_round_batch toy_id) = ''u''" "AggRoot (toy_round_batch toy_id) = hex_encode (toy_hash (CHR ''1''))"
    "length (AggStates (toy_round_batch toy_id)) = 1" "list_all AggState_ok (AggStates (toy_round_batch toy_id))"
    by (simp_all add: toy_round_batch_def ProcessAggregation_def agg_state_of_def leaf_of_def codec_simps toy_hash_length toy_root
        AggState_ok_def OpsState_codec.marshal_ascii OpsState_ok_def proof_ops_def Let_def del: hex_encode.simps)
qed

lemma toy_message_fields:
  "length toy_message = 1" "cso_AggID (toy_message ! 0) = ''u''" "cso_CalId (toy_message ! 0) = hex_encode ''H''"
  "CalRoot (GenerateCalendarTree (ref_merkle (\<lambda>b. b)) [toy_round_batch toy_id]) = hex_encode (toy_hash (CHR ''1''))"
proof -
  have "agg_leaves [toy_round_batch toy_id] = [toy_hash (CHR ''1'')]" by (simp add: agg_leaves_def toy_batch_fields codec_simps)
  then show "length toy_message = 1" "cso_AggID (toy_message ! 0) = ''u''" "cso_CalId (toy_message ! 0) = hex_encode ''H''"
    "CalRoot (GenerateCalendarTree (ref_merkle (\<lambda>b. b)) [toy_round_batch toy_id]) = hex_encode (toy_hash (CHR ''1''))"
    by (simp_all add: toy_message_def CreateCalStateMessage_def calendar_tree_fields toy_batch_fields toy_root Let_def del: hex_encode.simps)
qed

lemma singleton_nth: "length xs = 1 \<Longrightarrow> xs = [xs ! 0]"
  by (cases xs) auto

lemma toy_segments_ok:
  assumes "AggregateAnchorTx (ref_merkle (\<lambda>b. b)) (\<lambda>b. b) [toy_cal_tx] = Inr agg" "GenerateAnchorBtcTxState (toy_confirm_msg agg) = Inr txState"
  shows "list_all CalStateObject_ok toy_message" "list_all AnchorBtcAggState_ok (PrepareBtcaStateData agg)" "AnchorBtcTxState_ok txState"
proof -
  note agg = toy_anchor [OF assms(1) toy_leaf] and a = anchor_tree_sound [OF _ assms(1) toy_cals, of toy_crypto 0]
  have mk: "merkle_ok (sha256 toy_crypto) (ref_merkle (\<lambda>b. b))" using ref_merkle_ok [of "\<lambda>b. b"] by simp
  have no_proof: "mt_proof (ref_merkle (\<lambda>b. b)) [x] 0 = []" for x by (simp add: ref_merkle_def ref_proof.simps)
  have id: "ascii (replicate 16 (CHR ''1''))" by code_simp
  obtain os aos where "cso_CalState (toy_message ! 0) = AnchorOpsState_marshal aos" "AnchorOpsState_ok aos"
    using calendar_segments [where j = 0 and aggs = "[toy_round_batch toy_id]" and cr = toy_crypto and M = "ref_merkle (\<lambda>b. b)"
        and u = "''u''" and drand = "[]" and i = 0 and baseUri = "''u''" and tx = "\<lparr>tm_Hash = ''H'', tm_Data = []\<rparr>"
        and items = "[\<lparr>hi_ProofID = toy_id, hi_Hash = hex_encode (toy_hash (CHR ''1''))\<rparr>]"]
    by (auto simp: toy_round_batch_def toy_message_def no_proof)
  then show "list_all CalStateObject_ok toy_message"
    by (simp add: toy_message_fields CalStateObject_ok_def AnchorOpsState_codec.marshal_ascii list_all_length del: hex_encode.simps)
  show "list_all AnchorBtcAggState_ok (PrepareBtcaStateData agg)"
    using a [OF mk] agg id by (simp add: PrepareBtcaStateData_def AnchorBtcAggState_ok_def OpsState_codec.marshal_ascii OpsState_ok_def
        list_all_length del: hex_encode.simps)
  obtain its where "abt_BtcTxState txState = OpsState_marshal \<lparr>os_Ops = its\<rparr>" "list_all ProofLineItem_ok its"
    using tx_segment_sound [OF assms(2), of toy_body "toy_hash (CHR ''1'')" 2] toy_index
    by (auto simp: toy_confirm_msg_def toy_btc_msg_def toy_body_def)
  then show "AnchorBtcTxState_ok txState" using tx_state_ids [OF assms(2)] agg id
    by (simp add: AnchorBtcTxState_ok_def toy_confirm_msg_def OpsState_codec.marshal_ascii OpsState_ok_def del: hex_encode.simps)
qed

lemma toy_row:
  "AggStates (toy_round_batch toy_id) ! 0 \<in> set (AggStates (toy_round_batch toy_id))"
  "\<forall>g \<in> set (AggStates (toy_round_batch toy_id)). as_ProofID g = toy_id \<longrightarrow> g = AggStates (toy_round_batch toy_id) ! 0"
  using singleton_nth [OF toy_batch_fields(3)] by (metis list.set_intros(1), metis empty_iff insert_iff list.set(1,2))

lemma lookup_by_singleton: "length xs = 1 \<Longrightarrow> lookup_by key xs (key (xs ! 0)) = Some (xs ! 0)"
  by (cases xs) auto

lemma toy_body_fields:
  "toy_body \<noteq> []" "go_index (hex_encode toy_body) (hex_encode (toy_hash (CHR ''1''))) = 4"
  using toy_index by (simp_all add: toy_btc_msg_def toy_body_def)

lemma toy_confirm_msg_fields:
  "btm_BtcTxBody (toy_confirm_msg agg) = hex_encode toy_body"
  "btm_AnchorBtcAggRoot (toy_confirm_msg agg) = hex_encode (toy_hash (CHR ''1''))"
  "btm_AnchorBtcAggID (toy_confirm_msg agg) = ba_AnchorBtcAggID agg" "btm_BtcTxID (toy_confirm_msg agg) = hex_encode (rev toy_body)"
  by (simp_all add: toy_confirm_msg_def toy_btc_msg_def toy_body_def)

definition toy_anchored :: "BtcAgg \<Rightarrow> AnchorBtcTxState \<Rightarrow> (bytes \<times> bytes) list" where
  "toy_anchored agg txState = insert_all mem_db 0 (AggStates (toy_round_batch toy_id)) toy_message (PrepareBtcaStateData agg) txState []"

definition toy_request :: Request where
  "toy_request = \<lparr>RemoteAddr = [], ContentType = [], Body = [], ProofIdsHeader = toy_id, Vars = Map.empty\<rparr>"

theorem confirmed_anchor_is_served_witness:
  "\<exists>agg txState mon d effs doc.
    AggregateAnchorTx (ref_merkle (\<lambda>b. b)) (\<lambda>b. b) [toy_cal_tx] = Inr agg \<and>
    GenerateAnchorBtcTxState (toy_confirm_msg agg) = Inr txState \<and>
    ConfirmAnchor toy_world (app_config toy_node) [] mon (toy_anchored agg txState) = (d, effs) \<and>
    ProofHandler mem_db toy_request (toy_node\<lparr>Db := d\<rparr>) = respondJSON 200 (JArr [proof_entry toy_id (JObj doc)]) \<and>
    run_json_ops toy_crypto (branch_ops (first_branch (first_branch doc)))
      (run_json_ops toy_crypto (branch_ops (first_branch doc)) (toy_hash (CHR ''1''))) = CHR ''x'' # toy_body"
proof -
  define item where "item = \<lparr>hi_ProofID = toy_id, hi_Hash = hex_encode (toy_hash (CHR ''1''))\<rparr>"
  have item: "hi_ProofID item = toy_id" "hi_Hash item = hex_encode (toy_hash (CHR ''1''))" by (simp_all add: item_def)
  have batch: "[toy_round_batch toy_id] ! 0 = ProcessAggregation toy_crypto (ref_merkle (\<lambda>b. b)) (Some ''u'') [item] []"
    by (simp add: toy_round_batch_def item_def)
  have mk: "merkle_ok (\<lambda>b. b) (ref_merkle (\<lambda>b. b))" using ref_merkle_ok [of "\<lambda>b. b"] by simp
  obtain agg where agg: "AggregateAnchorTx (ref_merkle (\<lambda>b. b)) (\<lambda>b. b) [toy_cal_tx] = Inr agg"
    using toy_hash_length by (simp add: AggregateAnchorTx_def toy_leaf toy_root slice_def Let_def)
  note ta = toy_anchor [OF agg toy_leaf, unfolded toy_sent_hash]
  obtain txState where tx: "GenerateAnchorBtcTxState (toy_confirm_msg agg) = Inr txState"
    using toy_index toy_hash_length
    by (simp add: toy_confirm_msg_def GenerateAnchorBtcTxState_def toy_btc_msg_def slice_to_def slice_from_def slice_def Let_def)
  define t where "t = TxID_zero\<lparr>tid_TxID := hex_encode (rev toy_body)\<rparr>"
  obtain mon where mon: "GenerateBtcHeaderProof toy_world t = Inr mon" using toy_header_proof unfolding t_def by blast
  obtain d effs where run: "ConfirmAnchor toy_world (app_config toy_node) [] mon (toy_anchored agg txState) = (d, effs)" by fastforce
  define T where "T = \<lparr>t_rows = AggStates (toy_round_batch toy_id), t_cals = toy_message, t_anchors = PrepareBtcaStateData agg,
    t_txs = [hex_encode (rev toy_body) \<mapsto> txState]\<rparr>"
  have id: "abt_BtcTxId txState = hex_encode (rev toy_body)" using tx_state_ids(1) [OF tx] by (simp add: toy_confirm_msg_fields)
  have "holds (map_of []) no_tables" using holds_no_tables(1) by simp
  from insert_all_holds [OF mem_db_laws mem_db_reliable this holds_no_tables(2) toy_batch_fields(4) toy_segments_ok(1,2) [OF agg tx], where now = 0 and btctx = txState]
  have T: "holds (map_of (toy_anchored agg txState)) T" by (simp add: toy_anchored_def T_def no_tables_def id)
  have T_ok: "tables_ok T" using toy_segments_ok [OF agg tx] toy_batch_fields(4) by (simp add: T_def tables_ok_def)
  have T_fields: "t_rows T = AggStates (toy_round_batch toy_id)" "t_cals T = toy_message" "t_anchors T = PrepareBtcaStateData agg"
    "t_txs T (hex_encode (rev toy_body)) = Some txState" by (simp_all add: T_def)
  have i: "is_proof_id toy_id" "CHR '','' \<notin> set toy_id" "CHR '' '' \<notin> set toy_id" "ascii toy_id" unfolding toy_id_def by code_simp+
  have core: "CoreURI (app_config toy_node) = ''u''" "rfc3339 (e_ids toy_world) z = []" "mt_proof (ref_merkle (\<lambda>b. b)) [x] 0 = []" for z x
    by (simp_all add: toy_node_fields toy_world_def ref_merkle_def ref_proof.simps)
  have fresh: "map_of (toy_anchored agg txState) (''proof:'' @ x) = None" for x
    unfolding toy_anchored_def by (subst insert_all_keeps_proofs [OF mem_db_laws]) (simp_all add: has_prefix_append del: append_Cons)
  have links: "lookup_by cso_AggID toy_message ''u'' = Some (toy_message ! 0)"
    "lookup_by aba_CalId (PrepareBtcaStateData agg) (hex_encode ''H'') = Some (PrepareBtcaStateData agg ! 0)"
    using lookup_by_singleton [OF toy_message_fields(1), of cso_AggID] lookup_by_singleton [OF ta(3), of aba_CalId]
    by (simp_all only: toy_message_fields ta)
  have t: "tid_TxID t = hex_encode (rev toy_body)" by (simp add: t_def)
  have hex: "\<exists>r. hex_encode (toy_hash (CHR ''1'')) = hex_encode r" by blast
  have "\<exists>doc b. get_block (e_ln toy_world) (tid_BlockHeight t) = Inr b \<and>
      ProofHandler (e_db toy_world) toy_request (toy_node\<lparr>Db := toy_anchored agg txState, Db := d\<rparr>) =
        respondJSON 200 (JArr [proof_entry (hi_ProofID ([item] ! 0)) (JObj doc)]) \<and>
      map_of doc ''hash'' = Some (JStr (hi_Hash ([item] ! 0))) \<and>
      run_json_ops (e_crypto toy_world) (branch_ops (first_branch (first_branch doc)))
        (run_json_ops (e_crypto toy_world) (branch_ops (first_branch doc)) (toy_hash (CHR ''1''))) = MerkleRoot b"
    by (rule confirmed_anchor_is_served [where E = toy_world and view = map_of and aggs = "[toy_round_batch toy_id]" and j = 0 and i = 0 and u = "''u''"
        and items = "[item]" and drand = "[]" and T = T and txState = txState and calTx = "\<lparr>tm_Hash = ''H'', tm_Data = []\<rparr>"
        and btcAgg = agg and n = 0 and uuid = "\<lambda>b. b" and txs = "[toy_cal_tx]" and m = "toy_confirm_msg agg" and body = toy_body
        and k = 2 and t = t and mon = mon and rounds = "[]" and effs = effs])
      (use run in \<open>simp_all add: mk mem_db_laws mem_db_reliable T T_ok T_fields batch [symmetric] i toy_row agg tx mon item
          toy_batch_fields toy_hash_length toy_leaf toy_message_fields core links fresh toy_confirm_msg_fields toy_body_fields t codec_simps toy_message_def [symmetric]
          toy_request_def ta hex del: hex_encode.simps append_Cons\<close>)
  then show ?thesis using agg tx run item by (auto simp: t_def TxID_zero_def toy_ln_def)
qed

end
