(* ===== verification/Proof_Lifecycle.thy ===== *)
theory Proof_Lifecycle
  imports Anchor_Publish
begin

text \<open>
  The life of a proof: the calendar round (\<open>src/abci/anchor.go\<close>), the monitoring of the Bitcoin
  transaction and its confirmation (\<open>src/anchor/bitcoin/bitcoinanchor.go\<close>) as operations on the
  tables of the proof database. Each stage appends its segments, and nothing else touches them.
\<close>

subsection \<open>What leaves the tables alone\<close>

definition keeps_tables :: "('d \<Rightarrow> view) \<Rightarrow> ('d \<Rightarrow> 'd) \<Rightarrow> bool" where
  "keeps_tables view f \<longleftrightarrow> (\<forall>p \<in> set table_prefixes. keeps view p f)"

lemma keeps_tables_holds: "keeps_tables view f \<Longrightarrow> holds (view (f d)) T = holds (view d) T"
  by (rule holds_frame) (simp add: keeps_tables_def keeps_def)

lemma kv_Del_other: "db_laws D view \<Longrightarrow> k \<noteq> key \<Longrightarrow> view (fst (kv_Del D d key v)) k = view d k"
  using db_delete_view [of D view d key "fst (db_delete D d key)" "snd (db_delete D d key)"]
    db_set_view [of D view d key w "fst (db_set D d key w)" "snd (db_set D d key w)" for w]
  by (simp add: kv_Del_def split: sum.splits option.splits)

lemma keeps_Del: "db_laws D view \<Longrightarrow> \<not> has_prefix key p \<Longrightarrow> keeps view p (\<lambda>d. fst (kv_Del D d key v))"
  by (auto simp: keeps_def intro!: kv_Del_other)

lemma keeps_proofs:
  assumes "db_laws D view" "\<And>i. \<not> has_prefix (''proof:'' @ i) p" "\<And>i. \<not> has_prefix (''proofCreated:'' @ i) p"
  shows "keeps view p (\<lambda>d. fst (BulkInsertProofs D now ps d))"
proof -
  have "view (fst (BulkInsertProofs D now ps d)) k = view d k" if "has_prefix k p" for d k
  proof (induction ps arbitrary: d)
    case (Cons q ps)
    have "view (fst (kv_Set D d (''proof:'' @ i) v)) k = view d k" "view (fst (kv_Set D d (''proofCreated:'' @ i) v)) k = view d k" for d i v
      using assms(2,3) that by (metis kv_Set_other [OF assms(1)])+
    then show ?case using Cons.IH
      by (auto simp: prod_eq_iff split: prod.splits option.splits)
  qed simp
  then show ?thesis by (simp add: keeps_def)
qed

lemma keeps_remove_checks:
  assumes "db_laws D view" "\<not> has_prefix CHECK_BTC_TX_IDS_KEY p"
  shows "keeps view p (\<lambda>d. fst (FindAndRemoveBtcCheck D rt d))"
proof -
  have del: "view (fst (kv_Del D d CHECK_BTC_TX_IDS_KEY v)) k = view d k" if "has_prefix k p" for d v k
    using keeps_Del [OF assms] that by (auto simp: keeps_def)
  have "view (fst (remove_checks D rt ss d)) k = view d k" if "has_prefix k p" for ss d k
    using del [OF that] by (induction ss arbitrary: d) (auto split: option.splits prod.splits, (metis fst_conv)+)
  then show ?thesis by (simp add: keeps_def FindAndRemoveBtcCheck_def split: sum.splits)
qed

lemma hex_key_other: "p \<in> set table_prefixes \<Longrightarrow> \<not> has_prefix (hex_encode b) p"
proof
  assume "p \<in> set table_prefixes" "has_prefix (hex_encode b) p"
  then have "CHR ''s'' \<in> set (hex_encode b)" by (auto simp: has_prefix_iff table_prefixes_def)
  from hex_encode_chars [OF this] show False by (simp add: is_hex_char_def from_hex_char_def)
qed

lemma tables_kept:
  assumes "db_laws D view"
  shows "holds (view (fst (BulkInsertProofs D now ps d))) T = holds (view d) T"
    and "holds (view (fst (kv_Set D d (hex_encode b) v))) T = holds (view d) T"
    and "holds (view (fst (FindAndRemoveBtcCheck D rt d))) T = holds (view d) T"
    and "holds (view (fst (kv_Append D d CONFIRMED_BTC_TX_IDS_KEY v))) T = holds (view d) T"
    and "holds (view (fst (kv_Append D d CHECK_BTC_TX_IDS_KEY v))) T = holds (view d) T"
  by (rule keeps_tables_holds [where f = "\<lambda>d. fst (_ d)"], unfold keeps_tables_def, intro ballI,
      rule keeps_proofs [OF assms] keeps_Set [OF assms] keeps_remove_checks [OF assms] keeps_Append [OF assms];
      (erule hex_key_other | simp add: table_prefixes_def CHECK_BTC_TX_IDS_KEY_def CONFIRMED_BTC_TX_IDS_KEY_def has_prefix_def; force))+

subsection \<open>The calendar round\<close>

lemma round_rows:
  assumes db: "db_laws D view" "db_reliable D"
  shows "holds (view d) T \<Longrightarrow> tables_ok T \<Longrightarrow> \<forall>a \<in> set aggs. list_all AggState_ok (AggStates a) \<Longrightarrow>
    holds (view (foldl (\<lambda>d agg. fst (BulkInsertAggState D now (AggStates agg) d)) d aggs))
      (T\<lparr>t_rows := t_rows T @ concat (map AggStates aggs)\<rparr>)"
proof (induction aggs arbitrary: d T)
  case (Cons a aggs)
  then have ok: "list_all AggState_ok (AggStates a)" by simp
  then obtain d1 where d1: "BulkInsertAggState D now (AggStates a) d = (d1, None)"
    "holds (view d1) (T\<lparr>t_rows := t_rows T @ AggStates a\<rparr>)"
    using insert_rows [OF db Cons.prems(1,2)] by blast
  have "tables_ok (T\<lparr>t_rows := t_rows T @ AggStates a\<rparr>)" using Cons.prems(2) ok by (simp add: tables_ok_def)
  from Cons.IH [OF d1(2) this] Cons.prems(3) show ?case by (simp add: d1(1))
qed simp

lemma calendar_entries:
  assumes "ascii uri" "\<forall>a \<in> set aggs. ascii (AggID a)"
  shows "list_all CalStateObject_ok (CreateCalStateMessage uri tx (GenerateCalendarTree M aggs))"
    and "map cso_AggID (CreateCalStateMessage uri tx (GenerateCalendarTree M aggs)) = map AggID aggs"
    and "\<forall>c \<in> set (CreateCalStateMessage uri tx (GenerateCalendarTree M aggs)). cso_CalId c = hex_encode (tm_Hash tx)"
proof -
  let ?x = "\<lparr>AnchorID = hex_encode (tm_Hash tx), Uris = [data_uri uri (tm_Hash tx)]\<rparr>"
  have "AnchorOpsState_ok \<lparr>aos_Ops = hex_steps ps, Anchor = ?x\<rparr>" for ps
    using assms(1) by (simp add: AnchorOpsState_ok_def AnchorObj_ok_def)
  then have st: "ascii (AnchorOpsState_marshal \<lparr>aos_Ops = hex_steps ps, Anchor = ?x\<rparr>)" for ps
    by (rule AnchorOpsState_codec.marshal_ascii)
  have msg: "CreateCalStateMessage uri tx (GenerateCalendarTree M aggs) =
    map (\<lambda>i. \<lparr>cso_AggID = AggID (aggs ! i), cso_CalId = hex_encode (tm_Hash tx),
      cso_CalState = AnchorOpsState_marshal \<lparr>aos_Ops = hex_steps (mt_proof M (agg_leaves aggs) i), Anchor = ?x\<rparr>\<rparr>) [0..<length aggs]"
    by (simp add: CreateCalStateMessage_def GenerateCalendarTree_def Let_def)
  show "list_all CalStateObject_ok (CreateCalStateMessage uri tx (GenerateCalendarTree M aggs))"
    using st assms(2) by (simp add: msg CalStateObject_ok_def list_all_iff)
  show "map cso_AggID (CreateCalStateMessage uri tx (GenerateCalendarTree M aggs)) = map AggID aggs"
    by (intro nth_equalityI) (simp_all add: msg)
  show "\<forall>c \<in> set (CreateCalStateMessage uri tx (GenerateCalendarTree M aggs)). cso_CalId c = hex_encode (tm_Hash tx)"
    by (simp add: msg)
qed

text \<open>A round that succeeded has appended the rows of its aggregations and their calendar entries.\<close>

lemma calendar_round_tables:
  assumes db: "db_laws (e_db E) view" "db_reliable (e_db E)" and T: "holds (view (Db app)) T" "tables_ok T"
    and ok: "AnchorCalendar E s app = (s', app', effs, Inr k)"
    and sent: "snd (send_tx E (app_config app) ''CAL'' (CalRoot (GenerateCalendarTree (e_merkle E) (Aggregations s))) (app_ID app)) = Inr result"
    and asc: "ascii (CoreURI (app_config app))" "\<forall>a \<in> set (Aggregations s). ascii (AggID a) \<and> list_all AggState_ok (AggStates a)"
  shows "holds (view (Db app')) (T\<lparr>t_rows := t_rows T @ concat (map AggStates (Aggregations s)),
      t_cals := t_cals T @ round_message E (app_config app) (Aggregations s) result\<rparr>)"
    and "tables_ok (T\<lparr>t_rows := t_rows T @ concat (map AggStates (Aggregations s)),
      t_cals := t_cals T @ round_message E (app_config app) (Aggregations s) result\<rparr>)"
    and "app_config app' = app_config app"
proof -
  let ?msg = "round_message E (app_config app) (Aggregations s) result"
  let ?d0 = "foldl (\<lambda>d agg. fst (BulkInsertAggState (e_db E) (e_now E) (AggStates agg) d)) (Db app) (Aggregations s)"
  have msg: "list_all CalStateObject_ok ?msg" using asc unfolding round_message_def by (intro calendar_entries(1)) auto
  have rows: "list_all AggState_ok (concat (map AggStates (Aggregations s)))" using asc(2) by (auto simp: list_all_iff)
  have d0: "holds (view ?d0) (T\<lparr>t_rows := t_rows T @ concat (map AggStates (Aggregations s))\<rparr>)"
    using asc(2) by (intro round_rows [OF db T]) blast
  have "tables_ok (T\<lparr>t_rows := t_rows T @ concat (map AggStates (Aggregations s))\<rparr>)" using T(2) rows by (simp add: tables_ok_def)
  from insert_cals [OF db d0 this msg] obtain d1 where d1: "BulkInsertCalState (e_db E) (e_now E) ?msg ?d0 = (d1, None)"
    "holds (view d1) (T\<lparr>t_rows := t_rows T @ concat (map AggStates (Aggregations s)), t_cals := t_cals T @ ?msg\<rparr>)" by auto
  show "holds (view (Db app')) (T\<lparr>t_rows := t_rows T @ concat (map AggStates (Aggregations s)), t_cals := t_cals T @ ?msg\<rparr>)"
    "app_config app' = app_config app"
    using AnchorCalendar_succeeds [OF ok] sent d1 by (auto simp: tables_kept [OF db(1)] GenerateCalBatch_def )
  show "tables_ok (T\<lparr>t_rows := t_rows T @ concat (map AggStates (Aggregations s)), t_cals := t_cals T @ ?msg\<rparr>)"
    using T(2) rows msg by (simp add: tables_ok_def)
qed

subsection \<open>The monitored transaction\<close>

lemma tx_state_ok:
  assumes "BtcTxMsg_ok m" "GenerateAnchorBtcTxState m = Inr txState"
  shows "AnchorBtcTxState_ok txState"
proof -
  let ?i = "go_index (btm_BtcTxBody m) (btm_AnchorBtcAggRoot m)"
  define l where "l = take (nat ?i) (btm_BtcTxBody m)"
  define r where "r = drop (nat (?i + int (length (btm_AnchorBtcAggRoot m)))) (btm_BtcTxBody m)"
  have s: "abt_BtcTxState txState = OpsState_marshal \<lparr>os_Ops = [left_item l, right_item r, op_item ''sha-256-x2'']\<rparr>"
    using assms(2) by (auto simp: GenerateAnchorBtcTxState_def slice_to_def slice_from_def slice_def Let_def l_def r_def split: if_splits)
  have "set l \<subseteq> set (btm_BtcTxBody m)" "set r \<subseteq> set (btm_BtcTxBody m)"
    unfolding l_def r_def by (rule set_take_subset set_drop_subset)+
  then have "ascii l" "ascii r" using assms(1) by (auto simp: BtcTxMsg_ok_def ascii_def list_all_iff)
  then have "OpsState_ok \<lparr>os_Ops = [left_item l, right_item r, op_item ''sha-256-x2'']\<rparr>"
    by (simp add: OpsState_ok_def ProofLineItem_ok_def left_item_def right_item_def op_item_def)
  then show ?thesis using assms(1) tx_state_ids [OF assms(2)] s
    by (simp add: AnchorBtcTxState_ok_def BtcTxMsg_ok_def OpsState_codec.marshal_ascii)
qed

lemma anchor_entries:
  assumes "AggregateAnchorTx M uuid txs = Inr agg" "ascii (ba_AnchorBtcAggID agg)" "txs \<noteq> []"
  shows "list_all AnchorBtcAggState_ok (PrepareBtcaStateData agg)"
    and "map aba_CalId (PrepareBtcaStateData agg) = map (\<lambda>c. hex_encode (rtx_Hash (snd c))) (List.map_filter cal_leaf txs)"
proof -
  let ?cals = "List.map_filter cal_leaf txs"
  define st where "st i = OpsState_marshal \<lparr>os_Ops = hex_steps (mt_proof M (map fst ?cals) i)\<rparr>" for i
  have "ascii (st i)" for i unfolding st_def by (rule OpsState_codec.marshal_ascii) (simp add: OpsState_ok_def)
  moreover have p: "PrepareBtcaStateData agg = map (\<lambda>i. \<lparr>aba_CalId = hex_encode (rtx_Hash (snd (?cals ! i))),
      aba_AnchorBtcAggId = ba_AnchorBtcAggID agg, aba_AnchorBtcAggState = st i\<rparr>) [0..<length ?cals]"
    using assms(1,3) unfolding st_def
    by (cases "slice (mt_root M (map fst ?cals)) 0 16") (auto simp: AggregateAnchorTx_def PrepareBtcaStateData_def Let_def bind_err_def)
  ultimately show "list_all AnchorBtcAggState_ok (PrepareBtcaStateData agg)"
    using assms(2) by (simp add: AnchorBtcAggState_ok_def list_all_iff)
  show "map aba_CalId (PrepareBtcaStateData agg) = map (\<lambda>c. hex_encode (rtx_Hash (snd c))) ?cals"
    by (intro nth_equalityI) (simp_all add: p)
qed

text \<open>A transaction that is monitored without an error is in the tables, with the anchors of its range.\<close>

lemma monitor_tables:
  assumes db: "db_laws (e_db E) view" "db_reliable (e_db E)" and T: "holds (view d) T" "tables_ok T" and m: "BtcTxMsg_ok m"
    and run: "BeginTxMonitor E (BtcTxMsg_marshal m) st d = (st', d', None)"
    and tree: "GetCalTxRange (e_rpc E) (btm_BeginCalTxInt m) (btm_EndCalTxInt m) = Inr txs" "txs \<noteq> []"
      "AggregateAnchorTx (e_merkle E) (e_uuid E) txs = Inr agg" "ascii (ba_AnchorBtcAggID agg)"
  shows "\<exists>txState. GenerateAnchorBtcTxState m = Inr txState \<and> btm_AnchorBtcAggRoot m = ba_AggRoot agg \<and>
    holds (view d') (T\<lparr>t_txs := (t_txs T)(btm_BtcTxID m \<mapsto> txState), t_anchors := t_anchors T @ PrepareBtcaStateData agg\<rparr>) \<and>
    tables_ok (T\<lparr>t_txs := (t_txs T)(btm_BtcTxID m \<mapsto> txState), t_anchors := t_anchors T @ PrepareBtcaStateData agg\<rparr>)"
proof -
  obtain txState where tx: "GenerateAnchorBtcTxState m = Inr txState"
    using run m by (auto simp: BeginTxMonitor_def codec_simps Let_def split: sum.splits)
  obtain d1 where d1: "BulkInsertBtcTxState (e_db E) (e_now E) [txState] d = (d1, None)"
    "holds (view d1) (T\<lparr>t_txs := (t_txs T)(btm_BtcTxID m \<mapsto> txState)\<rparr>)"
    using insert_tx [OF db T(1), of "e_now E" txState] tx_state_ids(1) [OF tx] by auto
  obtain d2 where d2: "kv_Append (e_db E) d1 CONFIRMED_BTC_TX_IDS_KEY (TxID_marshal
      \<lparr>tid_TxID = btm_BtcTxID m, tid_BlockHeight = 0, tid_AnchorBtcAggRoot = btm_AnchorBtcAggRoot m\<rparr>) = (d2, None)"
    using run m tx d1(1) by (auto simp: BeginTxMonitor_def codec_simps Let_def split: prod.splits option.splits)
  define d3 where "d3 = fst (FindAndRemoveBtcCheck (e_db E) (btm_AnchorBtcAggRoot m) d2)"
  have "holds (view d3) (T\<lparr>t_txs := (t_txs T)(btm_BtcTxID m \<mapsto> txState)\<rparr>)"
    using d1(2) tables_kept(4) [OF db(1), of d1 "TxID_marshal
      \<lparr>tid_TxID = btm_BtcTxID m, tid_BlockHeight = 0, tid_AnchorBtcAggRoot = btm_AnchorBtcAggRoot m\<rparr>"]
    by (simp add: d3_def tables_kept(3) [OF db(1)] d2)
  moreover have ok: "tables_ok (T\<lparr>t_txs := (t_txs T)(btm_BtcTxID m \<mapsto> txState)\<rparr>)"
    using T(2) tx_state_ok [OF m tx] by (auto simp: tables_ok_def ran_def)
  ultimately obtain d4 where d4: "BulkInsertBtcAggState (e_db E) (e_now E) (PrepareBtcaStateData agg) d3 = (d4, None)"
    "holds (view d4) (T\<lparr>t_txs := (t_txs T)(btm_BtcTxID m \<mapsto> txState), t_anchors := t_anchors T @ PrepareBtcaStateData agg\<rparr>)"
    using insert_anchors [OF db _ _ anchor_entries(1) [OF tree(3,4,2)], of d3 "T\<lparr>t_txs := (t_txs T)(btm_BtcTxID m \<mapsto> txState)\<rparr>"]
    by auto
  have "GetTreeFromCalRange E (btm_BeginCalTxInt m) (btm_EndCalTxInt m) = Inr agg"
    using tree(1,3) by (simp add: GetTreeFromCalRange_def)
  then have "btm_AnchorBtcAggRoot m = ba_AggRoot agg" "d' = d4"
    using run m tx d1(1) d2 d4(1) by (auto simp: BeginTxMonitor_def codec_simps Let_def d3_def split: if_splits)
  with tx d4(2) ok anchor_entries(1) [OF tree(3,4,2)] show ?thesis by (auto simp: tables_ok_def)
qed

lemma monitor_keeps_proofs:
  assumes "db_laws (e_db E) view" "BeginTxMonitor E b st d = (st', d', r)"
  shows "view d' (''proof:'' @ i) = view d (''proof:'' @ i)"
proof -
  have "keeps view ''proof:'' (\<lambda>d. fst (FindAndRemoveBtcCheck (e_db E) rt d))" for rt
    by (rule keeps_remove_checks [OF assms(1)]) (simp add: CHECK_BTC_TX_IDS_KEY_def has_prefix_def)
  moreover have "keeps view ''proof:'' (\<lambda>d. fst (kv_Append (e_db E) d CONFIRMED_BTC_TX_IDS_KEY v))" for v
    by (rule keeps_Append [OF assms(1)]) (simp add: CONFIRMED_BTC_TX_IDS_KEY_def has_prefix_def)
  ultimately show ?thesis using assms(2) state_inserts_keep_proofs [OF assms(1), of "e_now E"]
    by (auto simp: BeginTxMonitor_def keeps_def Let_def prod_eq_iff simp del: append_Cons split: option.splits sum.splits prod.splits if_splits)
qed

text \<open>A reliable database and a chain that answers let the monitoring of a good message succeed.\<close>

lemma monitor_succeeds:
  assumes db: "db_laws (e_db E) view" "db_reliable (e_db E)" and T: "holds (view d) T" "tables_ok T" and m: "BtcTxMsg_ok m"
    and tx: "GenerateAnchorBtcTxState m = Inr txState" and confirmed: "arr_of (view d) CONFIRMED_BTC_TX_IDS_KEY = Some xs"
    and tree: "GetCalTxRange (e_rpc E) (btm_BeginCalTxInt m) (btm_EndCalTxInt m) = Inr txs" "txs \<noteq> []"
      "AggregateAnchorTx (e_merkle E) (e_uuid E) txs = Inr agg" "ascii (ba_AnchorBtcAggID agg)" "ba_AggRoot agg = btm_AnchorBtcAggRoot m"
  shows "\<exists>st' d'. BeginTxMonitor E (BtcTxMsg_marshal m) st d = (st', d', None)"
proof -
  obtain d1 where d1: "BulkInsertBtcTxState (e_db E) (e_now E) [txState] d = (d1, None)"
    "holds (view d1) (T\<lparr>t_txs := (t_txs T)(abt_BtcTxId txState \<mapsto> txState)\<rparr>)"
    using insert_tx [OF db T(1), of "e_now E" txState] by blast
  have "view d1 CONFIRMED_BTC_TX_IDS_KEY = view d CONFIRMED_BTC_TX_IDS_KEY"
    using btctx_insert [OF db, of "e_now E" txState d] d1(1) by (auto simp: CONFIRMED_BTC_TX_IDS_KEY_def)
  then have "arr_of (view d1) CONFIRMED_BTC_TX_IDS_KEY = Some xs" using confirmed by (simp add: arr_of_def)
  then have c: "snd (kv_Append (e_db E) d1 CONFIRMED_BTC_TX_IDS_KEY v) = None" for v by (rule kv_Append_reliable [OF db])
  define d3 where "d3 = fst (FindAndRemoveBtcCheck (e_db E) (btm_AnchorBtcAggRoot m) (fst (kv_Append (e_db E) d1 CONFIRMED_BTC_TX_IDS_KEY
    (TxID_marshal \<lparr>tid_TxID = btm_BtcTxID m, tid_BlockHeight = 0, tid_AnchorBtcAggRoot = btm_AnchorBtcAggRoot m\<rparr>))))"
  have "holds (view d3) (T\<lparr>t_txs := (t_txs T)(abt_BtcTxId txState \<mapsto> txState)\<rparr>)"
    using d1(2) by (simp add: d3_def tables_kept [OF db(1)])
  moreover have "tables_ok (T\<lparr>t_txs := (t_txs T)(abt_BtcTxId txState \<mapsto> txState)\<rparr>)"
    using T(2) tx_state_ok [OF m tx] by (auto simp: tables_ok_def ran_def)
  ultimately obtain d4 where "BulkInsertBtcAggState (e_db E) (e_now E) (PrepareBtcaStateData agg) d3 = (d4, None)"
    using insert_anchors [OF db _ _ anchor_entries(1) [OF tree(3,4,2)]] by blast
  moreover have "GetTreeFromCalRange E (btm_BeginCalTxInt m) (btm_EndCalTxInt m) = Inr agg"
    using tree(1,3) by (simp add: GetTreeFromCalRange_def)
  ultimately show ?thesis
    using m tx d1(1) tree(5) c by (auto simp: BeginTxMonitor_def codec_simps Let_def d3_def prod_eq_iff split: prod.splits option.splits)
qed

subsection \<open>From the hash to the Bitcoin block\<close>

text \<open>The world at a later time: another state of the chain and of Bitcoin.\<close>

abbreviation later :: "'d Env \<Rightarrow> Rpc \<Rightarrow> Ln \<Rightarrow> int \<Rightarrow> 'd Env" where
  "later E R L t \<equiv> E\<lparr>e_rpc := R, e_ln := L, e_now := t\<rparr>"

text \<open>The links of a row after the three stages: the newest calendar entry of its aggregation and the
  newest anchor of its calendar transaction are those of the round and of the transaction.\<close>

lemma stage_links:
  assumes "distinct (map AggID aggs)" "j < length aggs" "ascii uri" "\<forall>a \<in> set aggs. ascii (AggID a)"
  shows "lookup_by cso_AggID (cs @ CreateCalStateMessage uri tx (GenerateCalendarTree M aggs)) (AggID (aggs ! j)) =
    Some (CreateCalStateMessage uri tx (GenerateCalendarTree M aggs) ! j)"
proof -
  let ?msg = "CreateCalStateMessage uri tx (GenerateCalendarTree M aggs)"
  note keys = calendar_entries(2) [OF assms(3,4), of tx M]
  then have "length ?msg = length aggs" by (metis length_map)
  moreover from this keys have "cso_AggID (?msg ! j) = AggID (aggs ! j)" using assms(2) by (metis nth_map)
  ultimately show ?thesis using lookup_by_nth [of cso_AggID ?msg j] assms(1,2) keys by (simp add: lookup_by_append)
qed

lemma anchor_links:
  assumes "AggregateAnchorTx M uuid txs = Inr agg" "ascii (ba_AnchorBtcAggID agg)" "n < length (List.map_filter cal_leaf txs)"
    "distinct (map (\<lambda>c. rtx_Hash (snd c)) (List.map_filter cal_leaf txs))"
  shows "lookup_by aba_CalId (as @ PrepareBtcaStateData agg) (hex_encode (rtx_Hash (snd (List.map_filter cal_leaf txs ! n)))) =
    Some (PrepareBtcaStateData agg ! n)"
proof -
  let ?cals = "List.map_filter cal_leaf txs" and ?as = "PrepareBtcaStateData agg"
  have "txs \<noteq> []" using assms(3) by auto
  note keys = anchor_entries(2) [OF assms(1,2) this]
  then have "length ?as = length ?cals" by (metis length_map)
  moreover from this keys have "aba_CalId (?as ! n) = hex_encode (rtx_Hash (snd (?cals ! n)))" using assms(3) by (metis (no_types, lifting) nth_map)
  moreover have "distinct (map aba_CalId ?as)"
    using assms(4) unfolding keys by (simp add: distinct_map inj_on_def hex.enc_eq_iff)
  ultimately show ?thesis using lookup_by_nth [of aba_CalId ?as n] assms(3) by (simp add: lookup_by_append)
qed

text \<open>C2. A submitted hash is anchored. A node whose database holds any tables runs, one after the other, a
  calendar round that collects the hash, the monitoring of a Bitcoin transaction over a range that
  has the CAL transaction of the round, and, once the transaction is in a block, its confirmation;
  all three succeed. Then a request for the proof id of the hash is answered with 200 and one entry,
  a document of this hash whose branches lead from the hash to the Merkle root of that block.
  (The ids of aggregations and proofs are new, the calendar transactions of the range have different
  hashes, no proof bytes look like a beacon value or a finished proof, and all text is ASCII.)\<close>

theorem submitted_hash_is_anchored:
  assumes reach: "agg_reachable (e_crypto E) (e_merkle E) ids q batch s"
    and mk: "merkle_ok (sha256 (e_crypto E)) (e_merkle E)"
      "merkle_ok (\<lambda>b. sha256 (e_crypto E) (sha256 (e_crypto E) b)) (e_btc_tree E)"
    and db: "db_laws (e_db E) view" "db_reliable (e_db E)"
    and T: "holds (view (Db app)) T" "tables_ok T" "\<forall>g \<in> set (t_rows T). as_ProofID g \<noteq> hi_ProofID (items ! i)"
    and a: "j < length (Aggregations s)" "Aggregations s ! j = ProcessAggregation (e_crypto E) (e_merkle E) (Some u) items drand"
      "i < length items"
    and nd: "\<forall>p \<in> set (mt_proof (e_merkle E) (map (leaf_of (e_crypto E) drand) items) i). \<not> contains (snd p) ''drand''"
    and asc: "ascii drand" "ascii (CoreURI (app_config app))" "\<forall>t. ascii (rfc3339 (e_ids E) t)" "ascii (hi_ProofID (items ! i))"
      "\<forall>a \<in> set (Aggregations s). ascii (AggID a) \<and> list_all AggState_ok (AggStates a)"
    and dist: "distinct (map AggID (Aggregations s))" "distinct (map as_ProofID (concat (map AggStates (Aggregations s))))"
    and h: "hex_decode_ok (hi_Hash (items ! i)) = Some h" "drand = [] \<longrightarrow> length h = 32"
    and calendar: "AnchorCalendar E s app = (s', app', effs, Inr k)"
      "snd (send_tx E (app_config app) ''CAL'' (CalRoot (GenerateCalendarTree (e_merkle E) (Aggregations s))) (app_ID app)) = Inr result"
    and fresh: "\<forall>b. view (Db app') (''proof:'' @ hi_ProofID (items ! i)) = Some b \<longrightarrow> \<not> contains b ''btc_anchor_branch''"
    and chain: "GetCalTxRange R (btm_BeginCalTxInt m) (btm_EndCalTxInt m) = Inr txs" "n < length (List.map_filter cal_leaf txs)"
      "List.map_filter cal_leaf txs ! n = (v, calTx)" "rtx_Hash calTx = br_Hash result"
      "hex_encode v = CalRoot (GenerateCalendarTree (e_merkle E) (Aggregations s))"
      "distinct (map (\<lambda>c. rtx_Hash (snd c)) (List.map_filter cal_leaf txs))"
      "AggregateAnchorTx (e_merkle E) (e_uuid E) txs = Inr btcAgg"
    and monitor: "BtcTxMsg_ok m" "btm_AnchorBtcAggID m = ba_AnchorBtcAggID btcAgg" "btm_BtcTxBody m = hex_encode body"
      "go_index (btm_BtcTxBody m) (btm_AnchorBtcAggRoot m) = int (2 * z)"
      "BeginTxMonitor (later E R L t) (BtcTxMsg_marshal m) (app_state app') (Db app') = (st, d, None)"
    and block: "btm_BtcTxID m = hex_encode (rev (sha256 (e_crypto E) (sha256 (e_crypto E) body)))" "btm_BtcTxID m \<noteq> []"
      "tid_TxID btctx = btm_BtcTxID m" "GenerateBtcHeaderProof (later E R' L' t') btctx = Inr mon"
    and confirm: "ConfirmAnchor (later E R' L' t') (app_config app') rounds mon d = (d', effs')"
    and r: "ProofIdsHeader r = hi_ProofID (items ! i)" "is_proof_id (hi_ProofID (items ! i))"
      "CHR '','' \<notin> set (hi_ProofID (items ! i))" "CHR '' '' \<notin> set (hi_ProofID (items ! i))"
  shows "\<exists>doc b. get_block L' (tid_BlockHeight btctx) = Inr b \<and>
    ProofHandler (e_db E) r (app'\<lparr>Db := d'\<rparr>) = respondJSON 200 (JArr [proof_entry (hi_ProofID (items ! i)) (JObj doc)]) \<and>
    map_of doc ''hash'' = Some (JStr (hi_Hash (items ! i))) \<and>
    run_json_ops (e_crypto E) (branch_ops (first_branch (first_branch doc)))
      (run_json_ops (e_crypto E) (branch_ops (first_branch doc)) h) = MerkleRoot b"
proof -
  let ?aggs = "Aggregations s" and ?cals = "List.map_filter cal_leaf txs"
  let ?row = "AggStates (?aggs ! j) ! i" and ?calTx = "\<lparr>tm_Hash = br_Hash result, tm_Data = br_Data result\<rparr>"
  let ?T1 = "T\<lparr>t_rows := t_rows T @ concat (map AggStates ?aggs), t_cals := t_cals T @ round_message E (app_config app) ?aggs result\<rparr>"
  note T1 = calendar_round_tables [OF db T(1,2) calendar asc(2,5)]
  have agg: "txs \<noteq> []" "ascii (ba_AnchorBtcAggID btcAgg)"
    using chain(2) monitor(1,2) by (auto simp: BtcTxMsg_ok_def)
  obtain txState where tx: "GenerateAnchorBtcTxState m = Inr txState" "btm_AnchorBtcAggRoot m = ba_AggRoot btcAgg"
    and T2: "holds (view d) (?T1\<lparr>t_txs := (t_txs ?T1)(btm_BtcTxID m \<mapsto> txState), t_anchors := t_anchors ?T1 @ PrepareBtcaStateData btcAgg\<rparr>)"
    "tables_ok (?T1\<lparr>t_txs := (t_txs ?T1)(btm_BtcTxID m \<mapsto> txState), t_anchors := t_anchors ?T1 @ PrepareBtcaStateData btcAgg\<rparr>)"
    using monitor_tables [of "later E R L t" view, OF _ _ T1(1,2) monitor(1,5)] db chain(1,7) agg by auto
  define T2 where "T2 = ?T1\<lparr>t_txs := (t_txs ?T1)(btm_BtcTxID m \<mapsto> txState), t_anchors := t_anchors ?T1 @ PrepareBtcaStateData btcAgg\<rparr>"
  have tables: "holds (view d) T2" "tables_ok T2" "t_txs T2 (tid_TxID btctx) = Some txState"
    using T2 unfolding T2_def block(3) by simp_all
  note fields = batch_row [OF a]
  have mem: "?row \<in> set (concat (map AggStates ?aggs))" using fields(4) a(1) by (auto intro!: bexI [of _ "?aggs ! j"])
  then have "\<forall>g \<in> set (concat (map AggStates ?aggs)). as_ProofID g = as_ProofID ?row \<longrightarrow> g = ?row"
    using dist(2) unfolding distinct_map by (blast dest: inj_onD)
  then have row: "?row \<in> set (t_rows T2)" "\<forall>g \<in> set (t_rows T2). as_ProofID g = hi_ProofID (items ! i) \<longrightarrow> g = ?row"
    using fields(1) T(3) mem by (auto simp: T2_def)
  have links: "lookup_by cso_AggID (t_cals T2) (AggID (?aggs ! j)) =
      Some (CreateCalStateMessage (CoreURI (app_config app')) ?calTx (GenerateCalendarTree (e_merkle E) ?aggs) ! j)"
    "lookup_by aba_CalId (t_anchors T2) (hex_encode (tm_Hash ?calTx)) = Some (PrepareBtcaStateData btcAgg ! n)"
    using stage_links [OF dist(1) a(1) asc(2), of "t_cals T" ?calTx "e_merkle E"] asc(5)
      anchor_links [OF chain(7) agg(2) chain(2,6), of "t_anchors T"] chain(3,4) T1(3)
    by (simp_all add: T2_def round_message_def)
  have roots: "\<forall>a \<in> set ?aggs. \<exists>r. AggRoot a = hex_encode r"
    using agg_processed.reachable_inv [OF reach] ProcessAggregation_fields unfolding processed_def by blast
  have "\<exists>doc b. get_block (e_ln (later E R' L' t')) (tid_BlockHeight btctx) = Inr b \<and>
      ProofHandler (e_db (later E R' L' t')) r (app'\<lparr>Db := d, Db := d'\<rparr>) =
        respondJSON 200 (JArr [proof_entry (hi_ProofID (items ! i)) (JObj doc)]) \<and>
      map_of doc ''hash'' = Some (JStr (hi_Hash (items ! i))) \<and>
      run_json_ops (e_crypto (later E R' L' t')) (branch_ops (first_branch (first_branch doc)))
        (run_json_ops (e_crypto (later E R' L' t')) (branch_ops (first_branch doc)) h) = MerkleRoot b"
    by (rule confirmed_anchor_served [where view = view and T = T2 and aggs = ?aggs and j = j and i = i and u = u and items = items and drand = drand
        and txState = txState and calTx = ?calTx and btcAgg = btcAgg and n = n and uuid = "e_uuid E" and txs = txs and m = m
        and body = body and k = z and t = btctx and mon = mon and rounds = rounds and effs = effs'])
      (use mk db tables a roots row links nd asc h chain tx monitor block confirm r T1(3) monitor_keeps_proofs [OF _ monitor(5), of view] fresh in
        simp_all)
  then show ?thesis by simp
qed

subsection \<open>A run of the three stages\<close>

text \<open>A calendar proof is not mistaken for a finished one. (The letters of a text that an escape does not
  produce tell enough: \<open>mark\<close> picks three of them.)\<close>

definition mark :: "string \<Rightarrow> string" where
  "mark s = filter (\<lambda>c. c = CHR ''_'' \<or> c = CHR ''c'' \<or> c = CHR ''l'') s"

definition plain :: "string \<Rightarrow> bool" where
  "plain s \<longleftrightarrow> list_all (\<lambda>c. 32 \<le> code_of c \<and> code_of c < 127 \<and> c \<noteq> CHR ''<'' \<and> c \<noteq> CHR ''>'' \<and> c \<noteq> CHR ''&'') s"

lemma mark_simps [simp]: "mark [] = []" "mark (xs @ ys) = mark xs @ mark ys"
  "mark (c # s) = (if c = CHR ''_'' \<or> c = CHR ''c'' \<or> c = CHR ''l'' then c # mark s else mark s)"
  by (simp_all add: mark_def)

lemma plain_simps [simp]: "plain []" "plain (xs @ ys) \<longleftrightarrow> plain xs \<and> plain ys"
  "plain (c # s) \<longleftrightarrow> 32 \<le> code_of c \<and> code_of c < 127 \<and> c \<noteq> CHR ''<'' \<and> c \<noteq> CHR ''>'' \<and> c \<noteq> CHR ''&'' \<and> plain s"
  by (simp_all add: plain_def)

lemma escape_plain: "plain s \<Longrightarrow> mark (json_escape s) = mark s \<and> plain (json_escape s)"
  by (induction s) (auto simp: json_escape_ascii escape_ascii_def json_escape.simps(1))

lemma quote_plain [simp]: "plain s \<Longrightarrow> mark (json_quote s) = mark s" "plain s \<Longrightarrow> plain (json_quote s)"
  using escape_plain [of s] by (simp_all add: json_quote_def)

lemma contains_mark: "contains s sub \<Longrightarrow> contains (mark s) (mark sub)"
  unfolding contains_iff by (metis mark_simps(2))

definition toy_cal_doc :: "string \<Rightarrow> doc" where
  "toy_cal_doc t = [(''@context'', JStr ''https://w3id.org/chainpoint/v5''),
     (''branches'', JArr [JObj [(''label'', JStr ''cal_anchor_branch''),
       (''ops'', JArr [JObj [(''anchors'', JArr [JObj [(''anchor_id'', JStr []), (''type'', JStr t),
         (''uris'', JArr [JStr ''u/calendar//data''])]])]])]]),
     (''hash'', JStr (hex_encode (toy_hash (CHR ''1'')))), (''hash_received'', JStr []), (''proof_id'', JStr toy_id),
     (''type'', JStr ''Chainpoint'')]"

lemma toy_plain: "plain toy_id \<and> plain (hex_encode (toy_hash (CHR ''1''))) \<and>
  mark toy_id = [] \<and> mark (hex_encode (toy_hash (CHR ''1''))) = []"
  unfolding toy_id_def toy_hash_def by code_simp

lemma toy_cal_doc_not_finished:
  assumes "t = ''cal'' \<or> t = ''tcal''"
  shows "\<not> contains (ProofState_marshal \<lparr>ps_ProofID = toy_id, ps_Proof = json_print (JObj (toy_cal_doc t))\<rparr>) ''btc_anchor_branch''"
proof
  have t: "plain t" "mark t = ''cl''" using assms by auto
  define b where "b = json_print (JObj (toy_cal_doc t))"
  have p: "plain b"
    using t(1) toy_plain by (simp add: b_def toy_cal_doc_def json_print_list.simps json_print_members.simps del: hex_encode.simps)
  have m: "mark b = ''cccllcl_c_ccc_clcl_c_''"
    using t toy_plain by (simp add: b_def toy_cal_doc_def json_print_list.simps json_print_members.simps del: hex_encode.simps)
  assume "contains (ProofState_marshal \<lparr>ps_ProofID = toy_id, ps_Proof = json_print (JObj (toy_cal_doc t))\<rparr>) ''btc_anchor_branch''"
  from contains_mark [OF this [folded b_def]] show False
    using p toy_plain by (simp add: ProofState_marshal_def ProofState_json_def json_print_members.simps m contains_def)
qed

lemma toy_header: "chainpoint_header (e_ids toy_world) \<lparr>as_ProofID = toy_id, as_Hash = hh, as_AggID = u, as_AggState = st, as_AggRoot = rr\<rparr> =
  [(''@context'', JStr ''https://w3id.org/chainpoint/v5''), (''hash'', JStr hh), (''hash_received'', JStr []),
   (''proof_id'', JStr toy_id), (''type'', JStr ''Chainpoint'')]"
  by (simp add: chainpoint_header_def AddChainpointHeader_def toy_world_def Proof_def Let_def)

definition toy_result :: BcastResult where
  "toy_result = \<lparr>br_Code = 0, br_Data = [], br_Hash = []\<rparr>"

lemma toy_cal_proof:
  "cal_proof toy_world (app_config toy_node) (cal_lookup (round_message toy_world (app_config toy_node) [toy_round_batch toy_id] toy_result))
     (AggStates (toy_round_batch toy_id) ! 0) =
   \<lparr>ps_ProofID = toy_id, ps_Proof = json_print (JObj (toy_cal_doc (SetProofType (BitcoinNetwork (app_config toy_node)) ''cal'')))\<rparr>"
proof -
  have no_proof: "mt_proof (ref_merkle (\<lambda>b. b)) [x] 0 = []" for x by (simp add: ref_merkle_def ref_proof.simps)
  have leaf: "leaf_of toy_crypto [] \<lparr>hi_ProofID = toy_id, hi_Hash = hex_encode (toy_hash (CHR ''1''))\<rparr> = toy_hash (CHR ''1'')"
    using toy_hash_length by (simp add: leaf_of_def codec_simps)
  have row: "AggStates (toy_round_batch toy_id) ! 0 = \<lparr>as_ProofID = toy_id, as_Hash = hex_encode (toy_hash (CHR ''1'')), as_AggID = ''u'',
      as_AggState = OpsState_marshal \<lparr>os_Ops = []\<rparr>, as_AggRoot = hex_encode (toy_hash (CHR ''1''))\<rparr>"
    by (simp add: toy_round_batch_def ProcessAggregation_def agg_state_of_def leaf no_proof toy_root proof_ops_def Let_def del: hex_encode.simps)
  have "agg_leaves [toy_round_batch toy_id] = [toy_hash (CHR ''1'')]" by (simp add: agg_leaves_def toy_batch_fields codec_simps)
  then have msg: "round_message toy_world (app_config toy_node) [toy_round_batch toy_id] toy_result =
    [\<lparr>cso_AggID = ''u'', cso_CalId = [], cso_CalState = AnchorOpsState_marshal
       \<lparr>aos_Ops = [], Anchor = \<lparr>AnchorID = [], Uris = [''u/calendar//data'']\<rparr>\<rparr>\<rparr>]"
    by (simp add: round_message_def CreateCalStateMessage_def GenerateCalendarTree_def toy_result_def toy_node_fields toy_batch_fields
        no_proof hex_steps_def data_uri_def Let_def)
  have "unmarshal_ok jd_OpsState OpsState_zero (OpsState_marshal \<lparr>os_Ops = []\<rparr>) = Some \<lparr>os_Ops = []\<rparr>"
    "unmarshal_ok jd_AnchorOpsState AnchorOpsState_zero (AnchorOpsState_marshal
       \<lparr>aos_Ops = [], Anchor = \<lparr>AnchorID = [], Uris = [''u/calendar//data'']\<rparr>\<rparr>) =
       Some \<lparr>aos_Ops = [], Anchor = \<lparr>AnchorID = [], Uris = [''u/calendar//data'']\<rparr>\<rparr>"
    by (simp_all add: OpsState_codec.unmarshal_ok_marshal AnchorOpsState_codec.unmarshal_ok_marshal OpsState_ok_def AnchorOpsState_ok_def AnchorObj_ok_def)
  then show ?thesis
    by (simp add: cal_proof_def cal_lookup_def row msg toy_header AddCalendarBranch_def ConvertGoOpsToJsonMap_def anchors_entry_def
        toy_cal_doc_def keep_on_error_def or_zero_def Let_def del: hex_encode.simps)
qed

definition toy_sent :: ResultTx where
  "toy_sent = toy_cal_tx\<lparr>rtx_Hash := [], rtx_Events := [(''CAL'', [(''TxInt'', format_int 1)])]\<rparr>"

definition toy_btca_msg :: "BtcAgg \<Rightarrow> BtcTxMsg" where
  "toy_btca_msg agg = (toy_confirm_msg agg)\<lparr>btm_BeginCalTxInt := 1, btm_EndCalTxInt := 2\<rparr>"

lemma toy_sent_found: "GetCalTxRange (toy_rpc [toy_sent]) 1 2 = Inr [toy_sent]"
  by (simp add: GetCalTxRange_def cal_range_loop.simps toy_rpc_def toy_sent_def event_matches_def cal_query_def Let_def)

lemma toy_sent_leaf: "cal_leaf toy_sent = Some (toy_hash (CHR ''1''), toy_sent)"
  using toy_leaf by (auto simp: cal_leaf_def toy_sent_def split: prod.splits if_splits)

lemma toy_round_fresh:
  assumes "AnchorCalendar toy_world (toy_round toy_id) toy_node = (s', app', effs, Inr k)"
  shows "\<forall>b. map_of (Db app') (''proof:'' @ toy_id) = Some b \<longrightarrow> \<not> contains b ''btc_anchor_branch''"
proof -
  have "send_tx toy_world c ''CAL'' x i = (fst (send_tx toy_world c ''CAL'' x i), Inr toy_result)" for c x i
    by (simp add: send_tx_def BroadcastTx_def toy_world_def toy_rpc_def toy_result_def Let_def)
  then have sent: "snd (send_tx toy_world c ''CAL'' x i) = Inr toy_result" for c x i by (metis snd_conv)
  have db: "db_laws (e_db toy_world) map_of" "db_reliable (e_db toy_world)" using mem_db_laws mem_db_reliable by simp_all
  have "distinct (map as_ProofID (concat (map AggStates (Aggregations (toy_round toy_id)))))"
    "\<forall>i b. map_of (Db toy_node) (''proof:'' @ i) = Some b \<longrightarrow> \<not> contains b ''btc_anchor_branch''"
    by (simp_all add: toy_round_facts toy_node_fields)
  from calendar_round_stores [OF db assms this]
  have stored: "\<forall>p \<in> set (round_proofs toy_world (app_config toy_node) [toy_round_batch toy_id] toy_result).
      map_of (Db app') (''proof:'' @ ps_ProofID p) = Some (ProofState_marshal p)"
    by (auto simp: sent toy_round_facts)
  define p where "p = \<lparr>ps_ProofID = toy_id, ps_Proof = json_print (JObj (toy_cal_doc (SetProofType (BitcoinNetwork (app_config toy_node)) ''cal'')))\<rparr>"
  have "cal_proof toy_world (app_config toy_node) (cal_lookup (round_message toy_world (app_config toy_node) [toy_round_batch toy_id] toy_result))
     (AggStates (toy_round_batch toy_id) ! 0) = p" unfolding p_def by (rule toy_cal_proof)
  then have "p \<in> set (round_proofs toy_world (app_config toy_node) [toy_round_batch toy_id] toy_result)"
    using toy_row(1) by (auto simp: round_proofs_def)
  with stored have "map_of (Db app') (''proof:'' @ toy_id) = Some (ProofState_marshal p)" by (auto simp: p_def simp del: append_Cons)
  moreover have "\<not> contains (ProofState_marshal p) ''btc_anchor_branch''"
    unfolding p_def by (rule toy_cal_doc_not_finished) (simp add: SetProofType_def)
  ultimately show ?thesis by simp
qed

lemma round_keeps_monitor:
  assumes "db_laws (e_db E) view" "AnchorCalendar E s app = (s', app', effs, Inr k)"
  shows "view (Db app') CONFIRMED_BTC_TX_IDS_KEY = view (Db app) CONFIRMED_BTC_TX_IDS_KEY"
proof -
  let ?k = CONFIRMED_BTC_TX_IDS_KEY and ?D = "e_db E" and ?now = "e_now E"
  have rows: "keeps view ?k (\<lambda>d. foldl (\<lambda>d agg. fst (BulkInsertAggState ?D ?now (AggStates agg) d)) d aggs)" for aggs
    unfolding BulkInsertAggState_def
    by (intro keeps_foldl keeps_bulk keeps_insert_pair keeps_Append keeps_Set assms(1); simp add: CONFIRMED_BTC_TX_IDS_KEY_def)
  have cals: "keeps view ?k (\<lambda>d. fst (BulkInsertCalState ?D ?now cs d))" for cs
    unfolding BulkInsertCalState_def
    by (intro keeps_bulk keeps_insert_pair keeps_Append keeps_Set assms(1); simp add: CONFIRMED_BTC_TX_IDS_KEY_def)
  have proofs: "keeps view ?k (\<lambda>d. fst (BulkInsertProofs ?D ?now ps d))" for ps
    by (rule keeps_proofs [OF assms(1)]) (simp_all add: CONFIRMED_BTC_TX_IDS_KEY_def)
  have "CHR ''_'' \<notin> set (hex_encode b)" "CHR ''_'' \<in> set ?k" for b
    by (auto dest!: hex_encode_chars simp: is_hex_char_def from_hex_char_def CONFIRMED_BTC_TX_IDS_KEY_def)
  then have hex: "hex_encode b \<noteq> ?k" for b by metis
  have k: "keeps view ?k f \<Longrightarrow> view (f d) ?k = view d ?k" for f d
    by (simp add: keeps_def has_prefix_def)
  show ?thesis
    using AnchorCalendar_succeeds [OF assms(2)]
    by (auto simp: GenerateCalBatch_def k [OF rows] k [OF cals] k [OF proofs] kv_Set_other [OF assms(1) hex [symmetric]])
qed

theorem submitted_hash_is_anchored_witness:
  "\<exists>s' app' effs btcAgg st d mon d' effs' doc.
    AnchorCalendar toy_world (toy_round toy_id) toy_node = (s', app', effs, Inr 1) \<and>
    AggregateAnchorTx (ref_merkle (\<lambda>b. b)) (\<lambda>b. b) [toy_sent] = Inr btcAgg \<and>
    BeginTxMonitor (later toy_world (toy_rpc [toy_sent]) toy_ln 0) (BtcTxMsg_marshal (toy_btca_msg btcAgg)) (app_state app') (Db app') = (st, d, None) \<and>
    ConfirmAnchor (later toy_world (toy_rpc []) toy_ln 0) (app_config app') [] mon d = (d', effs') \<and>
    ProofHandler mem_db toy_request (app'\<lparr>Db := d'\<rparr>) = respondJSON 200 (JArr [proof_entry toy_id (JObj doc)]) \<and>
    run_json_ops toy_crypto (branch_ops (first_branch (first_branch doc)))
      (run_json_ops toy_crypto (branch_ops (first_branch doc)) (toy_hash (CHR ''1''))) = CHR ''x'' # toy_body"
proof -
  define item where "item = \<lparr>hi_ProofID = toy_id, hi_Hash = hex_encode (toy_hash (CHR ''1''))\<rparr>"
  have item: "hi_ProofID item = toy_id" "hi_Hash item = hex_encode (toy_hash (CHR ''1''))" by (simp_all add: item_def)
  have batch: "toy_round_batch toy_id = ProcessAggregation toy_crypto (ref_merkle (\<lambda>b. b)) (Some ''u'') [item] []"
    by (simp add: toy_round_batch_def item_def)
  define t where "t = TxID_zero\<lparr>tid_TxID := hex_encode (rev toy_body)\<rparr>"
  obtain s' app' effs where ok: "AnchorCalendar toy_world (toy_round toy_id) toy_node = (s', app', effs, Inr 1)"
    using toy_round_succeeds by blast
  obtain agg where agg: "AggregateAnchorTx (ref_merkle (\<lambda>b. b)) (\<lambda>b. b) [toy_sent] = Inr agg"
    using toy_hash_length by (simp add: AggregateAnchorTx_def toy_sent_leaf toy_root slice_def Let_def)
  have t: "tid_TxID t = hex_encode (rev toy_body)" by (simp add: t_def)
  obtain mon where mon: "GenerateBtcHeaderProof toy_world t = Inr mon" using toy_header_proof unfolding t_def by blast
  have mk: "merkle_ok (\<lambda>b. b) (ref_merkle (\<lambda>b. b))" using ref_merkle_ok [of "\<lambda>b. b"] by simp
  have later: "later toy_world (toy_rpc []) toy_ln 0 = toy_world" by (simp add: toy_world_def)
  have sent: "snd (send_tx toy_world c ''CAL'' x i) = Inr toy_result" for c x i
    by (simp add: send_tx_def BroadcastTx_def toy_world_def toy_rpc_def toy_result_def Let_def)
  note ta = toy_anchor [OF agg toy_sent_leaf] and fields = toy_confirm_msg_fields [of agg]
  have asc: "ascii (replicate 16 (CHR ''1''))" "ascii toy_id" unfolding toy_id_def by code_simp+
  have m: "BtcTxMsg_ok (toy_btca_msg agg)" "btm_BtcTxBody (toy_btca_msg agg) = hex_encode toy_body"
    "btm_AnchorBtcAggRoot (toy_btca_msg agg) = hex_encode (toy_hash (CHR ''1''))"
    "btm_AnchorBtcAggID (toy_btca_msg agg) = ba_AnchorBtcAggID agg" "btm_BtcTxID (toy_btca_msg agg) = hex_encode (rev toy_body)"
    "btm_BeginCalTxInt (toy_btca_msg agg) = 1" "btm_EndCalTxInt (toy_btca_msg agg) = 2"
    using fields asc(1) ta(2)
    by (simp_all add: toy_btca_msg_def BtcTxMsg_ok_def is_i64_def toy_confirm_msg_def toy_btc_msg_def BtcTxMsg_zero_def del: hex_encode.simps)
  obtain txState where tx: "GenerateAnchorBtcTxState (toy_btca_msg agg) = Inr txState"
    using toy_index toy_hash_length toy_body_fields
    by (auto simp: GenerateAnchorBtcTxState_def m slice_to_def slice_from_def slice_def toy_body_def Let_def)
  have T: "holds (map_of (Db toy_node)) no_tables" "tables_ok no_tables" using holds_no_tables by (simp_all add: toy_node_fields)
  have db: "db_laws (e_db toy_world) map_of" "db_reliable (e_db toy_world)" using mem_db_laws mem_db_reliable by simp_all
  have rows: "ascii (CoreURI (app_config toy_node))" "\<forall>a \<in> set (Aggregations (toy_round toy_id)). ascii (AggID a) \<and> list_all AggState_ok (AggStates a)"
    by (simp_all add: toy_node_fields toy_round_facts toy_batch_fields)
  note T1 = calendar_round_tables [OF db T ok sent rows]
  have reach: "agg_reachable (e_crypto toy_world) (e_merkle toy_world) {Some ''u''} 1 100 (toy_round toy_id)"
    using toy_round_facts(3) by simp
  have empty: "t_rows no_tables = []" "rtx_Hash toy_sent = []" "br_Hash toy_result = []"
    by (simp_all add: no_tables_def toy_sent_def toy_result_def)
  have c: "arr_of (map_of (Db app')) CONFIRMED_BTC_TX_IDS_KEY = Some []"
    using round_keeps_monitor [OF db(1) ok] by (simp add: toy_node_fields arr_of_def)
  have world: "e_uuid toy_world = (\<lambda>b. b)" "rfc3339 (e_ids toy_world) z = []" for z by (simp_all add: toy_world_def)
  have "\<exists>st d. BeginTxMonitor (later toy_world (toy_rpc [toy_sent]) toy_ln 0) (BtcTxMsg_marshal (toy_btca_msg agg)) (app_state app') (Db app') =
      (st, d, None)"
    by (rule monitor_succeeds [where E = "later toy_world (toy_rpc [toy_sent]) toy_ln 0" and view = map_of and txs = "[toy_sent]" and agg = agg,
          OF _ _ T1(1,2) m(1) tx c])
      (use db m asc(1) in \<open>simp_all add: toy_sent_found agg ta world\<close>)
  then obtain st d where monitor:
    "BeginTxMonitor (later toy_world (toy_rpc [toy_sent]) toy_ln 0) (BtcTxMsg_marshal (toy_btca_msg agg)) (app_state app') (Db app') = (st, d, None)"
    by blast
  obtain d' effs' where confirm: "ConfirmAnchor (later toy_world (toy_rpc []) toy_ln 0) (app_config app') [] mon d = (d', effs')" by fastforce
  have i: "is_proof_id toy_id" "CHR '','' \<notin> set toy_id" "CHR '' '' \<notin> set toy_id" unfolding toy_id_def by code_simp+
  have no_proof: "mt_proof (ref_merkle (\<lambda>b. b)) [x] 0 = []" for x by (simp add: ref_merkle_def ref_proof.simps)
  have "\<exists>doc b. get_block toy_ln (tid_BlockHeight t) = Inr b \<and>
      ProofHandler (e_db toy_world) toy_request (app'\<lparr>Db := d'\<rparr>) = respondJSON 200 (JArr [proof_entry (hi_ProofID ([item] ! 0)) (JObj doc)]) \<and>
      map_of doc ''hash'' = Some (JStr (hi_Hash ([item] ! 0))) \<and>
      run_json_ops (e_crypto toy_world) (branch_ops (first_branch (first_branch doc)))
        (run_json_ops (e_crypto toy_world) (branch_ops (first_branch doc)) (toy_hash (CHR ''1''))) = MerkleRoot b"
    by (rule submitted_hash_is_anchored [where view = map_of and T = no_tables and ids = "{Some ''u''}" and q = 1 and batch = 100 and j = 0 and i = 0
        and u = "''u''" and items = "[item]" and drand = "[]" and R = "toy_rpc [toy_sent]" and m = "toy_btca_msg agg" and txs = "[toy_sent]" and n = 0
        and v = "toy_hash (CHR ''1'')" and calTx = toy_sent and btcAgg = agg and body = toy_body and z = 2 and L = toy_ln and t = 0 and st = st and d = d
        and btctx = t and mon = mon and R' = "toy_rpc []" and t' = 0 and result = toy_result and rounds = "[]" and effs' = effs', OF reach _ _ db T])
      (use ok monitor confirm m(1) in \<open>simp_all add: mk toy_round_facts batch [symmetric] empty item no_proof world rows toy_batch_fields toy_node_fields later
          toy_hash_length codec_simps sent toy_round_fresh [OF ok] toy_sent_found toy_sent_leaf toy_message_fields agg m ta
          toy_body_fields t mon toy_request_def i asc del: hex_encode.simps append_Cons\<close>)
  then show ?thesis using ok agg monitor confirm item by (auto simp: t_def TxID_zero_def toy_ln_def)
qed

end
