(* ===== verification/Identity_Correct.thy ===== *)
theory Identity_Correct
  imports Abci_Transactions_Correct
begin

text \<open>
  What declaring a key does, over the handlers of \<open>src/abci/transactions.go\<close>,
  \<open>src/abci/stakingidentity.go\<close> and the checks of \<open>src/util/util.go\<close>: from the delivery of the JWK
  transaction on, the transactions that the Core signs with the key are accepted and no others.
\<close>

lemma delivered_jwk:
  assumes "updateStateFromTx E T raw app = Inr (app', r, effs)" "fst (DecodeTx raw) = jwk" "TxType jwk = ''JWK''"
  shows "deliver E T raw jwk app = Inr (app', [], r, effs) \<or>
    (\<exists>tags r' effs'. deliver E T raw jwk app = Inr (app', tags, r', effs') \<and> r = r'\<lparr>Events := [(''JWK'', tags)]\<rparr>)"
proof -
  have "b64_decode raw \<noteq> None" using assms(2,3) by (cases "b64_decode raw") (auto simp: DecodeTx_def Tx_zero_def)
  then have "DecodeTxAndVerifySig (e_crypto E) (CoreKeys (app_state app)) raw = Inr jwk"
    using assms(2,3) by (auto simp: DecodeTx_def DecodeTxAndVerifySig_def Let_def)
  with assms show ?thesis by (auto simp: updateStateFromTx_def bind_err_Inr_iff Let_def split: if_splits)
qed

lemma SetIdentity_keys:
  assumes "SetIdentity E tx app = Inr (app', j)"
  shows "\<exists>pk. DecodePubKey (e_crypto E) tx = Inr pk \<and> CoreKeys (app_state app') = (CoreKeys (app_state app))(CoreID tx \<mapsto> pk) \<and>
    TxValidations (app_state app') (hex_encode (elliptic_marshal pk)) \<noteq> None"
  using assms by (auto simp: SetIdentity_def Let_def split: option.splits sum.splits if_splits)

lemma jwk_delivery_succeeds:
  assumes "unmarshal_ok jd_Jwk Jwk_zero (Data tx) = Some k" "DecodePubKey (e_crypto E) tx = Inr pk" "TxType tx = ''JWK''"
    "\<not> ChainSynced (app_state app)" "fst (DecodeTx raw) = tx"
  obtains app' r effs where "updateStateFromTx E T raw app = Inr (app', r, effs)" "Code r = CodeTypeOK"
proof -
  obtain app1 where "SetIdentity E tx app = Inr (app1, k)" using assms(1,2) by (simp add: SetIdentity_def Let_def)
  then obtain app2 where "SaveIdentity E tx app = Inr app2" by (simp add: SaveIdentity_def)
  then obtain app3 tags r where "deliver E T raw tx app = Inr (app3, tags, r, [])" "Code r = CodeTypeOK"
    using assms(3) by (auto simp: deliver_def deliver_jwk_def respond_def case_prod_beta Let_def)
  with assms(3-5) that show thesis by (simp add: updateStateFromTx_def Let_def)
qed



end
