(* ===== verification/Replication.thy ===== *)
theory Replication
  imports Abci_App
begin

text \<open>
  The Cores as replicas of one state machine: what the blocks of the chain do to the application
  (\<open>BeginBlock\<close>, \<open>DeliverTx\<close>, \<open>EndBlock\<close>, \<open>Commit\<close> of \<open>src/abci/abci.go\<close>) is the same on every synced
  node, whatever its configuration, its database, its role and the answers of its Lightning and
  Tendermint nodes. \<open>same_state\<close> has the fields that only blocks change. A node that is not synced
  is no replica: it does not verify signatures.
\<close>

subsection \<open>Blocks\<close>

fun deliver_all :: "'d Env \<Rightarrow> TmLib \<Rightarrow> bytes list \<Rightarrow> 'd App \<Rightarrow> err + 'd App \<times> Response list" where
  "deliver_all E T [] app = Inr (app, [])"
| "deliver_all E T (tx # txs) app =
     bind_err (DeliverTx E T tx app) (\<lambda>(app, r, effs).
       bind_err (deliver_all E T txs app) (\<lambda>(app, rs). Inr (app, r # rs)))"

text \<open>What a node tells the others of a block: its answers, the validator updates, the hash.\<close>

type_synonym block_result = "Response list \<times> ValidatorUpdate list \<times> bytes"

definition run_block :: "'d Env \<Rightarrow> TmLib \<Rightarrow> bytes list \<Rightarrow> 'd App \<Rightarrow> err + 'd App \<times> block_result" where
  "run_block E T txs app =
     bind_err (deliver_all E T txs (BeginBlock app)) (\<lambda>(app, rs).
     bind_err (EndBlock E app) (\<lambda>(app, us, effs).
     bind_err (Commit E app) (\<lambda>(app, h). Inr (app, rs, us, h))))"

fun run_blocks :: "'d Env \<Rightarrow> TmLib \<Rightarrow> bytes list list \<Rightarrow> 'd App \<Rightarrow> err + 'd App \<times> block_result list" where
  "run_blocks E T [] app = Inr (app, [])"
| "run_blocks E T (b # bs) app =
     bind_err (run_block E T b app) (\<lambda>(app, r).
       bind_err (run_blocks E T bs app) (\<lambda>(app, rs). Inr (app, r # rs)))"

subsection \<open>Replicas\<close>

definition same_state :: "AnchorState \<Rightarrow> AnchorState \<Rightarrow> bool" where
  "same_state s t \<longleftrightarrow> TxInt s = TxInt t \<and> Height s = Height t \<and> AppHash s = AppHash t \<and>
     LatestCalTxInt s = LatestCalTxInt t \<and> CurrentCalInts s = CurrentCalInts t \<and>
     LatestBtcaTx s = LatestBtcaTx t \<and> LatestBtcaTxInt s = LatestBtcaTxInt t \<and>
     LatestBtccTx s = LatestBtccTx t \<and> LatestBtccTxInt s = LatestBtccTxInt t \<and> LatestBtccHeight s = LatestBtccHeight t \<and>
     LatestErrRoot s = LatestErrRoot t \<and> LastErrorCoreID s = LastErrorCoreID t \<and> LastAnchorCoreID s = LastAnchorCoreID t \<and>
     CoreKeys s = CoreKeys t \<and> IDMap s = IDMap t"

definition replicas :: "('d \<Rightarrow> view) \<Rightarrow> ('e \<Rightarrow> view) \<Rightarrow> 'd App \<Rightarrow> 'e App \<Rightarrow> bool" where
  "replicas view view' a b \<longleftrightarrow> ChainSynced (app_state a) \<and> ChainSynced (app_state b) \<and> same_state (app_state a) (app_state b) \<and>
     ValUpdates a = ValUpdates b \<and> valAddrToPubKeyMap a = valAddrToPubKeyMap b \<and>
     (\<forall>k. view (Db a) (''val:'' @ k) = view' (Db b) (''val:'' @ k))"

text \<open>The result of one delivery on two nodes, whatever they start.\<close>

definition same_delivery ::
  "('d \<Rightarrow> view) \<Rightarrow> ('e \<Rightarrow> view) \<Rightarrow> 'd App \<times> tags \<times> Response \<times> 'f \<Rightarrow> 'e App \<times> tags \<times> Response \<times> 'f \<Rightarrow> bool" where
  "same_delivery view view' x y \<longleftrightarrow>
     (case (x, y) of ((a, t, r, _), (b, t', r', _)) \<Rightarrow> replicas view view' a b \<and> t = t' \<and> r = r')"

lemma same_delivery_simps [simp]:
  "same_delivery view view' (a, t, r, e) (b, t', r', e') \<longleftrightarrow> replicas view view' a b \<and> t = t' \<and> r = r'"
  by (simp add: same_delivery_def)

lemma replicas_set_state:
  "replicas view view' a b \<Longrightarrow> same_state (f (app_state a)) (g (app_state b)) \<Longrightarrow> ChainSynced (f (app_state a)) \<Longrightarrow>
    ChainSynced (g (app_state b)) \<Longrightarrow> replicas view view' (set_state f a) (set_state g b)"
  by (simp add: replicas_def set_state_def)

lemma replicas_state:
  "replicas view view' a b \<Longrightarrow> same_state (app_state a) (app_state b) \<and> ChainSynced (app_state a) \<and> ChainSynced (app_state b)"
  by (simp add: replicas_def)

lemma IncrementSuccessAnchor_same:
  "same_state (fst (IncrementSuccessAnchor c s)) t = same_state s t" "same_state t (fst (IncrementSuccessAnchor c s)) = same_state t s"
  "ChainSynced (fst (IncrementSuccessAnchor c s)) = ChainSynced s"
  by (auto simp: IncrementSuccessAnchor_def SetValidationRecord_def same_state_def Let_def split: prod.splits option.splits if_splits)

lemma incrementTxInt_same:
  assumes "replicas view view' a b"
  shows "replicas view view' (fst (incrementTxInt t a)) (fst (incrementTxInt t b)) \<and> snd (incrementTxInt t a) = snd (incrementTxInt t b)"
  using assms by (simp add: incrementTxInt_def replicas_def same_state_def Let_def)

lemma deliver_cal_same: "replicas view view' a b \<Longrightarrow> same_delivery view view' (deliver_cal T raw a) (deliver_cal T raw b)"
  using incrementTxInt_same [of view view' a b "[]"]
  by (auto simp: deliver_cal_def case_prod_beta Let_def replicas_def same_state_def set_state_def)

lemma deliver_btca_same: "replicas view view' a b \<Longrightarrow> same_delivery view view' (deliver_btca raw tx a) (deliver_btca raw tx b)"
  by (auto simp: deliver_btca_def ignored_def incrementTxInt_def Let_def replicas_def same_state_def set_state_def split: option.splits)

lemma btcc_seen_same:
  assumes "replicas view view' a b"
  shows "rel_option (\<lambda>(a, t) (b, t'). replicas view view' a b \<and> t = t') (btcc_seen tx a) (btcc_seen tx b)"
  using assms by (auto simp: btcc_seen_def replicas_def same_state_def set_state_def split: option.splits)

lemma deliver_btcc_same:
  assumes "replicas view view' a b"
  shows "same_delivery view view' (deliver_btcc tx a) (deliver_btcc tx b)"
proof (cases "btcc_seen tx a")
  case None
  then show ?thesis using assms btcc_seen_same [OF assms, of tx] by (simp add: deliver_btcc_def ignored_def)
next
  case (Some p)
  then obtain a1 b1 t where s: "btcc_seen tx a = Some (a1, t)" "btcc_seen tx b = Some (b1, t)" "replicas view view' a1 b1"
    using btcc_seen_same [OF assms, of tx] by (cases p) (auto simp: option_rel_Some1)
  obtain a2 t2 b2 where i: "incrementTxInt t a1 = (a2, t2)" "incrementTxInt t b1 = (b2, t2)" "replicas view view' a2 b2"
    using incrementTxInt_same [OF s(3), of t] by (metis prod.collapse)
  have "replicas view view' (set_state (f c) a2) (set_state (f c) b2)"
    if "f c = (\<lambda>st. fst (IncrementSuccessAnchor c (st\<lparr>LatestBtccTxInt := TxInt st, LatestBtccHeight := i64 (Height st + 1), LastAnchorCoreID := c\<rparr>)))"
    for f c
    by (rule replicas_set_state [OF i(3)], unfold that IncrementSuccessAnchor_same)
      (use i(3) in \<open>simp_all add: replicas_def same_state_def\<close>)
  then show ?thesis using s(1,2) i(1,2) by (simp add: deliver_btcc_def Let_def set_state_def)
qed

lemma SetIdentity_same:
  assumes "replicas view view' a b" "e_crypto E = e_crypto E'"
  shows "rel_sum (=) (\<lambda>(a, j) (b, j'). replicas view view' a b \<and> j = j') (SetIdentity E tx a) (SetIdentity E' tx b)"
  using assms by (simp add: SetIdentity_def Let_def replicas_def same_state_def split: option.split sum.split)

lemma SaveIdentity_same:
  assumes "replicas view view' a b" "e_crypto E = e_crypto E'"
  shows "rel_sum (=) (replicas view view') (SaveIdentity E tx a) (SaveIdentity E' tx b)"
  using SetIdentity_same [OF assms, of tx]
  by (auto simp: SaveIdentity_def replicas_def same_state_def elim!: rel_sum.cases)

lemma deliver_jwk_same:
  assumes "replicas view view' a b" "e_crypto E = e_crypto E'"
  shows "rel_sum (=) (same_delivery view view') (deliver_jwk E tx a) (deliver_jwk E' tx b)"
  using SaveIdentity_same [OF assms, of tx] incrementTxInt_same [of view view' _ _ "[]"] assms(1)
  by (cases rule: rel_sum.cases) (auto simp: deliver_jwk_def ignored_def case_prod_beta Let_def split: err.splits)

lemma updateValidator_same:
  assumes "replicas view view' a b" "db_laws D view" "db_reliable D" "db_laws D' view'" "db_reliable D'"
  shows "rel_sum (=) (\<lambda>(a, r) (b, r'). replicas view view' a b \<and> r = r') (updateValidator T D v a) (updateValidator T D' v b)"
proof -
  have "view (Db a) (''val:'' @ vu_PubKey v) = view' (Db b) (''val:'' @ vu_PubKey v)" using assms(1) by (simp add: replicas_def)
  with assms(1) show ?thesis
    by (simp add: updateValidator_def Let_def replicas_def db_set_reliable [OF assms(2,3)] db_set_reliable [OF assms(4,5)]
        db_delete_reliable [OF assms(2,3)] db_delete_reliable [OF assms(4,5)] db_get_reliable [OF assms(2,3)]
        db_get_reliable [OF assms(4,5)] split: option.split sum.split del: append_Cons)
qed

lemma deliver_val_same:
  assumes "replicas view view' a b" "db_laws D view" "db_reliable D" "db_laws D' view'" "db_reliable D'"
  shows "rel_sum (=) (same_delivery view view') (deliver_val T D tx a) (deliver_val T D' tx b)"
proof -
  obtain a1 t b1 where i: "incrementTxInt [] a = (a1, t)" "incrementTxInt [] b = (b1, t)" "replicas view view' a1 b1"
    using incrementTxInt_same [OF assms(1), of "[]"] by (metis prod.collapse)
  have "rel_sum (=) (\<lambda>(a, r) (b, r'). replicas view view' a b \<and> r = r') (execValidatorTx T D (Data tx) a1) (execValidatorTx T D' (Data tx) b1)"
    using updateValidator_same [OF i(3) assms(2-5)] i(3) by (auto simp: execValidatorTx_def split: sum.split err.split)
  then show ?thesis unfolding deliver_val_def i by (cases rule: rel_sum.cases) auto
qed

text \<open>What two nodes share: the libraries, which have to compute the same, and databases that work.\<close>

definition node_pair :: "'d Env \<Rightarrow> ('d \<Rightarrow> view) \<Rightarrow> 'e Env \<Rightarrow> ('e \<Rightarrow> view) \<Rightarrow> bool" where
  "node_pair E view E' view' \<longleftrightarrow> e_crypto E = e_crypto E' \<and> db_laws (e_db E) view \<and> db_reliable (e_db E) \<and>
     db_laws (e_db E') view' \<and> db_reliable (e_db E')"

lemma deliver_same:
  assumes "replicas view view' a b" "node_pair E view E' view'"
  shows "rel_sum (=) (same_delivery view view') (deliver E T raw tx a) (deliver E' T raw tx b)"
proof -
  have "same_delivery view view' (deliver_stake tx a) (deliver_stake tx b)"
    using assms(1) by (auto simp: deliver_stake_def ignored_def incrementTxInt_def Let_def replicas_def same_state_def split: option.split)
  moreover have "same_delivery view view' (deliver_fee tx a) (deliver_fee tx b)"
    using assms(1) by (auto simp: deliver_fee_def ignored_def set_state_def replicas_def same_state_def split: option.split)
  moreover have "replicas view view' (set_state (\<lambda>st. st\<lparr>LatestErrRoot := d, LastErrorCoreID := i\<rparr>) a)
      (set_state (\<lambda>st. st\<lparr>LatestErrRoot := d, LastErrorCoreID := i\<rparr>) b)" for d i
    using assms(1) by (simp add: set_state_def replicas_def same_state_def)
  ultimately show ?thesis
    using assms deliver_val_same [OF assms(1)] deliver_cal_same [OF assms(1)] deliver_btca_same [OF assms(1)]
      deliver_btcc_same [OF assms(1)] deliver_jwk_same [OF assms(1)]
    by (simp add: deliver_def ignored_def node_pair_def)
qed

lemma DeliverTx_same:
  assumes "replicas view view' a b" "node_pair E view E' view'"
  shows "rel_sum (=) (\<lambda>(a, r, _) (b, r', _). replicas view view' a b \<and> r = r') (DeliverTx E T raw a) (DeliverTx E' T raw b)"
proof -
  have s: "ChainSynced (app_state a)" "ChainSynced (app_state b)" "CoreKeys (app_state a) = CoreKeys (app_state b)" "e_crypto E = e_crypto E'"
    using assms by (simp_all add: replicas_def same_state_def node_pair_def)
  define tx where "tx = (case DecodeTxAndVerifySig (e_crypto E) (CoreKeys (app_state a)) raw of Inl e \<Rightarrow> Tx_zero | Inr tx \<Rightarrow> tx)"
  have u: "DeliverTx E T raw a = bind_err (deliver E T raw tx a) (\<lambda>(app, tags, resp, effs). Inr (app, resp\<lparr>Events := [(TxType tx, tags)]\<rparr>, effs))"
    "DeliverTx E' T raw b = bind_err (deliver E' T raw tx b) (\<lambda>(app, tags, resp, effs). Inr (app, resp\<lparr>Events := [(TxType tx, tags)]\<rparr>, effs))"
    using s by (simp_all add: DeliverTx_def updateStateFromTx_def tx_def Let_def)
  show ?thesis unfolding u using deliver_same [OF assms, of T raw tx] by (cases rule: rel_sum.cases) auto
qed

lemma deliver_all_same:
  assumes "replicas view view' a b" "node_pair E view E' view'"
  shows "rel_sum (=) (\<lambda>(a, rs) (b, rs'). replicas view view' a b \<and> rs = rs') (deliver_all E T txs a) (deliver_all E' T txs b)"
  using assms(1)
proof (induction txs arbitrary: a b)
  case (Cons tx txs)
  from DeliverTx_same [OF Cons.prems assms(2), of T tx] show ?case
  proof (cases rule: rel_sum.cases)
    case (2 x y)
    then obtain a1 b1 r e e' where d: "DeliverTx E T tx a = Inr (a1, r, e)" "DeliverTx E' T tx b = Inr (b1, r, e')" "replicas view view' a1 b1"
      by (cases x; cases y) auto
    from Cons.IH [OF d(3)] show ?thesis using d(1,2) by (cases rule: rel_sum.cases) auto
  qed auto
qed simp

subsection \<open>The end of a block\<close>

lemma replicas_local [simp]:
  "replicas view view' (a\<lparr>PendingValidator := p\<rparr>) b = replicas view view' a b"
  "replicas view view' a (b\<lparr>PendingValidator := p\<rparr>) = replicas view view' a b"
  "replicas view view' (a\<lparr>PendingChangeStake := n\<rparr>) b = replicas view view' a b"
  "replicas view view' a (b\<lparr>PendingChangeStake := n\<rparr>) = replicas view view' a b"
  by (simp_all add: replicas_def)

lemma CheckVoteValidator_same:
  assumes "CheckVoteValidator E a = Inr (a', e)"
  shows "replicas view view' a' b = replicas view view' a b" "replicas view' view b a' = replicas view' view b a" "ValUpdates a' = ValUpdates a"
  using assms by (auto simp: CheckVoteValidator_def Let_def split: if_splits sum.splits err.splits)

lemma CheckVoteChangeStake_same:
  "replicas view view' (fst (CheckVoteChangeStake E a)) b = replicas view view' a b"
  "replicas view' view b (fst (CheckVoteChangeStake E a)) = replicas view' view b a"
  "ValUpdates (fst (CheckVoteChangeStake E a)) = ValUpdates a"
  by (auto simp: CheckVoteChangeStake_def Let_def split: list.split option.split)

lemma EndBlock_same:
  assumes "replicas view view' a b" "EndBlock E a = Inr (a', us, effs)" "EndBlock E' b = Inr (b', us', effs')"
  shows "replicas view view' a' b' \<and> us = us'"
proof -
  have s: "replicas view view' (fst (StartAnchoring a)) (fst (StartAnchoring b))"
    using assms(1) by (simp add: StartAnchoring_def Let_def replicas_def same_state_def)
  obtain a1 e1 where a: "CheckVoteValidator E (fst (StartAnchoring a)) = Inr (a1, e1)" "a' = fst (CheckVoteChangeStake E a1)" "us = ValUpdates a'"
    using assms(2) by (auto simp: EndBlock_def Let_def bind_err_Inr_iff case_prod_beta)
  obtain b1 e2 where b: "CheckVoteValidator E' (fst (StartAnchoring b)) = Inr (b1, e2)" "b' = fst (CheckVoteChangeStake E' b1)" "us' = ValUpdates b'"
    using assms(3) by (auto simp: EndBlock_def Let_def bind_err_Inr_iff case_prod_beta)
  have "replicas view view' a' b'"
    using s by (simp add: a(2) b(2) CheckVoteChangeStake_same CheckVoteValidator_same(1) [OF a(1)] CheckVoteValidator_same(2) [OF b(1)])
  then show ?thesis by (simp add: a(3) b(3) replicas_def)
qed

lemma Commit_result:
  assumes "Commit E a = Inr (a', h)"
  shows "app_hash (Height (app_state a)) = Inr h \<and> (\<exists>j. a' = a\<lparr>Db := fst (db_set (e_db E) (Db a) stateKey j),
    app_state := (app_state a)\<lparr>AppHash := h, Height := i64 (Height (app_state a) + 1)\<rparr>\<rparr>)"
proof -
  define st where "st = (app_state a)\<lparr>AppHash := h, Height := i64 (Height (app_state a) + 1)\<rparr>"
  obtain d where "app_hash (Height (app_state a)) = Inr h" "saveState (e_db E) st (Db a) = Inr d" "a' = a\<lparr>Db := d, app_state := st\<rparr>"
    using assms by (auto simp: Commit_def bind_err_Inr_iff Let_def st_def)
  then show ?thesis by (auto simp: saveState_def st_def [symmetric] split: sum.splits)
qed

lemma Commit_same:
  assumes "replicas view view' a b" "node_pair E view E' view'" "Commit E a = Inr (a', h)" "Commit E' b = Inr (b', h')"
  shows "replicas view view' a' b' \<and> h = h'"
proof -
  have other: "''val:'' @ k \<noteq> stateKey" for k by (simp add: stateKey_def)
  obtain ja where a: "app_hash (Height (app_state a)) = Inr h" "a' = a\<lparr>Db := fst (db_set (e_db E) (Db a) stateKey ja),
    app_state := (app_state a)\<lparr>AppHash := h, Height := i64 (Height (app_state a) + 1)\<rparr>\<rparr>"
    using Commit_result [OF assms(3)] by blast
  obtain jb where b: "app_hash (Height (app_state b)) = Inr h'" "b' = b\<lparr>Db := fst (db_set (e_db E') (Db b) stateKey jb),
    app_state := (app_state b)\<lparr>AppHash := h', Height := i64 (Height (app_state b) + 1)\<rparr>\<rparr>"
    using Commit_result [OF assms(4)] by blast
  show ?thesis
    using assms(1,2) other a(1) b(1) unfolding a(2) b(2)
    by (simp add: replicas_def same_state_def node_pair_def db_set_reliable del: append_Cons)
qed

lemma run_block_same:
  assumes "replicas view view' a b" "node_pair E view E' view'" "run_block E T txs a = Inr (a', r)" "run_block E' T txs b = Inr (b', r')"
  shows "replicas view view' a' b' \<and> r = r'"
proof -
  have s: "replicas view view' (BeginBlock a) (BeginBlock b)" using assms(1) by (simp add: replicas_def BeginBlock_def)
  obtain a1 rs a2 us ea h where a: "deliver_all E T txs (BeginBlock a) = Inr (a1, rs)" "EndBlock E a1 = Inr (a2, us, ea)"
    "Commit E a2 = Inr (a', h)" "r = (rs, us, h)"
    using assms(3) by (auto simp: run_block_def bind_err_Inr_iff)
  obtain b1 rs' b2 us' eb h' where b: "deliver_all E' T txs (BeginBlock b) = Inr (b1, rs')" "EndBlock E' b1 = Inr (b2, us', eb)"
    "Commit E' b2 = Inr (b', h')" "r' = (rs', us', h')"
    using assms(4) by (auto simp: run_block_def bind_err_Inr_iff)
  have 1: "replicas view view' a1 b1 \<and> rs = rs'" using deliver_all_same [OF s assms(2), of T txs] a(1) b(1) by simp
  then have 2: "replicas view view' a2 b2 \<and> us = us'" using EndBlock_same a(2) b(2) by blast
  then have "replicas view view' a' b' \<and> h = h'" using Commit_same [OF _ assms(2) a(3) b(3)] by blast
  with 1 2 a(4) b(4) show ?thesis by simp
qed

text \<open>C3. The Cores are replicas of one state machine. Two synced nodes in step that execute the same blocks
  give the same answer to every transaction, hand the same validator updates to Tendermint, commit
  the same hashes, and are in step again: counters, keys of the Cores, anchors and validators agree.
  Nothing else of a node matters: neither its configuration, its role and its own database, nor what
  its Lightning node, its Tendermint node and its clock say.\<close>

theorem replicas_agree:
  assumes "replicas view view' a b" "node_pair E view E' view'"
    "run_blocks E T blocks a = Inr (a', results)" "run_blocks E' T blocks b = Inr (b', results')"
  shows "results = results' \<and> replicas view view' a' b'"
  using assms(1,3,4)
proof (induction blocks arbitrary: a b results results')
  case (Cons txs blocks)
  obtain a1 r rs where a: "run_block E T txs a = Inr (a1, r)" "run_blocks E T blocks a1 = Inr (a', rs)" "results = r # rs"
    using Cons.prems(2) by (auto simp: bind_err_Inr_iff)
  obtain b1 r' rs' where b: "run_block E' T txs b = Inr (b1, r')" "run_blocks E' T blocks b1 = Inr (b', rs')" "results' = r' # rs'"
    using Cons.prems(3) by (auto simp: bind_err_Inr_iff)
  have 1: "replicas view view' a1 b1 \<and> r = r'" using run_block_same [OF Cons.prems(1) assms(2) a(1) b(1)] .
  then have "rs = rs' \<and> replicas view view' a' b'" using Cons.IH [OF _ a(2) b(2)] by blast
  with 1 a(3) b(3) show ?case by simp
qed simp

definition toy_core :: "string \<Rightarrow> bool \<Rightarrow> (bytes \<times> bytes) list App" where
  "toy_core i v = toy_app\<lparr>app_ID := i, app_config := toy_cfg\<lparr>ProposedVal := [], UpdateStake := [], DoCal := v\<rparr>,
     app_state := AnchorState_zero\<lparr>ID := i, AmValidator := v, CoreKeys := [''A'' \<mapsto> toy_key], ChainSynced := True\<rparr>\<rparr>"

definition toy_cal :: bytes where
  "toy_cal = EncodeTxWithKey toy_crypto Some (toy_btca\<lparr>TxType := ''CAL''\<rparr>)"

text \<open>A block with a calendar transaction and a transaction that is none.\<close>

lemma toy_block_runs:
  assumes "e_crypto E = toy_crypto"
  shows "\<exists>a' r. run_blocks E toy_tm [[toy_cal, ''!'']] (toy_core i v) = Inr (a', [r]) \<and> TxInt (app_state a') = 1"
proof -
  have dec: "DecodeTxAndVerifySig toy_crypto [''A'' \<mapsto> toy_key] toy_cal =
      Inr (toy_btca\<lparr>TxType := ''CAL'', Sig := b64_encode (Tx_marshal (toy_btca\<lparr>TxType := ''CAL''\<rparr>))\<rparr>)"
    unfolding toy_cal_def by (rule toy_decode_kind) simp_all
  obtain e where bad: "DecodeTxAndVerifySig toy_crypto [''A'' \<mapsto> toy_key] ''!'' = Inl e"
    by (simp add: DecodeTxAndVerifySig_def bad_b64)
  define a where "a = BeginBlock (toy_core i v)"
  obtain a1 rs where d: "deliver_all E toy_tm [toy_cal, ''!''] a = Inr (a1, rs)"
    "app_state a1 = (app_state a)\<lparr>TxInt := 1, LatestCalTxInt := 1, CurrentCalInts := 1\<rparr>" "app_config a1 = app_config a"
    using assms by (auto simp: a_def toy_core_def BeginBlock_def DeliverTx_def updateStateFromTx_def dec bad deliver_def deliver_cal_def
        incrementTxInt_def set_state_def ignored_def Tx_zero_def AnchorState_zero_def is_i64_def Let_def)
  define st where "st = (app_state a1)\<lparr>CurrentCalInts := 0\<rparr>"
  have c: "ProposedVal (app_config a1) = []" "UpdateStake (app_config a1) = []" using d(3) by (simp_all add: a_def toy_core_def BeginBlock_def)
  obtain starts where "StartAnchoring a1 = (a1\<lparr>app_state := st\<rparr>, starts)"
    using d(2) by (auto simp: StartAnchoring_def Let_def st_def a_def toy_core_def BeginBlock_def)
  moreover have "CheckVoteValidator E (a1\<lparr>app_state := st\<rparr>) = Inr (a1\<lparr>app_state := st\<rparr>, [])"
    "CheckVoteChangeStake E (a1\<lparr>app_state := st\<rparr>) = (a1\<lparr>app_state := st\<rparr>, [])"
    using c by (simp_all add: CheckVoteValidator_def CheckVoteChangeStake_def Let_def)
  ultimately obtain effs where e: "EndBlock E a1 = Inr (a1\<lparr>app_state := st\<rparr>, ValUpdates a1, effs)"
    by (simp add: EndBlock_def Let_def)
  have h: "app_hash 0 = Inr (replicate 8 (CHR 0x00))" by code_simp
  define st' where "st' = st\<lparr>AppHash := replicate 8 (CHR 0x00), Height := 1\<rparr>"
  have m: "int_keys (\<lambda>_. None) = Map.empty" by (simp add: int_keys_def fun_eq_iff split: option.split)
  have "is_ok (AnchorState_json st')"
    using d(2) by (simp add: AnchorState_json_def is_ok_bind json_map_def map_members_def m st'_def st_def a_def toy_core_def
        BeginBlock_def AnchorState_zero_def)
  then obtain d' where "saveState (e_db E) st' (Db a1) = Inr d'" by (cases "AnchorState_json st'") (simp_all add: saveState_def)
  moreover have "i64 1 = 1" by (simp add: i64_def)
  ultimately have "Commit E (a1\<lparr>app_state := st\<rparr>) = Inr (a1\<lparr>app_state := st', Db := d'\<rparr>, replicate 8 (CHR 0x00))"
    using h d(2) by (simp add: Commit_def Let_def st'_def st_def a_def toy_core_def BeginBlock_def AnchorState_zero_def)
  then show ?thesis using d(1,2) e by (simp add: run_block_def a_def [symmetric] st'_def st_def)
qed

theorem replicas_agree_witness:
  "\<exists>a b results. run_blocks toy_world toy_tm [[toy_cal, ''!'']] (toy_core ''A'' True) = Inr (a, results) \<and>
    run_blocks (toy_world\<lparr>e_address := ''B'', e_now := 5\<rparr>) toy_tm [[toy_cal, ''!'']] (toy_core ''B'' False) = Inr (b, results) \<and>
    replicas map_of map_of a b \<and> TxInt (app_state a) = 1"
proof -
  define E' where "E' = toy_world\<lparr>e_address := ''B'', e_now := 5\<rparr>"
  have r: "replicas map_of map_of (toy_core ''A'' True) (toy_core ''B'' False)"
    by (simp add: replicas_def same_state_def toy_core_def)
  have n: "node_pair toy_world map_of E' map_of" by (simp add: node_pair_def E'_def mem_db_laws mem_db_reliable)
  obtain a r1 where a: "run_blocks toy_world toy_tm [[toy_cal, ''!'']] (toy_core ''A'' True) = Inr (a, [r1])" "TxInt (app_state a) = 1"
    using toy_block_runs [of toy_world "''A''" True] by auto
  obtain b r2 where b: "run_blocks E' toy_tm [[toy_cal, ''!'']] (toy_core ''B'' False) = Inr (b, [r2])"
    using toy_block_runs [of E' "''B''" False] by (auto simp: E'_def)
  from replicas_agree [OF r n a(1) b] a b show ?thesis unfolding E'_def by auto
qed

subsection \<open>A node that catches up\<close>

text \<open>C35. A node that catches up is no replica: it delivers a calendar transaction whose signature the
  synced nodes refuse, answers with success and counts it, so that the counters differ from then on
  (a block proposer can put such a transaction into a block).\<close>

theorem syncing_node_diverges:
  assumes "same_state (app_state a) (app_state b)" "ChainSynced (app_state a)" "\<not> ChainSynced (app_state b)"
    "DecodeTx raw = (tx, False)" "TxType tx = ''CAL''" "is_i64 (TxInt (app_state a))"
    "DecodeTxAndVerifySig (e_crypto E) (CoreKeys (app_state a)) raw = Inl e"
  shows "\<exists>r b' r'. DeliverTx E T raw a = Inr (a, r, []) \<and> DeliverTx E' T raw b = Inr (b', r', []) \<and>
    Code r \<noteq> Code r' \<and> \<not> same_state (app_state a) (app_state b')"
proof -
  have a: "DeliverTx E T raw a = Inr (a, refuse\<lparr>Events := [([], [])]\<rparr>, [])"
    using assms(2,7) by (simp add: DeliverTx_def updateStateFromTx_def deliver_def Tx_zero_def ignored_def)
  have n: "i64 (TxInt (app_state a) + 1) \<noteq> TxInt (app_state a)"
  proof (cases "is_i64 (TxInt (app_state a) + 1)")
    case False
    then have "TxInt (app_state a) = 2 ^ 63 - 1" using assms(6) by (simp add: is_i64_def)
    then show ?thesis by (simp add: i64_def)
  qed simp
  have t: "TxInt (app_state b) = TxInt (app_state a)" using assms(1) by (simp add: same_state_def)
  obtain b' r' where b: "DeliverTx E' T raw b = Inr (b', r', [])" "Code r' = CodeTypeOK" "TxInt (app_state b') = i64 (TxInt (app_state a) + 1)"
    using assms(3-5) t by (simp add: DeliverTx_def updateStateFromTx_def deliver_def deliver_cal_def incrementTxInt_def set_state_def respond_def Let_def)
  have "\<not> same_state (app_state a) (app_state b')" using b(3) n by (auto simp: same_state_def)
  moreover have "Code (refuse\<lparr>Events := [([], [])]\<rparr>) \<noteq> Code r'" using b(2) by (simp add: refuse_def respond_def)
  ultimately show ?thesis using a b(1) by blast
qed

theorem syncing_node_diverges_witness:
  "\<exists>r b r'. DeliverTx toy_world toy_tm (raw_tx (Tx_zero\<lparr>TxType := ''CAL'', CoreID := ''X''\<rparr>)) (toy_core ''A'' True) =
      Inr (toy_core ''A'' True, r, []) \<and>
    DeliverTx toy_world toy_tm (raw_tx (Tx_zero\<lparr>TxType := ''CAL'', CoreID := ''X''\<rparr>))
      (set_state (\<lambda>st. st\<lparr>ChainSynced := False\<rparr>) (toy_core ''B'' False)) = Inr (b, r', []) \<and>
    \<not> same_state (app_state (toy_core ''A'' True)) (app_state b)"
proof -
  define tx where "tx = Tx_zero\<lparr>TxType := ''CAL'', CoreID := ''X''\<rparr>"
  have ok: "Tx_ok tx" by (simp add: tx_def Tx_ok_def Tx_zero_def is_i64_def)
  then obtain e where e: "DecodeTxAndVerifySig (e_crypto toy_world) (CoreKeys (app_state (toy_core ''A'' True))) (raw_tx tx) = Inl e"
    by (simp add: DecodeTxAndVerifySig_def raw_tx_def codec_simps toy_core_def tx_def)
  have "\<exists>r b' r'. DeliverTx toy_world toy_tm (raw_tx tx) (toy_core ''A'' True) = Inr (toy_core ''A'' True, r, []) \<and>
    DeliverTx toy_world toy_tm (raw_tx tx) (set_state (\<lambda>st. st\<lparr>ChainSynced := False\<rparr>) (toy_core ''B'' False)) = Inr (b', r', []) \<and>
    Code r \<noteq> Code r' \<and> \<not> same_state (app_state (toy_core ''A'' True)) (app_state b')"
    by (rule syncing_node_diverges [OF _ _ _ DecodeTx_raw [OF ok] _ _ e])
      (simp_all add: same_state_def toy_core_def set_state_def tx_def AnchorState_zero_def is_i64_def)
  then show ?thesis unfolding tx_def by blast
qed

end
